(* ===== verification/Prelude.thy ===== *)
theory Prelude
  imports Main "HOL-Library.Word"
begin

text \<open>
  Shared vocabulary of the development: machine integers, the result type of fallible
  Rust functions (with a branch for panics), the iterator adaptors \<open>max_by_key\<close>,
  \<open>min_by_key\<close> and \<open>position\<close>, decimal printing of unsigned integers, and the contract
  of a "take the higher ranked one" operation, which two components provide.
\<close>

named_theorems check_iff \<open>when a check of the source passes, fails or panics\<close>

section \<open>Machine integers and byte strings\<close>

type_synonym u8 = "8 word"
type_synonym u32 = "32 word"
type_synonym u64 = "64 word"

text \<open>
  A Rust \<open>String\<close> is its UTF-8 byte sequence; a HOL \<^typ>\<open>char\<close> is one byte. So
  \<open>s.len()\<close> is \<^term>\<open>length\<close>, \<open>as_bytes\<close> and \<open>into_bytes\<close> are the
  identity and \<open>==\<close> is equality of lists.
\<close>

type_synonym bytes = "char list"

section \<open>Results of fallible functions\<close>

text \<open>
  \<open>Result<T, E>\<close> with a third outcome for a panic of the Rust code, which in the Wasm
  module is a trap and never an \<open>Err\<close> the caller can handle.
\<close>

datatype ('e, 'a) outcome = Ok 'a | Err 'e | Panic

text \<open>The \<open>?\<close> operator: continue with the value, pass on an error or a panic.\<close>

fun and_then :: "('e, 'a) outcome \<Rightarrow> ('a \<Rightarrow> ('e, 'b) outcome) \<Rightarrow> ('e, 'b) outcome" where
  "and_then (Ok x) k = k x"
| "and_then (Err e) k = Err e"
| "and_then Panic k = Panic"

definition ok_or :: "'a option \<Rightarrow> 'e \<Rightarrow> ('e, 'a) outcome" where
  "ok_or x e = (case x of None \<Rightarrow> Err e | Some y \<Rightarrow> Ok y)"

definition map_err :: "'x + 'a \<Rightarrow> ('x \<Rightarrow> 'e) \<Rightarrow> ('e, 'a) outcome" where
  "map_err r f = (case r of Inl x \<Rightarrow> Err (f x) | Inr y \<Rightarrow> Ok y)"

text \<open>\<open>Option::or_else\<close>.\<close>

definition or_else :: "'a option \<Rightarrow> 'a option \<Rightarrow> 'a option" where
  "or_else x y = (case x of None \<Rightarrow> y | Some z \<Rightarrow> Some z)"

lemma or_else_simps [simp]: "or_else None y = y" "or_else (Some z) y = Some z" "or_else x None = x"
  by (simp_all add: or_else_def split: option.split)

lemma or_else_None_iff [simp]: "or_else x y = None \<longleftrightarrow> x = None \<and> y = None"
  by (cases x) simp_all

text \<open>An early \<open>return Err(e)\<close> under a condition.\<close>

definition fail_if :: "bool \<Rightarrow> 'e \<Rightarrow> ('e, unit) outcome" where
  "fail_if b e = (if b then Err e else Ok ())"

lemma and_then_Ok_iff [simp]:
  "and_then r k = Ok y \<longleftrightarrow> (\<exists>x. r = Ok x \<and> k x = Ok y)"
  by (cases r) auto

lemma and_then_Panic_iff [simp]:
  "and_then r k = Panic \<longleftrightarrow> r = Panic \<or> (\<exists>x. r = Ok x \<and> k x = Panic)"
  by (cases r) auto

lemma ok_or_Ok_iff [simp]: "ok_or x e = Ok y \<longleftrightarrow> x = Some y"
  by (cases x) (auto simp: ok_or_def)

lemma ok_or_no_panic [simp]: "ok_or x e \<noteq> Panic"
  by (cases x) (auto simp: ok_or_def)

lemma map_err_Ok_iff [simp]: "map_err r f = Ok y \<longleftrightarrow> r = Inr y"
  by (cases r) (auto simp: map_err_def)

lemma map_err_no_panic [simp]: "map_err r f \<noteq> Panic"
  by (cases r) (auto simp: map_err_def)

lemma fail_if_Ok_iff [simp]: "fail_if b e = Ok u \<longleftrightarrow> \<not> b"
  by (auto simp: fail_if_def)

lemma fail_if_no_panic [simp]: "fail_if b e \<noteq> Panic"
  by (auto simp: fail_if_def)

section \<open>Iterator adaptors\<close>

text \<open>
  \<open>Iterator::max_by_key\<close> keeps the later of two elements with equal keys,
  \<open>Iterator::min_by_key\<close> the earlier one.
\<close>

fun max_by_key :: "('a \<Rightarrow> nat) \<Rightarrow> 'a list \<Rightarrow> 'a option" where
  "max_by_key f [] = None"
| "max_by_key f (x # xs) = Some (foldl (\<lambda>m y. if f m \<le> f y then y else m) x xs)"

fun min_by_key :: "('a \<Rightarrow> nat) \<Rightarrow> 'a list \<Rightarrow> 'a option" where
  "min_by_key f [] = None"
| "min_by_key f (x # xs) = Some (foldl (\<lambda>m y. if f y < f m then y else m) x xs)"

lemma foldl_max_key_mem:
  "foldl (\<lambda>m y. if f m \<le> f y then y else m) x xs \<in> insert x (set xs)" for f :: "'a \<Rightarrow> nat"
proof (induction xs arbitrary: x)
  case Nil
  then show ?case by simp
next
  case (Cons a xs)
  from Cons [of a] Cons [of x] show ?case by auto
qed

lemma foldl_max_key_ge:
  "y \<in> insert x (set xs) \<Longrightarrow> f y \<le> f (foldl (\<lambda>m y. if f m \<le> f y then y else m) x xs)"
  for f :: "'a \<Rightarrow> nat"
proof (induction xs arbitrary: x y)
  case Nil
  then show ?case by simp
next
  case (Cons a xs)
  show ?case
  proof (cases "y \<in> set xs")
    case True
    then show ?thesis using Cons.IH [of y] by simp
  next
    case False
    with Cons.prems have "y = x \<or> y = a" by auto
    then have "f y \<le> f (if f x \<le> f a then a else x)" by auto
    also have "\<dots> \<le> f (foldl (\<lambda>m y. if f m \<le> f y then y else m) (if f x \<le> f a then a else x) xs)"
      by (rule Cons.IH) simp
    finally show ?thesis by simp
  qed
qed

lemma foldl_min_key_mem:
  "foldl (\<lambda>m y. if f y < f m then y else m) x xs \<in> insert x (set xs)" for f :: "'a \<Rightarrow> nat"
proof (induction xs arbitrary: x)
  case Nil
  then show ?case by simp
next
  case (Cons a xs)
  from Cons [of a] Cons [of x] show ?case by auto
qed

lemma foldl_min_key_le:
  "y \<in> insert x (set xs) \<Longrightarrow> f (foldl (\<lambda>m y. if f y < f m then y else m) x xs) \<le> f y"
  for f :: "'a \<Rightarrow> nat"
proof (induction xs arbitrary: x y)
  case Nil
  then show ?case by simp
next
  case (Cons a xs)
  show ?case
  proof (cases "y \<in> set xs")
    case True
    then show ?thesis using Cons.IH [of y] by simp
  next
    case False
    with Cons.prems have *: "y = x \<or> y = a" by auto
    have "f (foldl (\<lambda>m y. if f y < f m then y else m) (if f a < f x then a else x) xs)
        \<le> f (if f a < f x then a else x)"
      by (rule Cons.IH) simp
    also have "\<dots> \<le> f y" using * by auto
    finally show ?thesis by simp
  qed
qed

lemma max_by_key_None_iff [simp]: "max_by_key f xs = None \<longleftrightarrow> xs = []"
  by (cases xs) auto

lemma min_by_key_None_iff [simp]: "min_by_key f xs = None \<longleftrightarrow> xs = []"
  by (cases xs) auto

lemma max_by_key_SomeD:
  assumes "max_by_key f xs = Some m"
  shows "m \<in> set xs" and "x \<in> set xs \<Longrightarrow> f x \<le> f m"
  using assms foldl_max_key_mem [of f] foldl_max_key_ge [of x _ _ f] by (cases xs; auto)+

text \<open>Of several elements with the greatest key it is the last.\<close>

lemma foldl_max_key_last:
  fixes f :: "'a \<Rightarrow> nat"
  defines "pick \<equiv> foldl (\<lambda>m y. if f m \<le> f y then y else m)"
  shows "last (filter (\<lambda>y. f y = f (pick x xs)) (x # xs)) = pick x xs"
proof (induction xs rule: rev_induct)
  case Nil
  then show ?case by (simp add: pick_def)
next
  case (snoc y ys)
  have step: "pick x (ys @ [y]) = (if f (pick x ys) \<le> f y then y else pick x ys)"
    by (simp add: pick_def)
  have split: "filter P (x # ys @ [y]) = filter P (x # ys) @ (if P y then [y] else [])" for P
    by simp
  show ?case
  proof (cases "f (pick x ys) \<le> f y")
    case True
    then show ?thesis unfolding step split by simp
  next
    case False
    with snoc show ?thesis unfolding step split by (simp del: filter.simps)
  qed
qed

lemma max_by_key_last:
  assumes "max_by_key f xs = Some m"
  shows "m = last (filter (\<lambda>y. f y = f m) xs)"
proof (cases xs)
  case (Cons a as)
  with assms foldl_max_key_last [of f a as] show ?thesis by (simp del: filter.simps)
qed (use assms in simp)

lemma min_by_key_SomeD:
  assumes "min_by_key f xs = Some m"
  shows "m \<in> set xs" and "x \<in> set xs \<Longrightarrow> f m \<le> f x"
  using assms foldl_min_key_mem [of f] foldl_min_key_le [of x _ _ f] by (cases xs; auto)+

text \<open>\<open>Iterator::position\<close>: the index of the first element that satisfies a predicate.\<close>

fun position :: "('a \<Rightarrow> bool) \<Rightarrow> 'a list \<Rightarrow> nat option" where
  "position p [] = None"
| "position p (x # xs) = (if p x then Some 0 else map_option Suc (position p xs))"

text \<open>The last \<open>n\<close> items of a list.\<close>

definition keep_last :: "nat \<Rightarrow> 'a list \<Rightarrow> 'a list" where
  "keep_last n xs = drop (length xs - n) xs"

lemma length_keep_last [simp]: "length (keep_last n xs) = min n (length xs)"
  by (simp add: keep_last_def)

lemma keep_last_all [simp]: "length xs \<le> n \<Longrightarrow> keep_last n xs = xs"
  by (simp add: keep_last_def)

lemma keep_last_append: "keep_last n (keep_last n xs @ ys) = keep_last n (xs @ ys)"
proof (cases "length xs \<le> n")
  case False
  define k where "k = length xs - n"
  from False have eq: "keep_last n xs @ ys = drop k (xs @ ys)"
    and len: "length (drop k (xs @ ys)) - n + k = length (xs @ ys) - n"
    by (simp_all add: keep_last_def k_def)
  show ?thesis
    unfolding eq by (simp only: keep_last_def drop_drop len)
qed simp

section \<open>Decimal printing\<close>

text \<open>\<open>to_string\<close> of an unsigned integer: decimal digits, no leading zero.\<close>

definition digit :: "nat \<Rightarrow> char" where
  "digit n = char_of (48 + n)"

fun to_decimal :: "nat \<Rightarrow> string" where
  "to_decimal n = (if n < 10 then [digit n] else to_decimal (n div 10) @ [digit (n mod 10)])"

declare to_decimal.simps [simp del]

definition is_digit :: "char \<Rightarrow> bool" where
  "is_digit c \<longleftrightarrow> 48 \<le> (of_char c :: nat) \<and> (of_char c :: nat) \<le> 57"

text \<open>The value of a digit string, as a parser accumulates it.\<close>

definition of_decimal :: "string \<Rightarrow> nat" where
  "of_decimal ds = foldl (\<lambda>n c. 10 * n + (of_char c - 48)) 0 ds"

lemma of_char_digit: "n < 10 \<Longrightarrow> of_char (digit n) = (48 + n :: nat)"
  by (simp add: digit_def)

lemma is_digit_digit [simp]: "n < 10 \<Longrightarrow> is_digit (digit n)"
  by (simp add: is_digit_def of_char_digit)

lemma to_decimal_digits: "c \<in> set (to_decimal n) \<Longrightarrow> is_digit c"
proof (induction n rule: to_decimal.induct)
  case (1 n)
  then show ?case by (cases "n < 10") (auto simp: to_decimal.simps [of n])
qed

lemma to_decimal_not_Nil [simp]: "to_decimal n \<noteq> []"
  by (subst to_decimal.simps) simp

lemma of_decimal_snoc: "of_decimal (ds @ [c]) = 10 * of_decimal ds + (of_char c - 48)"
  by (simp add: of_decimal_def)

lemma of_decimal_to_decimal [simp]: "of_decimal (to_decimal n) = n"
proof (induction n rule: to_decimal.induct)
  case (1 n)
  show ?case
  proof (cases "n < 10")
    case True
    then show ?thesis
      by (simp add: to_decimal.simps [of n] of_decimal_def of_char_digit)
  next
    case False
    then have "of_decimal (to_decimal (n div 10)) = n div 10" by (rule 1)
    with False show ?thesis
      by (simp add: to_decimal.simps [of n] of_decimal_snoc of_char_digit)
  qed
qed

lemma to_decimal_inject [simp]: "to_decimal m = to_decimal n \<longleftrightarrow> m = n"
  by (metis of_decimal_to_decimal)

text \<open>A digit run is delimited by the first character that is not a digit.\<close>

lemma takeWhile_span:
  assumes "\<forall>x \<in> set xs. p x" and "ys = [] \<or> \<not> p (hd ys)"
  shows "takeWhile p (xs @ ys) = xs" and "dropWhile p (xs @ ys) = ys"
  using assms by (induction xs) (cases ys; auto)+

lemma span_append_inject:
  assumes "\<forall>x \<in> set xs. p x" and "\<forall>x \<in> set xs'. p x"
    and "ys = [] \<or> \<not> p (hd ys)" and "ys' = [] \<or> \<not> p (hd ys')"
    and "xs @ ys = xs' @ ys'"
  shows "xs = xs' \<and> ys = ys'"
proof -
  have "xs = takeWhile p (xs @ ys)" "xs' = takeWhile p (xs' @ ys')"
    using assms(1-4) takeWhile_span by metis+
  with assms(5) show ?thesis by simp
qed

section \<open>The contract of a rank-based choice\<close>

text \<open>
  Two components fold observations with a function that keeps its first argument unless
  the second one ranks strictly higher (\<open>max_severity\<close>, \<open>max_recording_mode\<close>). The
  contract: \<open>pick\<close> is that choice for a rank that separates the values. The client's
  facts (it never ranks below either argument, and folding does not depend on order)
  follow once for both.
\<close>

locale ranked_choice =
  fixes rank :: "'a \<Rightarrow> nat"
    and pick :: "'a \<Rightarrow> 'a \<Rightarrow> 'a"
  assumes pick_eq: "pick a b = (if rank a < rank b then b else a)"
    and rank_inject: "rank a = rank b \<Longrightarrow> a = b"
begin

lemma rank_pick: "rank (pick a b) = max (rank a) (rank b)"
  by (simp add: pick_eq)

lemma pick_upper: "rank a \<le> rank (pick a b)" "rank b \<le> rank (pick a b)"
  by (simp_all add: rank_pick)

lemma pick_cases: "pick a b = a \<or> pick a b = b"
  by (simp add: pick_eq)

lemma pick_idem: "pick a a = a"
  by (simp add: pick_eq)

lemma pick_commute: "pick a b = pick b a"
  by (rule rank_inject) (simp add: rank_pick max.commute)

lemma pick_assoc: "pick (pick a b) c = pick a (pick b c)"
  by (rule rank_inject) (simp add: rank_pick max.assoc)

lemma pick_least: "rank a \<le> rank c \<Longrightarrow> rank b \<le> rank c \<Longrightarrow> rank (pick a b) \<le> rank c"
  by (simp add: rank_pick)

lemma pick_absorb_iff: "pick a b = a \<longleftrightarrow> rank b \<le> rank a"
  using rank_inject by (auto simp: pick_eq)

end

end
