(* ===== verification/Rust_Strings.thy ===== *)
theory Rust_Strings
  imports Prelude "HOL-Library.Char_ord" "HOL-Library.List_Lexorder"
begin

text \<open>
  What the source uses of Rust's \<open>str\<close> and of slice ordering. A string is its UTF-8
  bytes; \<open>chars\<close> decodes them to Unicode scalar values, \<open>encode_utf16\<close> re-encodes
  those as UTF-16 code units. The Unicode tables (which non-ASCII scalars are alphanumeric,
  and their upper-case mappings) are data of the standard library: they are a parameter,
  and the ASCII part is written out. \<open>White_Space\<close> is small and is written out.
\<close>

section \<open>Unicode scalar values and UTF-8\<close>

definition unicode_scalar :: "nat \<Rightarrow> bool" where
  "unicode_scalar c \<longleftrightarrow> c < 0xD800 \<or> (0xE000 \<le> c \<and> c < 0x110000)"

definition utf8_encode1 :: "nat \<Rightarrow> string" where
  "utf8_encode1 c = map char_of
     (if c < 0x80 then [c]
      else if c < 0x800 then [0xC0 + c div 64, 0x80 + c mod 64]
      else if c < 0x10000 then [0xE0 + c div 4096, 0x80 + c div 64 mod 64, 0x80 + c mod 64]
      else [0xF0 + c div 262144, 0x80 + c div 4096 mod 64, 0x80 + c div 64 mod 64, 0x80 + c mod 64])"

definition utf8_encode :: "nat list \<Rightarrow> string" where
  "utf8_encode cs = concat (map utf8_encode1 cs)"

text \<open>The number of bytes the leading byte announces, and the value of such a group.\<close>

definition utf8_width :: "char \<Rightarrow> nat" where
  "utf8_width b = (let n = (of_char b :: nat) in
     if n < 0x80 then 1 else if n < 0xE0 then 2 else if n < 0xF0 then 3 else 4)"

fun utf8_value :: "nat list \<Rightarrow> nat" where
  "utf8_value [b] = b"
| "utf8_value [b, x] = (b - 0xC0) * 64 + (x - 0x80)"
| "utf8_value [b, x, y] = (b - 0xE0) * 4096 + (x - 0x80) * 64 + (y - 0x80)"
| "utf8_value [b, x, y, z] = (b - 0xF0) * 262144 + (x - 0x80) * 4096 + (y - 0x80) * 64 + (z - 0x80)"
| "utf8_value _ = 0xD800"

text \<open>
  Decoding: a group is accepted if it is exactly the encoding of a scalar value, which
  rules out overlong forms, surrogates and stray continuation bytes.
\<close>

definition utf8_group :: "char \<Rightarrow> string \<Rightarrow> string" where
  "utf8_group b bs = b # take (utf8_width b - 1) bs"

definition utf8_group_value :: "string \<Rightarrow> nat" where
  "utf8_group_value g = utf8_value (map of_char g)"

definition utf8_group_ok :: "string \<Rightarrow> bool" where
  "utf8_group_ok g \<longleftrightarrow> unicode_scalar (utf8_group_value g) \<and> utf8_encode1 (utf8_group_value g) = g"

fun utf8_decode :: "string \<Rightarrow> nat list option" where
  "utf8_decode [] = Some []"
| "utf8_decode (b # bs) =
     (if utf8_group_ok (utf8_group b bs)
      then map_option ((#) (utf8_group_value (utf8_group b bs))) (utf8_decode (drop (utf8_width b - 1) bs))
      else None)"

declare utf8_decode.simps(2) [simp del]

definition utf8_valid :: "string \<Rightarrow> bool" where
  "utf8_valid s \<longleftrightarrow> utf8_decode s \<noteq> None"

text \<open>\<open>str::chars\<close>; Rust's type invariant makes the \<open>None\<close> branch unreachable.\<close>

definition chars :: "string \<Rightarrow> nat list" where
  "chars s = (case utf8_decode s of None \<Rightarrow> [] | Some cs \<Rightarrow> cs)"

lemma utf8_encode_simps [simp]:
  "utf8_encode [] = []" "utf8_encode (c # cs) = utf8_encode1 c @ utf8_encode cs"
  by (simp_all add: utf8_encode_def)

lemma utf8_encode_append [simp]: "utf8_encode (xs @ ys) = utf8_encode xs @ utf8_encode ys"
  by (simp add: utf8_encode_def)

lemma utf8_encode1_width:
  assumes "unicode_scalar c"
  obtains b g where "utf8_encode1 c = b # g" "length g = utf8_width b - 1"
proof -
  consider "c < 0x80" | "0x80 \<le> c" "c < 0x800" | "0x800 \<le> c" "c < 0x10000"
    | "0x10000 \<le> c" "c < 0x110000"
    using assms unfolding unicode_scalar_def by linarith
  then show ?thesis
  proof cases
    case 1
    then show ?thesis by (intro that) (auto simp: utf8_encode1_def utf8_width_def)
  next
    case 2
    then have "c div 64 < 32" by simp
    with 2 show ?thesis by (intro that) (auto simp: utf8_encode1_def utf8_width_def)
  next
    case 3
    then have "c div 4096 < 16" by simp
    with 3 show ?thesis by (intro that) (auto simp: utf8_encode1_def utf8_width_def)
  next
    case 4
    then have "c div 262144 < 5" by simp
    with 4 show ?thesis by (intro that) (auto simp: utf8_encode1_def utf8_width_def)
  qed
qed

lemma base64_digits: "c div 64 * 64 + c mod 64 = (c :: nat)"
  by simp

lemma base64_digits3: "c div 4096 * 4096 + c div 64 mod 64 * 64 + c mod 64 = (c :: nat)"
proof -
  have "c div 64 div 64 * 64 + c div 64 mod 64 = c div 64" by (rule base64_digits)
  then have "(c div 64 div 64 * 64 + c div 64 mod 64) * 64 + c mod 64 = c" by simp
  then show ?thesis by (simp add: div_mult2_eq [symmetric] algebra_simps)
qed

lemma base64_digits4:
  "c div 262144 * 262144 + c div 4096 mod 64 * 4096 + c div 64 mod 64 * 64 + c mod 64 = (c :: nat)"
proof -
  have "c div 64 div 4096 * 4096 + c div 64 div 64 mod 64 * 64 + c div 64 mod 64 = c div 64"
    by (rule base64_digits3)
  then have "(c div 64 div 4096 * 4096 + c div 64 div 64 mod 64 * 64 + c div 64 mod 64) * 64 + c mod 64 = c"
    by simp
  then show ?thesis by (simp add: div_mult2_eq [symmetric] algebra_simps)
qed

lemma utf8_value_encode1:
  assumes "unicode_scalar c"
  shows "utf8_value (map of_char (utf8_encode1 c)) = c"
proof -
  consider "c < 0x80" | "0x80 \<le> c" "c < 0x800" | "0x800 \<le> c" "c < 0x10000"
    | "0x10000 \<le> c" "c < 0x110000"
    using assms unfolding unicode_scalar_def by linarith
  then show ?thesis
  proof cases
    case 1
    then show ?thesis by (simp add: utf8_encode1_def)
  next
    case 2
    then have "c div 64 < 32" by simp
    with 2 show ?thesis by (simp add: utf8_encode1_def)
  next
    case 3
    then have "c div 4096 < 16" by simp
    with 3 have "utf8_value (map of_char (utf8_encode1 c)) = c div 4096 * 4096 + c div 64 mod 64 * 64 + c mod 64"
      by (simp add: utf8_encode1_def)
    then show ?thesis by (simp only: base64_digits3)
  next
    case 4
    then have "c div 262144 < 5" by simp
    with 4 have "utf8_value (map of_char (utf8_encode1 c))
        = c div 262144 * 262144 + c div 4096 mod 64 * 4096 + c div 64 mod 64 * 64 + c mod 64"
      by (simp add: utf8_encode1_def)
    then show ?thesis by (simp only: base64_digits4)
  qed
qed

lemma utf8_group_encode1:
  assumes "unicode_scalar c"
  shows "utf8_group_value (utf8_encode1 c) = c" "utf8_group_ok (utf8_encode1 c)"
  using utf8_value_encode1 [OF assms] assms by (simp_all add: utf8_group_value_def utf8_group_ok_def)

lemma utf8_decode_encode1:
  assumes "unicode_scalar c"
  shows "utf8_decode (utf8_encode1 c @ s) = map_option ((#) c) (utf8_decode s)"
proof -
  from assms obtain b g where bg: "utf8_encode1 c = b # g" "length g = utf8_width b - 1"
    by (rule utf8_encode1_width)
  then have "utf8_group b (g @ s) = b # g" "drop (utf8_width b - 1) (g @ s) = s"
    by (simp_all add: utf8_group_def flip: bg(2))
  with utf8_group_encode1 [OF assms] show ?thesis
    by (simp add: utf8_decode.simps(2) bg(1) del: drop_append)
qed

lemma utf8_decode_encode:
  "\<forall>c \<in> set cs. unicode_scalar c \<Longrightarrow> utf8_decode (utf8_encode cs) = Some cs"
  by (induction cs) (simp_all add: utf8_decode_encode1)

lemma utf8_decode_SomeD:
  "utf8_decode s = Some cs \<Longrightarrow> (\<forall>c \<in> set cs. unicode_scalar c) \<and> utf8_encode cs = s"
proof (induction s arbitrary: cs rule: utf8_decode.induct)
  case 1
  then show ?case by simp
next
  case (2 b bs)
  define g where "g = utf8_group b bs"
  from 2(2) obtain ds where ok: "utf8_group_ok g"
    and ds: "utf8_decode (drop (utf8_width b - 1) bs) = Some ds" "cs = utf8_group_value g # ds"
    by (auto simp: utf8_decode.simps(2) g_def split: if_splits)
  then have "(\<forall>c \<in> set ds. unicode_scalar c) \<and> utf8_encode ds = drop (utf8_width b - 1) bs"
    using 2(1) by (simp add: g_def)
  with ok ds(2) show ?case by (auto simp: utf8_group_ok_def g_def utf8_group_def)
qed

theorem utf8_decode_iff:
  "utf8_decode s = Some cs \<longleftrightarrow> (\<forall>c \<in> set cs. unicode_scalar c) \<and> s = utf8_encode cs"
  using utf8_decode_SomeD utf8_decode_encode by blast

lemma utf8_encode_chars: "utf8_valid s \<Longrightarrow> utf8_encode (chars s) = s"
  by (auto simp: utf8_valid_def chars_def dest: utf8_decode_SomeD)

lemma chars_scalar: "c \<in> set (chars s) \<Longrightarrow> unicode_scalar c"
  by (cases "utf8_decode s") (auto simp: chars_def dest: utf8_decode_SomeD)

lemma chars_inject: "utf8_valid s \<Longrightarrow> utf8_valid t \<Longrightarrow> chars s = chars t \<Longrightarrow> s = t"
  by (metis utf8_encode_chars)

text \<open>ASCII strings: one byte per scalar.\<close>

definition ascii :: "string \<Rightarrow> bool" where
  "ascii s \<longleftrightarrow> (\<forall>c \<in> set s. (of_char c :: nat) < 128)"

lemma utf8_encode1_ascii: "c < 128 \<Longrightarrow> utf8_encode1 c = [char_of c]"
  by (simp add: utf8_encode1_def)

lemma utf8_decode_ascii: "ascii s \<Longrightarrow> utf8_decode s = Some (map of_char s)"
proof -
  assume a: "ascii s"
  then have "utf8_encode (map of_char s) = s"
    by (induction s) (auto simp: ascii_def utf8_encode1_ascii)
  moreover have "\<forall>c \<in> set (map of_char s). unicode_scalar c"
    using a by (auto simp: ascii_def unicode_scalar_def)
  ultimately show ?thesis by (metis utf8_decode_encode)
qed

lemma chars_ascii: "ascii s \<Longrightarrow> chars s = map of_char s"
  by (simp add: chars_def utf8_decode_ascii)

lemma utf8_valid_ascii: "ascii s \<Longrightarrow> utf8_valid s"
  by (simp add: utf8_valid_def utf8_decode_ascii)

lemma utf8_valid_append:
  assumes "utf8_valid s" "utf8_valid t"
  shows "utf8_valid (s @ t)"
proof -
  have "utf8_decode (utf8_encode (chars s @ chars t)) = Some (chars s @ chars t)"
    by (rule utf8_decode_encode) (auto dest: chars_scalar)
  then show ?thesis
    using assms by (simp add: utf8_valid_def utf8_encode_chars [unfolded utf8_valid_def])
qed

section \<open>Comparators and stable sorting\<close>

datatype ordering = Less | Equal | Greater

fun reverse_ordering :: "ordering \<Rightarrow> ordering" where
  "reverse_ordering Less = Greater"
| "reverse_ordering Equal = Equal"
| "reverse_ordering Greater = Less"

text \<open>
  \<open>slice::sort_by\<close> is a stable sort. For a comparator that is a total preorder its
  result is determined by that, so insertion sort computes the same list.
\<close>

fun insert_by :: "('a \<Rightarrow> 'a \<Rightarrow> ordering) \<Rightarrow> 'a \<Rightarrow> 'a list \<Rightarrow> 'a list" where
  "insert_by cmp x [] = [x]"
| "insert_by cmp x (y # ys) = (if cmp x y = Greater then y # insert_by cmp x ys else x # y # ys)"

fun sort_by :: "('a \<Rightarrow> 'a \<Rightarrow> ordering) \<Rightarrow> 'a list \<Rightarrow> 'a list" where
  "sort_by cmp [] = []"
| "sort_by cmp (x # xs) = insert_by cmp x (sort_by cmp xs)"

lemma set_insert_by [simp]: "set (insert_by cmp x xs) = insert x (set xs)"
  by (induction xs) auto

lemma set_sort_by [simp]: "set (sort_by cmp xs) = set xs"
  by (induction xs) auto

lemma length_insert_by [simp]: "length (insert_by cmp x xs) = Suc (length xs)"
  by (induction xs) auto

lemma length_sort_by [simp]: "length (sort_by cmp xs) = length xs"
  by (induction xs) auto

lemma distinct_insert_by: "x \<notin> set xs \<Longrightarrow> distinct xs \<Longrightarrow> distinct (insert_by cmp x xs)"
  by (induction xs) auto

lemma distinct_sort_by [simp]: "distinct xs \<Longrightarrow> distinct (sort_by cmp xs)"
  by (induction xs) (auto simp: distinct_insert_by)

text \<open>
  The contract \<open>sort_by\<close> needs from a comparator (a total preorder), and the stronger one
  its callers need on the keys they sort (\<open>Equal\<close> only for equal keys).
\<close>

locale comparator =
  fixes cmp :: "'a \<Rightarrow> 'a \<Rightarrow> ordering"
  assumes cmp_reverse: "cmp b a = reverse_ordering (cmp a b)"
    and cmp_trans: "cmp a b \<noteq> Greater \<Longrightarrow> cmp b c \<noteq> Greater \<Longrightarrow> cmp a c \<noteq> Greater"
begin

definition le :: "'a \<Rightarrow> 'a \<Rightarrow> bool" where
  "le a b \<longleftrightarrow> cmp a b \<noteq> Greater"

lemma le_linear: "le a b \<or> le b a"
  using cmp_reverse [of a b] by (cases "cmp a b") (auto simp: le_def)

lemma le_trans: "le a b \<Longrightarrow> le b c \<Longrightarrow> le a c"
  unfolding le_def by (rule cmp_trans)

lemma sorted_insert_by: "sorted_wrt le xs \<Longrightarrow> sorted_wrt le (insert_by cmp x xs)"
proof (induction xs)
  case Nil
  then show ?case by simp
next
  case (Cons y ys)
  show ?case
  proof (cases "cmp x y = Greater")
    case True
    then have "le y x" using le_linear [of x y] by (auto simp: le_def)
    with Cons True show ?thesis by auto
  next
    case False
    then have "le x y" by (simp add: le_def)
    with Cons.prems False show ?thesis by (auto intro: le_trans)
  qed
qed

lemma sorted_sort_by: "sorted_wrt le (sort_by cmp xs)"
  by (induction xs) (simp_all add: sorted_insert_by)

text \<open>A list that is already in order is left as it is.\<close>

lemma sort_by_sorted: "sorted_wrt le xs \<Longrightarrow> sort_by cmp xs = xs"
proof (induction xs)
  case Nil
  then show ?case by simp
next
  case (Cons x xs)
  then show ?case by (cases xs) (auto simp: le_def)
qed

end

locale key_order = comparator cmp for cmp :: "'a \<Rightarrow> 'a \<Rightarrow> ordering" +
  fixes key :: "'a \<Rightarrow> bool"
  assumes cmp_Equal: "key a \<Longrightarrow> key b \<Longrightarrow> cmp a b = Equal \<Longrightarrow> a = b"
begin

lemma le_antisym: "key a \<Longrightarrow> key b \<Longrightarrow> le a b \<Longrightarrow> le b a \<Longrightarrow> a = b"
  using cmp_reverse [of b a] cmp_Equal [of a b]
  by (cases "cmp a b"; cases "cmp b a") (simp_all add: le_def)

text \<open>In-order listings of the same set of keys are equal.\<close>

lemma sorted_unique:
  assumes "sorted_wrt le xs" "sorted_wrt le ys" "distinct xs" "distinct ys" "set xs = set ys"
    and "\<forall>k \<in> set xs. key k"
  shows "xs = ys"
  using assms
proof (induction xs arbitrary: ys)
  case Nil
  then show ?case by simp
next
  case (Cons x xs)
  then obtain y zs where ys: "ys = y # zs" by (cases ys) auto
  have "x = y"
  proof (rule ccontr)
    assume "x \<noteq> y"
    with Cons.prems ys have "y \<in> set xs" "x \<in> set zs" by auto
    with Cons.prems ys have "le x y" "le y x" "key x" "key y" by auto
    with \<open>x \<noteq> y\<close> show False using le_antisym by blast
  qed
  with Cons.prems ys have "set xs = set zs" by auto
  with Cons ys \<open>x = y\<close> show ?case by simp
qed

text \<open>So the sorted list depends on the set of keys only, not on how they were listed.\<close>

lemma sort_by_cong_set:
  assumes "set xs = set ys" "distinct xs" "distinct ys" "\<forall>k \<in> set xs. key k"
  shows "sort_by cmp xs = sort_by cmp ys"
  by (rule sorted_unique) (use assms in \<open>simp_all add: sorted_sort_by\<close>)

end

section \<open>UTF-16 code units\<close>

text \<open>\<open>str::encode_utf16\<close> and \<open>Ord for [u16]\<close> (lexicographic).\<close>

definition utf16_encode1 :: "nat \<Rightarrow> nat list" where
  "utf16_encode1 c =
     (if c < 0x10000 then [c] else [0xD800 + (c - 0x10000) div 1024, 0xDC00 + (c - 0x10000) mod 1024])"

definition encode_utf16 :: "string \<Rightarrow> nat list" where
  "encode_utf16 s = concat (map utf16_encode1 (chars s))"

fun slice_cmp :: "nat list \<Rightarrow> nat list \<Rightarrow> ordering" where
  "slice_cmp [] [] = Equal"
| "slice_cmp [] (_ # _) = Less"
| "slice_cmp (_ # _) [] = Greater"
| "slice_cmp (x # xs) (y # ys) = (if x < y then Less else if y < x then Greater else slice_cmp xs ys)"

lemma slice_cmp_lex: "slice_cmp xs ys = (if xs < ys then Less else if xs = ys then Equal else Greater)"
  by (induction xs ys rule: slice_cmp.induct) auto

lemma slice_cmp_Equal [simp]: "slice_cmp xs ys = Equal \<longleftrightarrow> xs = ys"
  by (simp add: slice_cmp_lex)

lemma slice_cmp_not_Greater: "slice_cmp xs ys \<noteq> Greater \<longleftrightarrow> xs \<le> ys"
  by (auto simp: slice_cmp_lex)

lemma slice_cmp_reverse: "slice_cmp ys xs = reverse_ordering (slice_cmp xs ys)"
  by (auto simp: slice_cmp_lex)

text \<open>UTF-16 is uniquely decodable on scalar values: a high surrogate announces a pair.\<close>

lemma utf16_inject:
  assumes "\<forall>c \<in> set cs. unicode_scalar c" "\<forall>c \<in> set ds. unicode_scalar c"
    and "concat (map utf16_encode1 cs) = concat (map utf16_encode1 ds)"
  shows "cs = ds"
  using assms
proof (induction cs arbitrary: ds)
  case Nil
  then show ?case by (cases ds) (auto simp: utf16_encode1_def split: if_splits)
next
  case (Cons c cs)
  then obtain d es where ds: "ds = d # es"
    by (cases ds) (auto simp: utf16_encode1_def split: if_splits)
  have sc: "unicode_scalar c" "unicode_scalar d" using Cons.prems ds by auto
  have eq: "utf16_encode1 c @ concat (map utf16_encode1 cs) = utf16_encode1 d @ concat (map utf16_encode1 es)"
    using Cons.prems ds by simp
  have "(c < 0x10000) = (d < 0x10000)"
  proof -
    have "0xD800 \<le> hd (utf16_encode1 x) \<and> hd (utf16_encode1 x) < 0xDC00 \<longleftrightarrow> \<not> x < 0x10000"
      if "unicode_scalar x" for x
    proof -
      have "(x - 0x10000) div 1024 < 1024" using that by (auto simp: unicode_scalar_def)
      with that show ?thesis by (auto simp: utf16_encode1_def unicode_scalar_def)
    qed
    moreover have "hd (utf16_encode1 c) = hd (utf16_encode1 d)"
      using arg_cong [OF eq, of hd] by (auto simp: utf16_encode1_def split: if_splits)
    ultimately show ?thesis using sc by metis
  qed
  then have "utf16_encode1 c = utf16_encode1 d \<and> concat (map utf16_encode1 cs) = concat (map utf16_encode1 es)"
    using eq by (auto simp: utf16_encode1_def split: if_splits)
  moreover have "c = d" if "utf16_encode1 c = utf16_encode1 d"
  proof (cases "c < 0x10000")
    case True
    with that show ?thesis by (auto simp: utf16_encode1_def split: if_splits)
  next
    case False
    with that \<open>(c < 0x10000) = (d < 0x10000)\<close>
    have "(c - 0x10000) div 1024 = (d - 0x10000) div 1024" "(c - 0x10000) mod 1024 = (d - 0x10000) mod 1024"
      by (auto simp: utf16_encode1_def)
    then have "c - 0x10000 = d - 0x10000" by (metis div_mult_mod_eq)
    with False \<open>(c < 0x10000) = (d < 0x10000)\<close> show ?thesis by simp
  qed
  ultimately show ?case using Cons.IH [of es] Cons.prems ds by auto
qed

lemma encode_utf16_inject:
  "utf8_valid s \<Longrightarrow> utf8_valid t \<Longrightarrow> encode_utf16 s = encode_utf16 t \<Longrightarrow> s = t"
  unfolding encode_utf16_def by (rule chars_inject) (auto intro: utf16_inject dest: chars_scalar)

lemma encode_utf16_ascii: "ascii s \<Longrightarrow> encode_utf16 s = map of_char s"
  by (induction s) (auto simp: encode_utf16_def chars_ascii utf16_encode1_def ascii_def)

section \<open>Searching and splitting\<close>

definition starts_with :: "string \<Rightarrow> string \<Rightarrow> bool" where
  "starts_with s p \<longleftrightarrow> take (length p) s = p"

text \<open>\<open>str::contains\<close> with a string pattern; UTF-8 is self-synchronising, so bytes suffice.\<close>

fun str_contains :: "string \<Rightarrow> string \<Rightarrow> bool" where
  "str_contains [] p = (p = [])"
| "str_contains (c # s) p = (starts_with (c # s) p \<or> str_contains s p)"

lemma starts_with_iff: "starts_with s p \<longleftrightarrow> (\<exists>v. s = p @ v)"
  unfolding starts_with_def by (metis append_eq_conv_conj append_take_drop_id)

lemma str_contains_iff: "str_contains s p \<longleftrightarrow> (\<exists>u v. s = u @ p @ v)"
proof (induction s)
  case Nil
  then show ?case by simp
next
  case (Cons c s)
  have "(\<exists>u v. c # s = u @ p @ v) \<longleftrightarrow> (\<exists>v. c # s = p @ v) \<or> (\<exists>u v. s = u @ p @ v)"
    by (metis append_Cons append_Nil list.exhaust list.inject)
  then show ?case using Cons.IH by (simp add: starts_with_iff)
qed

text \<open>\<open>str::split\<close> at every scalar that satisfies a predicate, as lists of scalars.\<close>

fun split_on :: "(nat \<Rightarrow> bool) \<Rightarrow> nat list \<Rightarrow> nat list list" where
  "split_on p [] = [[]]"
| "split_on p (c # cs) =
     (if p c then [] # split_on p cs
      else case split_on p cs of [] \<Rightarrow> [[c]] | w # ws \<Rightarrow> (c # w) # ws)"

lemma split_on_not_Nil [simp]: "split_on p cs \<noteq> []"
  by (cases cs) (auto split: list.splits)

lemma split_on_piece:
  "w \<in> set (split_on p cs) \<Longrightarrow> (\<forall>c \<in> set w. \<not> p c) \<and> (\<exists>u v. cs = u @ w @ v)"
proof (induction cs arbitrary: w)
  case Nil
  then show ?case by simp
next
  case (Cons c cs)
  obtain x xs where ws: "split_on p cs = x # xs" by (cases "split_on p cs") auto
  have hd: "\<exists>v. cs = x @ v"
    using ws by (induction cs arbitrary: x xs) (auto split: if_splits list.splits)
  consider "p c" "w = []" | "w \<in> set (split_on p cs)" | "\<not> p c" "w = c # x"
    using Cons.prems ws by (auto split: if_splits)
  then show ?case
  proof cases
    case 1
    then show ?thesis by (metis append_Nil empty_iff list.set(1))
  next
    case 2
    then obtain u v where "cs = u @ w @ v" "\<forall>c \<in> set w. \<not> p c" using Cons.IH by blast
    then have "c # cs = (c # u) @ w @ v" by simp
    then show ?thesis using \<open>\<forall>c \<in> set w. \<not> p c\<close> by blast
  next
    case 3
    moreover from hd obtain v where "cs = x @ v" by blast
    then have "c # cs = [] @ (c # x) @ v" by simp
    moreover have "\<forall>c \<in> set x. \<not> p c" using Cons.IH [of x] ws by simp
    ultimately show ?thesis by (metis set_ConsD)
  qed
qed

text \<open>Every run without a separator lies inside one piece.\<close>

lemma split_on_run:
  "\<forall>c \<in> set r. \<not> p c \<Longrightarrow> \<exists>w \<in> set (split_on p (u @ r @ v)). \<exists>a b. w = a @ r @ b"
proof (induction u)
  case Nil
  have "\<exists>b ws. split_on p (r @ v) = (r @ b) # ws"
    using Nil
  proof (induction r)
    case Nil
    then show ?case by (cases "split_on p v") auto
  next
    case (Cons c r)
    then show ?case by auto
  qed
  then show ?case by (metis append_Nil list.set_intros(1))
next
  case (Cons c u)
  then obtain w a b where w: "w \<in> set (split_on p (u @ r @ v))" "w = a @ r @ b" by blast
  obtain x xs where ws: "split_on p (u @ r @ v) = x # xs"
    by (cases "split_on p (u @ r @ v)") auto
  show ?case
  proof (cases "p c \<or> w \<noteq> x")
    case True
    then have "w \<in> set (split_on p ((c # u) @ r @ v))" using w(1) ws by auto
    with w(2) show ?thesis by blast
  next
    case False
    then have "c # w \<in> set (split_on p ((c # u) @ r @ v))" using ws by auto
    moreover have "c # w = (c # a) @ r @ b" using w(2) by simp
    ultimately show ?thesis by blast
  qed
qed

section \<open>Case and white space\<close>

text \<open>\<open>eq_ignore_ascii_case\<close> compares bytes after mapping \<open>A\<close>-\<open>Z\<close> to \<open>a\<close>-\<open>z\<close>.\<close>

definition to_ascii_lowercase :: "char \<Rightarrow> char" where
  "to_ascii_lowercase c =
     (let n = (of_char c :: nat) in if 65 \<le> n \<and> n \<le> 90 then char_of (n + 32) else c)"

definition eq_ignore_ascii_case :: "string \<Rightarrow> string \<Rightarrow> bool" where
  "eq_ignore_ascii_case a b \<longleftrightarrow> map to_ascii_lowercase a = map to_ascii_lowercase b"

text \<open>The Unicode tables of the standard library, used above ASCII only.\<close>

record unicode_tables =
  alphanumeric_table :: "nat \<Rightarrow> bool"
  uppercase_table :: "nat \<Rightarrow> nat list"

text \<open>Tables under which no character above ASCII is alphanumeric or has an upper case.\<close>

definition ascii_tables :: unicode_tables where
  "ascii_tables = \<lparr>alphanumeric_table = (\<lambda>c. False), uppercase_table = (\<lambda>c. [c])\<rparr>"

definition is_alphanumeric :: "unicode_tables \<Rightarrow> nat \<Rightarrow> bool" where
  "is_alphanumeric U c =
     (if c < 128 then (48 \<le> c \<and> c \<le> 57) \<or> (65 \<le> c \<and> c \<le> 90) \<or> (97 \<le> c \<and> c \<le> 122)
      else alphanumeric_table U c)"

definition char_to_uppercase :: "unicode_tables \<Rightarrow> nat \<Rightarrow> nat list" where
  "char_to_uppercase U c =
     (if c < 128 then (if 97 \<le> c \<and> c \<le> 122 then [c - 32] else [c]) else uppercase_table U c)"

definition to_uppercase :: "unicode_tables \<Rightarrow> string \<Rightarrow> string" where
  "to_uppercase U s = utf8_encode (concat (map (char_to_uppercase U) (chars s)))"

text \<open>\<open>char::is_whitespace\<close>: the Unicode property \<open>White_Space\<close>.\<close>

definition is_whitespace :: "nat \<Rightarrow> bool" where
  "is_whitespace c \<longleftrightarrow>
     (9 \<le> c \<and> c \<le> 13) \<or> c = 0x20 \<or> c = 0x85 \<or> c = 0xA0 \<or> c = 0x1680 \<or>
     (0x2000 \<le> c \<and> c \<le> 0x200A) \<or> c = 0x2028 \<or> c = 0x2029 \<or> c = 0x202F \<or> c = 0x205F \<or> c = 0x3000"

definition trim :: "string \<Rightarrow> string" where
  "trim s = utf8_encode (rev (dropWhile is_whitespace (rev (dropWhile is_whitespace (chars s)))))"

lemma to_uppercase_ascii:
  "ascii s \<Longrightarrow> to_uppercase U s =
     map (\<lambda>c. if 97 \<le> (of_char c :: nat) \<and> (of_char c :: nat) \<le> 122 then char_of (of_char c - 32 :: nat) else c) s"
proof (induction s)
  case Nil
  then show ?case by (simp add: to_uppercase_def chars_def)
next
  case (Cons c s)
  then have "ascii s" "(of_char c :: nat) < 128" by (auto simp: ascii_def)
  with Cons show ?case
    by (auto simp: to_uppercase_def chars_ascii char_to_uppercase_def utf8_encode1_ascii)
qed

lemma utf8_encode_Nil_iff [simp]: "utf8_encode cs = [] \<longleftrightarrow> cs = []"
  by (cases cs) (auto simp: utf8_encode1_def)

text \<open>A trimmed string is empty exactly if every scalar is white space.\<close>

lemma trim_Nil_iff: "trim s = [] \<longleftrightarrow> (\<forall>c \<in> set (chars s). is_whitespace c)"
proof -
  have "(\<forall>c \<in> set (dropWhile is_whitespace cs). is_whitespace c) \<longleftrightarrow> dropWhile is_whitespace cs = []" for cs
    by (metis empty_iff hd_dropWhile hd_in_set list.set(1))
  then show ?thesis by (simp add: trim_def dropWhile_eq_Nil_conv)
qed

end
