(* ===== verification/Json_Value.thy ===== *)
theory Json_Value
  imports Rust_Strings
begin

text \<open>
  The data model of \<open>serde_json::Value\<close>. Without the feature \<open>preserve_order\<close> (which no
  manifest of the workspace enables) a \<open>Map\<close> is a \<open>BTreeMap<String, Value>\<close>: its entries
  are kept in ascending byte order of the keys, each key once. It is modelled by the list of
  its entries in that order; \<open>map_insert\<close> keeps the order.
\<close>

section \<open>Values\<close>

text \<open>A number is an unsigned, a negative or a floating point one (given by its bits).\<close>

datatype json_number = PosInt u64 | NegInt u64 | Float u64

datatype json =
    JNull
  | JBool bool
  | JNumber json_number
  | JString string
  | JArray "json list"
  | JObject "(string \<times> json) list"

type_synonym json_map = "(string \<times> json) list"

section \<open>Maps\<close>

fun map_insert :: "string \<Rightarrow> 'v \<Rightarrow> (string \<times> 'v) list \<Rightarrow> (string \<times> 'v) list" where
  "map_insert k v [] = [(k, v)]"
| "map_insert k v ((k', v') # m) =
     (if k < k' then (k, v) # (k', v') # m
      else if k = k' then (k, v) # m
      else (k', v') # map_insert k v m)"

text \<open>A map built by inserting entries one after the other; a later entry replaces an earlier one.\<close>

definition map_collect :: "(string \<times> 'v) list \<Rightarrow> (string \<times> 'v) list" where
  "map_collect es = foldl (\<lambda>m (k, v). map_insert k v m) [] es"

definition map_ok :: "(string \<times> 'v) list \<Rightarrow> bool" where
  "map_ok m \<longleftrightarrow> sorted_wrt (<) (map fst m)"

lemma map_of_map_insert [simp]: "map_of (map_insert k v m) = (map_of m)(k \<mapsto> v)"
  by (induction m) (auto simp: fun_eq_iff)

lemma set_map_insert_keys [simp]: "fst ` set (map_insert k v m) = insert k (fst ` set m)"
proof (induction m)
  case Nil
  then show ?case by simp
next
  case (Cons e m)
  then show ?case by (cases e) (simp add: insert_commute)
qed

lemma map_insert_set: "set (map_insert k v m) \<subseteq> insert (k, v) (set m)"
  by (induction m) (auto split: if_splits)

lemma map_ok_Nil [simp]: "map_ok []"
  by (simp add: map_ok_def)

lemma map_ok_Cons: "map_ok ((k, v) # m) \<longleftrightarrow> (\<forall>k' \<in> fst ` set m. k < k') \<and> map_ok m"
  by (auto simp: map_ok_def)

lemma map_ok_insert [simp]: "map_ok m \<Longrightarrow> map_ok (map_insert k v m)"
proof (induction m)
  case Nil
  then show ?case by (simp add: map_ok_Cons)
next
  case (Cons e m)
  obtain a b where e: "e = (a, b)" by (cases e)
  from Cons have "map_ok (map_insert k v m)" "\<forall>k' \<in> fst ` set m. a < k'" "map_ok m"
    by (simp_all add: e map_ok_Cons)
  moreover consider "k < a" | "k = a" | "a < k" by (rule linorder_cases)
  ultimately show ?case by cases (auto simp: e map_ok_Cons dest: less_trans)
qed

lemma map_ok_distinct: "map_ok m \<Longrightarrow> distinct (map fst m)"
  by (simp add: map_ok_def strict_sorted_iff)

lemma foldl_insert_ok: "map_ok m \<Longrightarrow> map_ok (foldl (\<lambda>m (k, v). map_insert k v m) m es)"
  by (induction es arbitrary: m) auto

lemma map_collect_ok [simp]: "map_ok (map_collect es)"
  by (simp add: map_collect_def foldl_insert_ok)

lemma foldl_insert_map_of:
  "map_of (foldl (\<lambda>m (k, v). map_insert k v m) m es) = map_of m ++ map_of (rev es)"
  by (induction es arbitrary: m) (auto simp: map_add_def fun_eq_iff split: option.splits)

lemma map_of_map_collect: "map_of (map_collect es) = map_of (rev es)"
  by (simp add: map_collect_def foldl_insert_map_of)

lemma map_of_rev: "distinct (map fst xs) \<Longrightarrow> map_of (rev xs) = map_of xs"
  by (metis distinct_rev map_of_inject_set rev_map set_rev)

lemma map_of_None: "k \<notin> fst ` set xs \<Longrightarrow> map_of xs k = None"
  by (simp add: map_of_eq_None_iff)

lemma foldl_insert_set: "set (foldl (\<lambda>m (k, v). map_insert k v m) m es) \<subseteq> set m \<union> set es"
proof (induction es arbitrary: m)
  case Nil
  then show ?case by simp
next
  case (Cons e es)
  then show ?case using map_insert_set [of "fst e" "snd e" m] by (fastforce simp: split_beta)
qed

lemma map_collect_set: "set (map_collect es) \<subseteq> set es"
  using foldl_insert_set [of "[]" es] by (simp add: map_collect_def)

text \<open>Two ordered entry lists with the same lookups are the same map.\<close>

lemma map_ok_eqI:
  assumes "map_ok m" "map_ok m'" "map_of m = map_of m'"
  shows "m = m'"
proof -
  have d: "distinct (map fst m)" "distinct (map fst m')"
    using assms by (simp_all add: map_ok_distinct)
  then have "set m = set m'"
    using assms(3) map_of_eqI by (metis map_of_is_SomeI subsetI subset_antisym map_of_SomeD surj_pair)
  moreover have "inj_on fst (set m)"
    using d(1) by (simp add: distinct_map)
  moreover have "sorted (map fst m)" "sorted (map fst m')"
    using assms(1,2) by (simp_all add: map_ok_def strict_sorted_iff)
  ultimately show ?thesis
    using d by (intro map_sorted_distinct_set_unique [where f = fst]) simp_all
qed

lemma map_insert_snoc: "\<forall>k' \<in> fst ` set m. k' < k \<Longrightarrow> map_insert k v m = m @ [(k, v)]"
  by (induction m) auto

lemma map_collect_id: "map_ok m \<Longrightarrow> map_collect m = m"
proof -
  have "map_ok (m' @ m) \<Longrightarrow> foldl (\<lambda>m (k, v). map_insert k v m) m' m = m' @ m" for m' :: "(string \<times> 'v) list" and m
  proof (induction m arbitrary: m')
    case Nil
    then show ?case by simp
  next
    case (Cons e m)
    obtain k v where e: "e = (k, v)" by (cases e)
    from Cons.prems have "\<forall>k' \<in> fst ` set m'. k' < k"
      by (auto simp: map_ok_def sorted_wrt_append e)
    with Cons show ?case by (simp add: e map_insert_snoc)
  qed
  from this [of "[]" m] show "map_ok m \<Longrightarrow> map_collect m = m" by (simp add: map_collect_def)
qed

section \<open>Access\<close>

text \<open>\<open>Value[key]\<close>: \<open>Null\<close> for a missing key and for a value that is not an object.\<close>

fun json_index :: "json \<Rightarrow> string \<Rightarrow> json" where
  "json_index (JObject m) k = (case map_of m k of None \<Rightarrow> JNull | Some v \<Rightarrow> v)"
| "json_index _ k = JNull"

fun as_str :: "json \<Rightarrow> string option" where
  "as_str (JString s) = Some s"
| "as_str _ = None"

fun as_array :: "json \<Rightarrow> json list option" where
  "as_array (JArray vs) = Some vs"
| "as_array _ = None"

fun as_object :: "json \<Rightarrow> json_map option" where
  "as_object (JObject m) = Some m"
| "as_object _ = None"

text \<open>
  \<open>Map[key]\<close>, unlike \<open>Value[key]\<close>, panics when the key is missing.
\<close>

definition map_index :: "json_map \<Rightarrow> string \<Rightarrow> ('e, json) outcome" where
  "map_index m k = (case map_of m k of None \<Rightarrow> Panic | Some v \<Rightarrow> Ok v)"

lemma as_str_Some_iff [simp]: "as_str v = Some s \<longleftrightarrow> v = JString s"
  by (cases v) auto

lemma as_array_Some_iff [simp]: "as_array v = Some vs \<longleftrightarrow> v = JArray vs"
  by (cases v) auto

lemma as_object_Some_iff [simp]: "as_object v = Some m \<longleftrightarrow> v = JObject m"
  by (cases v) auto

lemma map_index_Ok_iff [simp]: "map_index m k = Ok v \<longleftrightarrow> map_of m k = Some v"
  by (auto simp: map_index_def split: option.splits)

lemma map_index_Panic_iff [simp]: "map_index m k = Panic \<longleftrightarrow> map_of m k = None"
  by (auto simp: map_index_def split: option.splits)

section \<open>Well-formed values\<close>

text \<open>
  What every value in memory satisfies: maps are in key order, strings are UTF-8,
  numbers are ones that exist.
  \<open>json_depth\<close> counts nested containers, \<open>json_integral\<close> holds of values without
  floating point numbers.
\<close>

text \<open>
  A \<open>NegInt\<close> holds a negative \<open>i64\<close> and a \<open>Float\<close> a finite \<open>f64\<close> (not all eleven bits of
  the exponent are set); \<open>Number\<close> has no constructor for anything else.
\<close>

definition number_ok :: "json_number \<Rightarrow> bool" where
  "number_ok n \<longleftrightarrow>
     (case n of PosInt _ \<Rightarrow> True | NegInt k \<Rightarrow> sint k < 0 | Float b \<Rightarrow> take_bit 11 (drop_bit 52 b) \<noteq> 0x7FF)"

lemma number_ok_PosInt [simp]: "number_ok (PosInt n)"
  by (simp add: number_ok_def)

fun json_ok :: "json \<Rightarrow> bool" where
  "json_ok (JString s) = utf8_valid s"
| "json_ok (JNumber n) = number_ok n"
| "json_ok (JArray vs) = (\<forall>v \<in> set vs. json_ok v)"
| "json_ok (JObject m) = (map_ok m \<and> (\<forall>(k, v) \<in> set m. utf8_valid k \<and> json_ok v))"
| "json_ok _ = True"

fun json_depth :: "json \<Rightarrow> nat" where
  "json_depth (JArray vs) = Suc (foldr (\<lambda>v. max (json_depth v)) vs 0)"
| "json_depth (JObject m) = Suc (foldr (\<lambda>(k, v). max (json_depth v)) m 0)"
| "json_depth _ = 0"

fun json_integral :: "json \<Rightarrow> bool" where
  "json_integral (JNumber (Float b)) = False"
| "json_integral (JArray vs) = (\<forall>v \<in> set vs. json_integral v)"
| "json_integral (JObject m) = (\<forall>(k, v) \<in> set m. json_integral v)"
| "json_integral _ = True"

lemma foldr_max_le_iff: "foldr (\<lambda>x. max (f x)) xs (0 :: nat) \<le> n \<longleftrightarrow> (\<forall>x \<in> set xs. f x \<le> n)"
  by (induction xs) auto

lemma json_depth_array_le:
  "json_depth (JArray vs) \<le> n \<longleftrightarrow> 0 < n \<and> (\<forall>v \<in> set vs. json_depth v \<le> n - 1)"
  using foldr_max_le_iff [of json_depth vs "n - 1"] by (cases n) auto

lemma json_depth_object_le:
  "json_depth (JObject m) \<le> n \<longleftrightarrow> 0 < n \<and> (\<forall>(k, v) \<in> set m. json_depth v \<le> n - 1)"
  using foldr_max_le_iff [of "\<lambda>(k, v). json_depth v" m "n - 1"]
  by (cases n) (auto simp: split_beta cong: foldr_cong)

end
