(* ===== verification/Recording.thy ===== *)
theory Recording
  imports Prelude
begin

text \<open>
  \<open>crates/aep-core/src/recording.rs\<close>: recording modes, side-effect classes and the policy
  compiler \<open>compile_recording_policy\<close>, with its decision table, its priorities and its
  monotonicity in the risk signals.
\<close>

section \<open>Modes and classes\<close>

datatype recording_mode = Validation | Delta | Full

definition default_recording_mode :: recording_mode where
  "default_recording_mode = Validation"

fun recording_mode_as_str :: "recording_mode \<Rightarrow> string" where
  "recording_mode_as_str Validation = ''validation''"
| "recording_mode_as_str Delta = ''delta''"
| "recording_mode_as_str Full = ''full''"

datatype side_effect_class = Read | MutateLocal | MutateExternal | NetworkEgress | Unknown

fun canonical_str :: "side_effect_class \<Rightarrow> string" where
  "canonical_str Read = ''read''"
| "canonical_str MutateLocal = ''mutate-local''"
| "canonical_str MutateExternal = ''mutate-external''"
| "canonical_str NetworkEgress = ''network-egress''"
| "canonical_str Unknown = ''unknown''"

record risk_context =
  was_vetted :: bool
  has_consent_anomaly :: bool
  taint_chain_length :: u32
  risk_class :: side_effect_class

record recording_policy =
  mode :: recording_mode
  reason :: string

lemma recording_mode_as_str_inject [simp]:
  "recording_mode_as_str a = recording_mode_as_str b \<longleftrightarrow> a = b"
  by (cases a; cases b) simp_all

lemma canonical_str_inject [simp]: "canonical_str a = canonical_str b \<longleftrightarrow> a = b"
  by (cases a; cases b) simp_all

section \<open>The policy compiler\<close>

definition compile_recording_policy :: "risk_context \<Rightarrow> recording_policy" where
  "compile_recording_policy ctx =
     (if was_vetted ctx then \<lparr>mode = Full, reason = ''tool flagged by vetting''\<rparr>
      else if has_consent_anomaly ctx then \<lparr>mode = Full, reason = ''consent anomaly recorded''\<rparr>
      else if 0 < taint_chain_length ctx \<and> risk_class ctx \<noteq> Read
        then \<lparr>mode = Full, reason = ''tainted input reaching state-changing call''\<rparr>
      else if risk_class ctx = Unknown then \<lparr>mode = Full, reason = ''unknown side-effect class''\<rparr>
      else if risk_class ctx = MutateExternal \<or> risk_class ctx = NetworkEgress
        then \<lparr>mode = Full, reason = ''external mutation''\<rparr>
      else if risk_class ctx = MutateLocal then \<lparr>mode = Delta, reason = ''local mutation, low risk''\<rparr>
      else \<lparr>mode = Validation, reason = ''read-only, no anomaly''\<rparr>)"

lemma policy_clean_context:
  "mode (compile_recording_policy
     \<lparr>was_vetted = False, has_consent_anomaly = False, taint_chain_length = 0, risk_class = c\<rparr>) =
   (case c of Read \<Rightarrow> Validation | MutateLocal \<Rightarrow> Delta | _ \<Rightarrow> Full)"
  by (cases c) (simp_all add: compile_recording_policy_def)

lemma policy_mode:
  "mode (compile_recording_policy ctx) =
     (if was_vetted ctx \<or> has_consent_anomaly ctx then Full
      else case risk_class ctx of
             Read \<Rightarrow> Validation
           | MutateLocal \<Rightarrow> (if taint_chain_length ctx = 0 then Delta else Full)
           | _ \<Rightarrow> Full)"
  by (cases "risk_class ctx") (auto simp: compile_recording_policy_def word_gt_0)

text \<open>The order in which the rules fire is visible in the reason that is given.\<close>

lemma compile_recording_policy_reason:
  "reason (compile_recording_policy ctx) =
     (if was_vetted ctx then ''tool flagged by vetting''
      else if has_consent_anomaly ctx then ''consent anomaly recorded''
      else if mode (compile_recording_policy ctx) = Full then
        (if taint_chain_length ctx \<noteq> 0 then ''tainted input reaching state-changing call''
         else if risk_class ctx = Unknown then ''unknown side-effect class''
         else ''external mutation'')
      else if mode (compile_recording_policy ctx) = Delta then ''local mutation, low risk''
      else ''read-only, no anomaly'')"
  by (cases "risk_class ctx") (auto simp: compile_recording_policy_def word_gt_0)

section \<open>Assurance order\<close>

text \<open>\<open>Validation < Delta < Full\<close>, the assurance order of modes.\<close>

fun mode_level :: "recording_mode \<Rightarrow> nat" where
  "mode_level Validation = 0"
| "mode_level Delta = 1"
| "mode_level Full = 2"

lemma mode_level_inject: "mode_level a = mode_level b \<Longrightarrow> a = b"
  by (cases a; cases b) simp_all

instantiation recording_mode :: linorder
begin

definition less_eq_recording_mode :: "recording_mode \<Rightarrow> recording_mode \<Rightarrow> bool" where
  "a \<le> b \<longleftrightarrow> mode_level a \<le> mode_level b"

definition less_recording_mode :: "recording_mode \<Rightarrow> recording_mode \<Rightarrow> bool" where
  "a < b \<longleftrightarrow> mode_level a < mode_level b"

instance
  by standard (auto simp: less_eq_recording_mode_def less_recording_mode_def dest: mode_level_inject)

end

lemma mode_le_Full [simp]: "m \<le> Full"
  by (cases m) (simp_all add: less_eq_recording_mode_def)

lemma Validation_le [simp]: "Validation \<le> m"
  by (simp add: less_eq_recording_mode_def)

lemma Delta_le_iff [simp]: "Delta \<le> m \<longleftrightarrow> m \<noteq> Validation"
  by (cases m) (simp_all add: less_eq_recording_mode_def)

lemma Full_le_iff [simp]: "Full \<le> m \<longleftrightarrow> m = Full"
  by (cases m) (simp_all add: less_eq_recording_mode_def)

text \<open>How much riskier one context is than another: signals set, taint longer, class no milder
  in the order \<open>read\<close>, \<open>mutate-local\<close>, everything else.\<close>

fun class_mode :: "side_effect_class \<Rightarrow> recording_mode" where
  "class_mode Read = Validation"
| "class_mode MutateLocal = Delta"
| "class_mode _ = Full"

definition riskier :: "risk_context \<Rightarrow> risk_context \<Rightarrow> bool" where
  "riskier a b \<longleftrightarrow>
     (was_vetted a \<longrightarrow> was_vetted b) \<and> (has_consent_anomaly a \<longrightarrow> has_consent_anomaly b) \<and>
     taint_chain_length a \<le> taint_chain_length b \<and> class_mode (risk_class a) \<le> class_mode (risk_class b)"

lemma compile_recording_policy_mono:
  assumes "riskier a b"
  shows "mode (compile_recording_policy a) \<le> mode (compile_recording_policy b)"
proof (cases "risk_class a")
  case Read
  with assms show ?thesis by (auto simp: policy_mode riskier_def)
next
  case MutateLocal
  with assms show ?thesis by (cases "risk_class b") (auto simp: policy_mode riskier_def)
qed (use assms in \<open>cases "risk_class b"; auto simp: policy_mode riskier_def\<close>)+

section \<open>Properties\<close>

text \<open>C33: the policy compiler's verdict for every context: \<open>Validation\<close> exactly for an
  unflagged read (however long its taint chain), \<open>Delta\<close> exactly for an unflagged and untainted
  local mutation, and \<open>Full\<close> exactly when vetting or a consent anomaly flags the call, when it
  is external, egress or unknown, or when taint reaches a local mutation.\<close>

theorem compile_recording_policy_verdicts:
  "(mode (compile_recording_policy ctx) = Validation \<longleftrightarrow>
      \<not> was_vetted ctx \<and> \<not> has_consent_anomaly ctx \<and> risk_class ctx = Read) \<and>
   (mode (compile_recording_policy ctx) = Delta \<longleftrightarrow>
      \<not> was_vetted ctx \<and> \<not> has_consent_anomaly ctx \<and>
      risk_class ctx = MutateLocal \<and> taint_chain_length ctx = 0) \<and>
   (mode (compile_recording_policy ctx) = Full \<longleftrightarrow>
      was_vetted ctx \<or> has_consent_anomaly ctx \<or>
      risk_class ctx \<in> {MutateExternal, NetworkEgress, Unknown} \<or>
      (risk_class ctx = MutateLocal \<and> taint_chain_length ctx \<noteq> 0))"
  by (cases "risk_class ctx") (simp_all add: policy_mode)

text \<open>Raising any risk signal (a flag set, a longer taint chain, a class of a higher
  mode) never lowers the recording mode.\<close>

lemma compile_recording_policy_never_lowered:
  assumes "riskier a b"
  shows "mode (compile_recording_policy a) \<le> mode (compile_recording_policy b)"
  using assms by (rule compile_recording_policy_mono)

theorem compile_recording_policy_never_lowered_witness:
  "mode (compile_recording_policy
      \<lparr>was_vetted = False, has_consent_anomaly = False, taint_chain_length = 0, risk_class = MutateLocal\<rparr>)
    \<le> mode (compile_recording_policy
      \<lparr>was_vetted = False, has_consent_anomaly = False, taint_chain_length = 3, risk_class = MutateLocal\<rparr>)"
  by (rule compile_recording_policy_never_lowered) (simp add: riskier_def)

end
