(* ===== verification/Evidence.thy ===== *)
theory Evidence
  imports Json_Value Recording
begin

text \<open>
  \<open>crates/aep-core/src/evidence.rs\<close>: the evidence records, their serde wire form
  (\<open>serde_json::to_value\<close>, as the field attributes prescribe it). Fields that would clash with a name of another record carry a prefix
  (\<open>act_\<close> for \<open>ActionEvidence\<close>, \<open>rec_\<close> for \<open>AepRecord\<close>, \<open>cap_\<close> for \<open>CapabilityDecision\<close>).
\<close>

section \<open>Data\<close>

definition AEP_SCHEMA_VERSION :: string where
  "AEP_SCHEMA_VERSION = ''aep/v0.5''"

datatype mcp_header_risk = CredentialLeak | HighEntropyValue | PiiLeak

fun mcp_header_risk_as_str :: "mcp_header_risk \<Rightarrow> string" where
  "mcp_header_risk_as_str CredentialLeak = ''credential_leak''"
| "mcp_header_risk_as_str HighEntropyValue = ''high_entropy_value''"
| "mcp_header_risk_as_str PiiLeak = ''pii_leak''"

record capability_decision =
  capability :: string
  subject :: string
  resource :: string
  decision :: string
  reason_code :: "string option"
  deny_reason_class :: "string option"
  cap_extra :: json_map

record action_evidence =
  action_id :: string
  tool_name :: string
  state_changing :: bool
  precondition_digest :: "string option"
  result_digest :: "string option"
  timestamp_ms :: u64
  parent_action_id :: "string option"
  causal_chain_id :: "string option"
  act_recording_mode :: recording_mode
  act_capability_decision :: "capability_decision option"
  act_mcp_header_risk :: "string option"
  act_side_effect_class :: "string option"
  act_extra :: json_map

record aep_signature =
  alg :: string
  key_id :: string
  sig :: string

record dsse_signature =
  keyid :: string
  dsse_sig :: string

record dsse_envelope =
  payload_type :: string
  payload :: string
  signatures :: "dsse_signature list"

record aep_record =
  schema_version :: string
  run_id :: string
  trace_id :: "string option"
  session_id :: "string option"
  dsse_envelope :: "dsse_envelope option"
  user_id :: "string option"
  authorized_by :: "string option"
  authority_origin :: "string option"
  identity_source :: "string option"
  attribution_backing :: "string option"
  run_attribution_backing_floor :: "string option"
  run_attribution_backing_observed :: "string list option"
  authorization_evidence_count :: "u64 option"
  rec_side_effect_class_max :: "string option"
  rec_recording_mode :: "string option"
  actions :: "action_evidence list"
  created_at_ms :: u64
  signature :: "aep_signature option"
  extra :: json_map

text \<open>\<open>AepRecord::default()\<close>, the base of the struct update syntax.\<close>

definition default_aep_record :: aep_record where
  "default_aep_record =
     \<lparr>schema_version = [], run_id = [], trace_id = None, session_id = None, dsse_envelope = None,
      user_id = None, authorized_by = None, authority_origin = None, identity_source = None,
      attribution_backing = None, run_attribution_backing_floor = None,
      run_attribution_backing_observed = None, authorization_evidence_count = None,
      rec_side_effect_class_max = None, rec_recording_mode = None, actions = [], created_at_ms = 0,
      signature = None, extra = []\<rparr>"

section \<open>Serialization\<close>

text \<open>
  The derived \<open>Serialize\<close> writes the fields in declaration order, skips an \<open>Option\<close> that is
  \<open>None\<close> where the field says so, and writes the entries of the flattened \<open>extra\<close> map in
  place. \<open>to_value\<close> inserts what is written into a map one entry after the other.
\<close>

definition opt_field :: "string \<Rightarrow> ('a \<Rightarrow> json) \<Rightarrow> 'a option \<Rightarrow> (string \<times> json) list" where
  "opt_field k f x = (case x of None \<Rightarrow> [] | Some y \<Rightarrow> [(k, f y)])"

definition json_u64 :: "u64 \<Rightarrow> json" where
  "json_u64 n = JNumber (PosInt n)"

definition json_strings :: "string list \<Rightarrow> json" where
  "json_strings ss = JArray (map JString ss)"

definition capability_decision_declared :: "capability_decision \<Rightarrow> (string \<times> json) list" where
  "capability_decision_declared c =
     [(''capability'', JString (capability c)),
      (''subject'', JString (subject c)),
      (''resource'', JString (resource c)),
      (''decision'', JString (decision c))] @
     opt_field ''reason_code'' JString (reason_code c) @
     opt_field ''deny_reason_class'' JString (deny_reason_class c)"

definition capability_decision_to_value :: "capability_decision \<Rightarrow> json" where
  "capability_decision_to_value c = JObject (map_collect (capability_decision_declared c @ cap_extra c))"

text \<open>The entries of the declared fields, given how the nested structs are written.\<close>

definition action_evidence_fields ::
  "(capability_decision \<Rightarrow> json) \<Rightarrow> action_evidence \<Rightarrow> (string \<times> json) list" where
  "action_evidence_fields decision_json a =
     [(''action_id'', JString (action_id a)),
      (''tool_name'', JString (tool_name a)),
      (''state_changing'', JBool (state_changing a))] @
     opt_field ''precondition_digest'' JString (precondition_digest a) @
     opt_field ''result_digest'' JString (result_digest a) @
     [(''timestamp_ms'', json_u64 (timestamp_ms a))] @
     opt_field ''parent_action_id'' JString (parent_action_id a) @
     opt_field ''causal_chain_id'' JString (causal_chain_id a) @
     [(''recording_mode'', JString (recording_mode_as_str (act_recording_mode a)))] @
     opt_field ''capability_decision'' decision_json (act_capability_decision a) @
     opt_field ''mcp_header_risk'' JString (act_mcp_header_risk a) @
     opt_field ''side_effect_class'' JString (act_side_effect_class a)"

definition action_evidence_declared :: "action_evidence \<Rightarrow> (string \<times> json) list" where
  "action_evidence_declared = action_evidence_fields capability_decision_to_value"

definition action_evidence_to_value :: "action_evidence \<Rightarrow> json" where
  "action_evidence_to_value a = JObject (map_collect (action_evidence_declared a @ act_extra a))"

definition aep_signature_fields :: "aep_signature \<Rightarrow> (string \<times> json) list" where
  "aep_signature_fields s =
     [(''alg'', JString (alg s)), (''key_id'', JString (key_id s)), (''sig'', JString (sig s))]"

definition aep_signature_to_value :: "aep_signature \<Rightarrow> json" where
  "aep_signature_to_value s = JObject (map_collect (aep_signature_fields s))"

definition dsse_signature_fields :: "dsse_signature \<Rightarrow> (string \<times> json) list" where
  "dsse_signature_fields s = [(''keyid'', JString (keyid s)), (''sig'', JString (dsse_sig s))]"

definition dsse_signature_to_value :: "dsse_signature \<Rightarrow> json" where
  "dsse_signature_to_value s = JObject (map_collect (dsse_signature_fields s))"

text \<open>\<open>rename_all = "camelCase"\<close> turns \<open>payload_type\<close> into \<open>payloadType\<close>.\<close>

definition dsse_envelope_fields :: "(dsse_signature \<Rightarrow> json) \<Rightarrow> dsse_envelope \<Rightarrow> (string \<times> json) list" where
  "dsse_envelope_fields sig_json e =
     [(''payloadType'', JString (payload_type e)),
      (''payload'', JString (payload e)),
      (''signatures'', JArray (map sig_json (signatures e)))]"

definition dsse_envelope_to_value :: "dsse_envelope \<Rightarrow> json" where
  "dsse_envelope_to_value e = JObject (map_collect (dsse_envelope_fields dsse_signature_to_value e))"

definition aep_record_fields ::
  "(dsse_envelope \<Rightarrow> json) \<Rightarrow> (action_evidence \<Rightarrow> json) \<Rightarrow> (aep_signature \<Rightarrow> json) \<Rightarrow>
     aep_record \<Rightarrow> (string \<times> json) list" where
  "aep_record_fields envelope_json action_json sig_json r =
     [(''schema_version'', JString (schema_version r)),
      (''run_id'', JString (run_id r))] @
     opt_field ''trace_id'' JString (trace_id r) @
     opt_field ''session_id'' JString (session_id r) @
     opt_field ''dsse_envelope'' envelope_json (dsse_envelope r) @
     opt_field ''user_id'' JString (user_id r) @
     opt_field ''authorized_by'' JString (authorized_by r) @
     opt_field ''authority_origin'' JString (authority_origin r) @
     opt_field ''identity_source'' JString (identity_source r) @
     opt_field ''attribution_backing'' JString (attribution_backing r) @
     opt_field ''run_attribution_backing_floor'' JString (run_attribution_backing_floor r) @
     opt_field ''run_attribution_backing_observed'' json_strings (run_attribution_backing_observed r) @
     opt_field ''authorization_evidence_count'' json_u64 (authorization_evidence_count r) @
     opt_field ''run_side_effect_class_max'' JString (rec_side_effect_class_max r) @
     opt_field ''recording_mode'' JString (rec_recording_mode r) @
     [(''actions'', JArray (map action_json (actions r))),
      (''created_at_ms'', json_u64 (created_at_ms r))] @
     opt_field ''signature'' sig_json (signature r)"

definition aep_record_declared :: "aep_record \<Rightarrow> (string \<times> json) list" where
  "aep_record_declared = aep_record_fields dsse_envelope_to_value action_evidence_to_value aep_signature_to_value"

definition aep_record_to_value :: "aep_record \<Rightarrow> json" where
  "aep_record_to_value r = JObject (map_collect (aep_record_declared r @ extra r))"

text \<open>
  \<open>to_string\<close> prints the same entries in the order they are written, not in the order of a map.
  The value below has its members in that order, and a member twice if the catch-all map repeats a
  declared name.
\<close>

definition capability_decision_written :: "capability_decision \<Rightarrow> json" where
  "capability_decision_written c = JObject (capability_decision_declared c @ cap_extra c)"

definition action_evidence_written :: "action_evidence \<Rightarrow> json" where
  "action_evidence_written a = JObject (action_evidence_fields capability_decision_written a @ act_extra a)"

definition aep_signature_written :: "aep_signature \<Rightarrow> json" where
  "aep_signature_written s = JObject (aep_signature_fields s)"

definition dsse_signature_written :: "dsse_signature \<Rightarrow> json" where
  "dsse_signature_written s = JObject (dsse_signature_fields s)"

definition dsse_envelope_written :: "dsse_envelope \<Rightarrow> json" where
  "dsse_envelope_written e = JObject (dsse_envelope_fields dsse_signature_written e)"

definition aep_record_written :: "aep_record \<Rightarrow> json" where
  "aep_record_written r = JObject
     (aep_record_fields dsse_envelope_written action_evidence_written aep_signature_written r @ extra r)"

end
