(* ===== verification/Wire_Form.thy ===== *)
theory Wire_Form
  imports Evidence
begin

text \<open>
  Facts about the wire form of \<open>crates/aep-core/src/evidence.rs\<close>: it determines every field of
  a record whose catch-all maps do not shadow declared names, it is a well-formed JSON value,
  and how deep and how integral it is follows from the catch-all maps alone.
\<close>

section \<open>The wire form determines the record\<close>

lemma opt_field_None [simp]: "opt_field k f None = []"
  and opt_field_Some [simp]: "opt_field k f (Some x) = [(k, f x)]"
  by (simp_all add: opt_field_def)

lemma map_of_opt_field:
  "map_of (opt_field k f x) k' = (if k' = k then map_option f x else None)"
  by (cases x) auto

lemma map_of_opt_field_append:
  "map_of (opt_field k f x @ es) k' =
     (if k' = k then or_else (map_option f x) (map_of es k') else map_of es k')"
  by (cases x) auto

lemmas field_lookup = map_of_opt_field map_of_opt_field_append

lemma key_in_opt_field [simp]: "k' \<in> fst ` set (opt_field k f x) \<longleftrightarrow> k' = k \<and> x \<noteq> None"
  by (cases x) auto

lemma keys_opt_field_subset [simp]: "fst ` set (opt_field k f x) \<subseteq> N \<longleftrightarrow> x = None \<or> k \<in> N"
  by (cases x) auto

lemma distinct_opt_field [simp]: "distinct (map fst (opt_field k f x))"
  by (cases x) auto

lemma opt_field_disjoint [simp]:
  "fst ` set (opt_field k f x) \<inter> A = {} \<longleftrightarrow> x = None \<or> k \<notin> A"
  by (cases x) auto

text \<open>
  What flattening keeps apart: declared entries whose keys are among the declared names, and
  extra entries whose keys are not.
\<close>

lemma flatten_inject:
  assumes eq: "map_collect (d1 @ e1) = map_collect (d2 @ e2)"
    and d: "distinct (map fst d1)" "distinct (map fst d2)" "fst ` set d1 \<subseteq> N" "fst ` set d2 \<subseteq> N"
    and e: "map_ok e1" "map_ok e2" "fst ` set e1 \<inter> N = {}" "fst ` set e2 \<inter> N = {}"
  shows "map_of d1 = map_of d2" and "e1 = e2"
proof -
  have all: "map_of (rev (d1 @ e1)) k = map_of (rev (d2 @ e2)) k" for k
    using arg_cong [OF eq, of map_of] by (simp add: map_of_map_collect fun_eq_iff)
  note revs = map_of_rev [OF d(1)] map_of_rev [OF d(2)]
    map_of_rev [OF map_ok_distinct [OF e(1)]] map_of_rev [OF map_ok_distinct [OF e(2)]]
  show "map_of d1 = map_of d2"
  proof
    fix k
    show "map_of d1 k = map_of d2 k"
    proof (cases "k \<in> N")
      case True
      with e(3,4) have "map_of e1 k = None" "map_of e2 k = None"
        by (auto intro!: map_of_None)
      with all [of k] show ?thesis by (simp add: revs map_add_def)
    next
      case False
      with d(3,4) have "map_of d1 k = None" "map_of d2 k = None"
        by (auto intro!: map_of_None)
      then show ?thesis by simp
    qed
  qed
  have "map_of e1 = map_of e2"
  proof
    fix k
    show "map_of e1 k = map_of e2 k"
    proof (cases "k \<in> N")
      case True
      with e(3,4) have "map_of e1 k = None" "map_of e2 k = None"
        by (auto intro!: map_of_None)
      then show ?thesis by simp
    next
      case False
      with d(3,4) have "map_of d1 k = None" "map_of d2 k = None"
        by (auto intro!: map_of_None)
      with all [of k] show ?thesis by (simp add: revs map_add_def split: option.splits)
    qed
  qed
  with e show "e1 = e2" by (intro map_ok_eqI)
qed

definition capability_decision_names :: "string set" where
  "capability_decision_names =
     {''capability'', ''subject'', ''resource'', ''decision'', ''reason_code'', ''deny_reason_class''}"

definition action_evidence_names :: "string set" where
  "action_evidence_names =
     {''action_id'', ''tool_name'', ''state_changing'', ''precondition_digest'', ''result_digest'',
      ''timestamp_ms'', ''parent_action_id'', ''causal_chain_id'', ''recording_mode'',
      ''capability_decision'', ''mcp_header_risk'', ''side_effect_class''}"

definition aep_record_names :: "string set" where
  "aep_record_names =
     {''schema_version'', ''run_id'', ''trace_id'', ''session_id'', ''dsse_envelope'', ''user_id'',
      ''authorized_by'', ''authority_origin'', ''identity_source'', ''attribution_backing'',
      ''run_attribution_backing_floor'', ''run_attribution_backing_observed'',
      ''authorization_evidence_count'', ''run_side_effect_class_max'', ''recording_mode'',
      ''actions'', ''created_at_ms'', ''signature''}"

text \<open>
  The shape a deserialized record has: what a struct declares is never in its catch-all map.
\<close>

definition capability_flat :: "capability_decision \<Rightarrow> bool" where
  "capability_flat c \<longleftrightarrow> map_ok (cap_extra c) \<and> fst ` set (cap_extra c) \<inter> capability_decision_names = {}"

definition action_flat :: "action_evidence \<Rightarrow> bool" where
  "action_flat a \<longleftrightarrow> map_ok (act_extra a) \<and> fst ` set (act_extra a) \<inter> action_evidence_names = {} \<and>
     (case act_capability_decision a of None \<Rightarrow> True | Some c \<Rightarrow> capability_flat c)"

definition record_flat :: "aep_record \<Rightarrow> bool" where
  "record_flat r \<longleftrightarrow> map_ok (extra r) \<and> fst ` set (extra r) \<inter> aep_record_names = {} \<and>
     (\<forall>a \<in> set (actions r). action_flat a)"

lemma inj_JString: "map_option JString x = map_option JString y \<longleftrightarrow> x = y"
  by (rule option.inj_map [THEN inj_eq]) (simp add: inj_def)

lemma inj_json_u64: "map_option json_u64 x = map_option json_u64 y \<longleftrightarrow> x = y"
  by (rule option.inj_map [THEN inj_eq]) (simp add: inj_def json_u64_def)

lemma inj_json_strings: "map_option json_strings x = map_option json_strings y \<longleftrightarrow> x = y"
  by (rule option.inj_map [THEN inj_eq]) (auto simp: inj_def json_strings_def inj_map_eq_map)

lemmas wire_injects = inj_JString inj_json_u64 inj_json_strings

lemma capability_declared_ok:
  "distinct (map fst (capability_decision_declared c))"
  "fst ` set (capability_decision_declared c) \<subseteq> capability_decision_names"
  by (simp_all add: capability_decision_declared_def capability_decision_names_def image_Un)

lemma capability_to_value_inject:
  assumes "capability_flat c" "capability_flat c'"
    and "capability_decision_to_value c = capability_decision_to_value c'"
  shows "c = c'"
proof -
  have "map_collect (capability_decision_declared c @ cap_extra c)
      = map_collect (capability_decision_declared c' @ cap_extra c')"
    using assms(3) by (simp add: capability_decision_to_value_def)
  from flatten_inject [OF this capability_declared_ok(1) capability_declared_ok(1)
      capability_declared_ok(2) capability_declared_ok(2)] assms(1,2)
  have m: "map_of (capability_decision_declared c) = map_of (capability_decision_declared c')"
    and "cap_extra c = cap_extra c'"
    by (simp_all add: capability_flat_def)
  moreover have "capability c = capability c'" "subject c = subject c'" "resource c = resource c'"
    "decision c = decision c'" "reason_code c = reason_code c'" "deny_reason_class c = deny_reason_class c'"
    using fun_cong [OF m, of "''capability''"] fun_cong [OF m, of "''subject''"]
      fun_cong [OF m, of "''resource''"] fun_cong [OF m, of "''decision''"]
      fun_cong [OF m, of "''reason_code''"] fun_cong [OF m, of "''deny_reason_class''"]
    by (simp_all add: capability_decision_declared_def field_lookup wire_injects del: map_of_append)
  ultimately show ?thesis by (intro capability_decision.equality) simp_all
qed

lemma action_declared_ok:
  "distinct (map fst (action_evidence_declared a))"
  "fst ` set (action_evidence_declared a) \<subseteq> action_evidence_names"
  by (simp_all add: action_evidence_declared_def action_evidence_fields_def action_evidence_names_def image_Un)

lemma record_declared_ok:
  "distinct (map fst (aep_record_declared r))"
  "fst ` set (aep_record_declared r) \<subseteq> aep_record_names"
  by (simp_all add: aep_record_declared_def aep_record_fields_def aep_record_names_def image_Un)

lemma action_to_value_inject:
  assumes "action_flat a" "action_flat a'" and "action_evidence_to_value a = action_evidence_to_value a'"
  shows "a = a'"
proof -
  have "map_collect (action_evidence_declared a @ act_extra a)
      = map_collect (action_evidence_declared a' @ act_extra a')"
    using assms(3) by (simp add: action_evidence_to_value_def)
  from flatten_inject [OF this action_declared_ok(1) action_declared_ok(1)
      action_declared_ok(2) action_declared_ok(2)] assms(1,2)
  have m: "map_of (action_evidence_declared a) = map_of (action_evidence_declared a')"
    and "act_extra a = act_extra a'"
    by (simp_all add: action_flat_def)
  note at = fun_cong [OF m, unfolded action_evidence_declared_def action_evidence_fields_def]
  have "action_id a = action_id a'" "tool_name a = tool_name a'" "state_changing a = state_changing a'"
    "timestamp_ms a = timestamp_ms a'" "act_recording_mode a = act_recording_mode a'"
    using at [of "''action_id''"] at [of "''tool_name''"] at [of "''state_changing''"]
      at [of "''timestamp_ms''"] at [of "''recording_mode''"]
    by (simp_all add: field_lookup json_u64_def del: map_of_append)
  moreover have "precondition_digest a = precondition_digest a'" "result_digest a = result_digest a'"
    "parent_action_id a = parent_action_id a'" "causal_chain_id a = causal_chain_id a'"
    "act_mcp_header_risk a = act_mcp_header_risk a'" "act_side_effect_class a = act_side_effect_class a'"
    using at [of "''precondition_digest''"] at [of "''result_digest''"] at [of "''parent_action_id''"]
      at [of "''causal_chain_id''"] at [of "''mcp_header_risk''"] at [of "''side_effect_class''"]
    by (simp_all add: field_lookup wire_injects del: map_of_append)
  moreover have "act_capability_decision a = act_capability_decision a'"
  proof -
    have "map_option capability_decision_to_value (act_capability_decision a)
        = map_option capability_decision_to_value (act_capability_decision a')"
      using at [of "''capability_decision''"] by (simp add: field_lookup del: map_of_append)
    with assms(1,2) show ?thesis
      by (cases "act_capability_decision a"; cases "act_capability_decision a'")
        (auto simp: action_flat_def intro: capability_to_value_inject)
  qed
  ultimately show ?thesis
    using \<open>act_extra a = act_extra a'\<close> by (intro action_evidence.equality) simp_all
qed

text \<open>The whole record can be read off its wire form, field by field.\<close>

lemma record_to_value_inject:
  assumes "record_flat r" "record_flat r'" and "aep_record_to_value r = aep_record_to_value r'"
    and strip: "dsse_envelope r = None" "dsse_envelope r' = None" "signature r = None" "signature r' = None"
  shows "r = r'"
proof -
  have "map_collect (aep_record_declared r @ extra r) = map_collect (aep_record_declared r' @ extra r')"
    using assms(3) by (simp add: aep_record_to_value_def)
  from flatten_inject [OF this record_declared_ok(1) record_declared_ok(1)
      record_declared_ok(2) record_declared_ok(2)] assms(1,2)
  have m: "map_of (aep_record_declared r) = map_of (aep_record_declared r')" and "extra r = extra r'"
    by (simp_all add: record_flat_def)
  note at = fun_cong [OF m, unfolded aep_record_declared_def aep_record_fields_def]
  have "schema_version r = schema_version r'" "run_id r = run_id r'" "created_at_ms r = created_at_ms r'"
    "map action_evidence_to_value (actions r) = map action_evidence_to_value (actions r')"
    using at [of "''schema_version''"] at [of "''run_id''"] at [of "''created_at_ms''"] at [of "''actions''"]
    by (simp_all add: field_lookup json_u64_def del: map_of_append)
  moreover from this(4) have "actions r = actions r'"
    using assms(1,2) action_to_value_inject
    by (metis (no_types, lifting) list.inj_map_strong record_flat_def)
  moreover have "trace_id r = trace_id r'" "session_id r = session_id r'" "user_id r = user_id r'"
    "authorized_by r = authorized_by r'" "authority_origin r = authority_origin r'"
    "identity_source r = identity_source r'" "attribution_backing r = attribution_backing r'"
    using at [of "''trace_id''"] at [of "''session_id''"] at [of "''user_id''"] at [of "''authorized_by''"]
      at [of "''authority_origin''"] at [of "''identity_source''"] at [of "''attribution_backing''"]
    by (simp_all add: field_lookup wire_injects del: map_of_append)
  moreover have "run_attribution_backing_floor r = run_attribution_backing_floor r'"
    "run_attribution_backing_observed r = run_attribution_backing_observed r'"
    "authorization_evidence_count r = authorization_evidence_count r'"
    "rec_side_effect_class_max r = rec_side_effect_class_max r'"
    "rec_recording_mode r = rec_recording_mode r'"
    using at [of "''run_attribution_backing_floor''"] at [of "''run_attribution_backing_observed''"]
      at [of "''authorization_evidence_count''"] at [of "''run_side_effect_class_max''"]
      at [of "''recording_mode''"]
    by (simp_all add: field_lookup wire_injects del: map_of_append)
  ultimately show ?thesis
    using strip \<open>extra r = extra r'\<close> by (intro aep_record.equality) simp_all
qed

section \<open>The wire form is a well-formed value\<close>

text \<open>
  In memory every string is UTF-8 and every map is in key order. \<open>record_strings\<close> lists the
  strings a record holds, \<open>record_extras\<close> the values of its catch-all maps at every level.
\<close>

definition option_list :: "'a option \<Rightarrow> 'a list" where
  "option_list x = (case x of None \<Rightarrow> [] | Some y \<Rightarrow> [y])"

lemma option_list_simps [simp]: "option_list None = []" "option_list (Some y) = [y]"
  by (simp_all add: option_list_def)

definition capability_strings :: "capability_decision \<Rightarrow> string list" where
  "capability_strings c =
     [capability c, subject c, resource c, decision c] @ option_list (reason_code c) @
     option_list (deny_reason_class c) @ map fst (cap_extra c)"

definition action_strings :: "action_evidence \<Rightarrow> string list" where
  "action_strings a =
     [action_id a, tool_name a] @ option_list (precondition_digest a) @ option_list (result_digest a) @
     option_list (parent_action_id a) @ option_list (causal_chain_id a) @
     concat (map capability_strings (option_list (act_capability_decision a))) @
     option_list (act_mcp_header_risk a) @ option_list (act_side_effect_class a) @ map fst (act_extra a)"

definition record_strings :: "aep_record \<Rightarrow> string list" where
  "record_strings r =
     [schema_version r, run_id r] @ option_list (trace_id r) @ option_list (session_id r) @
     option_list (user_id r) @ option_list (authorized_by r) @ option_list (authority_origin r) @
     option_list (identity_source r) @ option_list (attribution_backing r) @
     option_list (run_attribution_backing_floor r) @
     concat (option_list (run_attribution_backing_observed r)) @
     option_list (rec_side_effect_class_max r) @ option_list (rec_recording_mode r) @
     concat (map action_strings (actions r)) @ map fst (extra r)"

definition action_extras :: "action_evidence \<Rightarrow> json list" where
  "action_extras a =
     concat (map (\<lambda>c. map snd (cap_extra c)) (option_list (act_capability_decision a))) @ map snd (act_extra a)"

definition record_extras :: "aep_record \<Rightarrow> json list" where
  "record_extras r = concat (map action_extras (actions r)) @ map snd (extra r)"

definition record_ok :: "aep_record \<Rightarrow> bool" where
  "record_ok r \<longleftrightarrow> (\<forall>s \<in> set (record_strings r). utf8_valid s) \<and> (\<forall>v \<in> set (record_extras r). json_ok v)"

definition entries_ok :: "(string \<times> json) list \<Rightarrow> bool" where
  "entries_ok es \<longleftrightarrow> (\<forall>(k, v) \<in> set es. utf8_valid k \<and> json_ok v)"

lemma entries_ok_simps [simp]:
  "entries_ok []"
  "entries_ok ((k, v) # es) \<longleftrightarrow> utf8_valid k \<and> json_ok v \<and> entries_ok es"
  "entries_ok (es @ es') \<longleftrightarrow> entries_ok es \<and> entries_ok es'"
  by (auto simp: entries_ok_def)

lemma entries_ok_opt_field [simp]:
  "entries_ok (opt_field k f x) \<longleftrightarrow> (\<forall>y \<in> set (option_list x). utf8_valid k \<and> json_ok (f y))"
  by (cases x) auto

lemma entries_ok_extra: "entries_ok m \<longleftrightarrow> (\<forall>k \<in> fst ` set m. utf8_valid k) \<and> (\<forall>v \<in> snd ` set m. json_ok v)"
  by (auto simp: entries_ok_def)

lemma json_ok_collect: "entries_ok es \<Longrightarrow> json_ok (JObject (map_collect es))"
  using map_collect_set [of es] by (auto simp: entries_ok_def)

lemma json_ok_leaves [simp]:
  "json_ok (json_u64 n)"
  "json_ok (json_strings ss) \<longleftrightarrow> (\<forall>s \<in> set ss. utf8_valid s)"
  by (simp_all add: json_u64_def json_strings_def)

lemma utf8_valid_literal:
  "list_all (\<lambda>c. of_char c < (128 :: nat)) s \<Longrightarrow> utf8_valid s"
  by (rule utf8_valid_ascii) (simp add: ascii_def list_all_iff)

lemma mode_name_valid [simp]: "utf8_valid (recording_mode_as_str m)"
  by (cases m) (simp_all add: utf8_valid_literal)

lemma capability_to_value_ok:
  assumes "\<forall>s \<in> set (capability_strings c). utf8_valid s" "\<forall>v \<in> snd ` set (cap_extra c). json_ok v"
  shows "json_ok (capability_decision_to_value c)"
  unfolding capability_decision_to_value_def capability_decision_declared_def
  by (rule json_ok_collect)
    (use assms in \<open>simp_all add: capability_strings_def entries_ok_extra [of "cap_extra c"] utf8_valid_literal ball_Un\<close>)

lemma action_to_value_ok:
  assumes "\<forall>s \<in> set (action_strings a). utf8_valid s" "\<forall>v \<in> set (action_extras a). json_ok v"
  shows "json_ok (action_evidence_to_value a)"
proof -
  have "\<forall>c \<in> set (option_list (act_capability_decision a)). json_ok (capability_decision_to_value c)"
    using assms by (auto simp: action_strings_def action_extras_def intro!: capability_to_value_ok)
  with assms show ?thesis
    unfolding action_evidence_to_value_def action_evidence_declared_def action_evidence_fields_def
    by (intro json_ok_collect)
      (simp_all add: action_strings_def action_extras_def entries_ok_extra [of "act_extra a"] utf8_valid_literal ball_Un)
qed

lemma record_to_value_ok:
  assumes "record_ok r" "dsse_envelope r = None" "signature r = None"
  shows "json_ok (aep_record_to_value r)"
proof -
  have "\<forall>a \<in> set (actions r). json_ok (action_evidence_to_value a)"
    using assms(1) by (auto simp: record_ok_def record_strings_def record_extras_def intro!: action_to_value_ok)
  with assms show ?thesis
    unfolding aep_record_to_value_def aep_record_declared_def aep_record_fields_def
    by (intro json_ok_collect)
      (simp_all add: record_ok_def record_strings_def record_extras_def entries_ok_extra [of "extra r"] utf8_valid_literal ball_Un)
qed

section \<open>Depth and integrality come from the catch-all maps\<close>

text \<open>One bound for both: no floating point number and at most \<open>n\<close> nested containers.\<close>

definition json_plain :: "nat \<Rightarrow> json \<Rightarrow> bool" where
  "json_plain n v \<longleftrightarrow> json_integral v \<and> json_depth v \<le> n"

definition entries_plain :: "nat \<Rightarrow> (string \<times> json) list \<Rightarrow> bool" where
  "entries_plain n es \<longleftrightarrow> (\<forall>v \<in> snd ` set es. json_plain n v)"

lemma entries_plain_simps [simp]:
  "entries_plain n []"
  "entries_plain n ((k, v) # es) \<longleftrightarrow> json_plain n v \<and> entries_plain n es"
  "entries_plain n (es @ es') \<longleftrightarrow> entries_plain n es \<and> entries_plain n es'"
  by (auto simp: entries_plain_def)

lemma entries_plain_opt_field [simp]:
  "entries_plain n (opt_field k f x) \<longleftrightarrow> (\<forall>y \<in> set (option_list x). json_plain n (f y))"
  by (cases x) auto

lemma json_plain_mono: "json_plain m v \<Longrightarrow> m \<le> n \<Longrightarrow> json_plain n v"
  by (simp add: json_plain_def)

lemma json_plain_leaves [simp]:
  "json_plain n (JString s)" "json_plain n (JBool b)" "json_plain n (json_u64 u)"
  by (simp_all add: json_plain_def json_u64_def)

lemma json_plain_array [simp]: "json_plain (Suc n) (JArray vs) \<longleftrightarrow> (\<forall>v \<in> set vs. json_plain n v)"
  unfolding json_plain_def json_depth_array_le by auto

lemma json_plain_strings [simp]: "json_plain (Suc n) (json_strings ss)"
  by (simp add: json_strings_def)

lemma json_plain_object: "json_plain (Suc n) (JObject m) \<longleftrightarrow> entries_plain n m"
  unfolding json_plain_def json_depth_object_le entries_plain_def by auto

lemma json_plain_collect: "entries_plain n es \<Longrightarrow> json_plain (Suc n) (JObject (map_collect es))"
  using map_collect_set [of es] by (auto simp: json_plain_object entries_plain_def)

lemma capability_to_value_plain:
  assumes "\<forall>v \<in> snd ` set (cap_extra c). json_plain n v"
  shows "json_plain (Suc n) (capability_decision_to_value c)"
  unfolding capability_decision_to_value_def capability_decision_declared_def
  by (rule json_plain_collect) (use assms in \<open>simp_all add: entries_plain_def [of _ "cap_extra c"]\<close>)

lemma action_to_value_plain:
  assumes "\<forall>v \<in> set (action_extras a). json_plain n v"
  shows "json_plain (Suc (Suc n)) (action_evidence_to_value a)"
proof -
  have "\<forall>c \<in> set (option_list (act_capability_decision a)). json_plain (Suc n) (capability_decision_to_value c)"
    using assms by (auto simp: action_extras_def intro!: capability_to_value_plain)
  moreover have "entries_plain (Suc n) (act_extra a)"
    using assms json_plain_mono [of n _ "Suc n"] by (simp add: action_extras_def entries_plain_def ball_Un)
  ultimately show ?thesis
    unfolding action_evidence_to_value_def action_evidence_declared_def action_evidence_fields_def
    by (intro json_plain_collect) simp_all
qed

lemma record_to_value_plain:
  assumes "\<forall>v \<in> set (record_extras r). json_plain n v" "dsse_envelope r = None" "signature r = None"
  shows "json_plain (n + 4) (aep_record_to_value r)"
proof -
  have "\<forall>a \<in> set (actions r). json_plain (Suc (Suc n)) (action_evidence_to_value a)"
    using assms(1) by (auto simp: record_extras_def intro!: action_to_value_plain)
  moreover have "entries_plain (Suc (Suc (Suc n))) (extra r)"
    using assms(1) json_plain_mono [of n _ "Suc (Suc (Suc n))"]
    by (simp add: record_extras_def entries_plain_def ball_Un)
  ultimately have "json_plain (Suc (Suc (Suc (Suc n)))) (aep_record_to_value r)"
    unfolding aep_record_to_value_def aep_record_declared_def aep_record_fields_def
    using assms(2,3) by (intro json_plain_collect) simp_all
  then show ?thesis by (simp add: numeral_eq_Suc)
qed

end
