(* ===== verification/Rollup.thy ===== *)
theory Rollup
  imports Evidence
begin

text \<open>
  The two roll-ups over a run's actions in \<open>crates/aep-core/src/evidence.rs\<close>:
  \<open>run_side_effect_class_max\<close> (over the recorded class strings, with every unrecognised
  string ranked like \<open>unknown\<close>) and \<open>strictest_recording_mode\<close>.
\<close>

section \<open>Roll-ups\<close>

definition side_effect_order :: "string list" where
  "side_effect_order = [''read'', ''mutate-local'', ''mutate-external'', ''network-egress'', ''unknown'']"

definition class_position :: "string \<Rightarrow> nat" where
  "class_position cls =
     (case position (\<lambda>o'. o' = cls) side_effect_order of None \<Rightarrow> length side_effect_order - 1 | Some i \<Rightarrow> i)"

definition run_side_effect_class_max :: "action_evidence list \<Rightarrow> string option" where
  "run_side_effect_class_max evidence =
     max_by_key class_position (List.map_filter act_side_effect_class evidence)"

text \<open>The key is an \<open>Option<usize>\<close>, for which \<open>None\<close> is below every \<open>Some\<close>.\<close>

definition recording_mode_order :: "recording_mode list" where
  "recording_mode_order = [Validation, Delta, Full]"

definition mode_position :: "recording_mode \<Rightarrow> nat" where
  "mode_position m =
     (case position (\<lambda>o'. o' = m) recording_mode_order of None \<Rightarrow> 0 | Some i \<Rightarrow> Suc i)"

definition strictest_recording_mode :: "action_evidence list \<Rightarrow> recording_mode option" where
  "strictest_recording_mode evidence = max_by_key mode_position (map act_recording_mode evidence)"

lemma class_position_simps [simp]:
  "class_position ''read'' = 0" "class_position ''mutate-local'' = 1"
  "class_position ''mutate-external'' = 2" "class_position ''network-egress'' = 3"
  by (simp_all add: class_position_def side_effect_order_def)

lemma class_position_le: "class_position cls \<le> 4"
  by (simp add: class_position_def side_effect_order_def)

lemma class_position_top_iff:
  "class_position cls = 4 \<longleftrightarrow> cls \<notin> {''read'', ''mutate-local'', ''mutate-external'', ''network-egress''}"
  by (simp add: class_position_def side_effect_order_def)

lemma mode_position_le_iff: "mode_position a \<le> mode_position b \<longleftrightarrow> a \<le> b"
  by (cases a; cases b) (simp_all add: mode_position_def recording_mode_order_def less_eq_recording_mode_def)

lemma class_position_cases:
  "cls \<notin> {''read'', ''mutate-local'', ''mutate-external'', ''network-egress''} \<and> class_position cls = 4 \<or>
   cls = ''network-egress'' \<or> cls = ''mutate-external'' \<or> cls = ''mutate-local'' \<or> cls = ''read''"
  by (auto simp: class_position_top_iff)

section \<open>Properties\<close>

text \<open>C37: the run's side-effect class is absent exactly if no action carries a class. If some
  class is \<open>unknown\<close> or not in the vocabulary, it is the last such class (so nothing unclassified
  hides behind a milder class); otherwise it is \<open>network-egress\<close> if some action has that class,
  else \<open>mutate-external\<close>, else \<open>mutate-local\<close>, and \<open>read\<close> only if every class is \<open>read\<close>.\<close>

theorem run_side_effect_class_max_spec:
  "run_side_effect_class_max evs =
     (let classes = List.map_filter act_side_effect_class evs;
          unclassified = filter (\<lambda>c. c \<notin> {''read'', ''mutate-local'', ''mutate-external'', ''network-egress''}) classes
      in if classes = [] then None
         else if unclassified \<noteq> [] then Some (last unclassified)
         else if ''network-egress'' \<in> set classes then Some ''network-egress''
         else if ''mutate-external'' \<in> set classes then Some ''mutate-external''
         else if ''mutate-local'' \<in> set classes then Some ''mutate-local''
         else Some ''read'')"
proof (cases "run_side_effect_class_max evs")
  case None
  then show ?thesis by (simp add: run_side_effect_class_max_def)
next
  case (Some m)
  define cs where "cs = List.map_filter act_side_effect_class evs"
  have max: "max_by_key class_position cs = Some m"
    using Some by (simp add: run_side_effect_class_max_def cs_def)
  note m = max_by_key_SomeD(1) [OF max] and upper = max_by_key_SomeD(2) [OF max] and last = max_by_key_last [OF max]
  have known: "filter (\<lambda>c. c \<notin> {''read'', ''mutate-local'', ''mutate-external'', ''network-egress''}) cs = []"
    if "class_position m < 4"
    using that upper by (fastforce simp: filter_empty_conv class_position_top_iff [symmetric] simp del: insert_iff)
  have "cs \<noteq> []" using m by auto
  from class_position_cases [of m] show ?thesis
  proof (elim disjE)
    assume top: "m \<notin> {''read'', ''mutate-local'', ''mutate-external'', ''network-egress''} \<and> class_position m = 4"
    with last have "m = last (filter (\<lambda>c. c \<notin> {''read'', ''mutate-local'', ''mutate-external'', ''network-egress''}) cs)"
      by (simp add: class_position_top_iff)
    moreover have "filter (\<lambda>c. c \<notin> {''read'', ''mutate-local'', ''mutate-external'', ''network-egress''}) cs \<noteq> []"
      using top m by (simp only: filter_empty_conv) blast
    ultimately show ?thesis
      using Some \<open>cs \<noteq> []\<close> by (simp only: cs_def [symmetric] Let_def if_False if_True not_False_eq_True)
  qed (use Some \<open>cs \<noteq> []\<close> m known upper [of "''network-egress''"] upper [of "''mutate-external''"]
      upper [of "''mutate-local''"] in \<open>auto simp: cs_def [symmetric] Let_def\<close>)
qed

text \<open>C38: the strictest recording mode of a run is \<open>Full\<close> if any action was recorded in full,
  else \<open>Delta\<close> if any was recorded as a delta, else \<open>Validation\<close>; it is absent only for a run
  without actions.\<close>

theorem strictest_recording_mode_spec:
  "strictest_recording_mode evs =
     (if evs = [] then None
      else if Full \<in> act_recording_mode ` set evs then Some Full
      else if Delta \<in> act_recording_mode ` set evs then Some Delta
      else Some Validation)"
proof (cases "strictest_recording_mode evs")
  case None
  then show ?thesis by (simp add: strictest_recording_mode_def)
next
  case (Some m)
  then have max: "max_by_key mode_position (map act_recording_mode evs) = Some m"
    by (simp add: strictest_recording_mode_def)
  have "m \<in> act_recording_mode ` set evs" and "x \<in> act_recording_mode ` set evs \<Longrightarrow> x \<le> m" for x
    using max_by_key_SomeD [OF max] by (auto simp: mode_position_le_iff)
  from this(1) this(2) [of Full] this(2) [of Delta] show ?thesis
    using Some by (cases m) (auto simp: less_eq_recording_mode_def)
qed

end
