(* ===== verification/Mcp_Headers.thy ===== *)
theory Mcp_Headers
  imports Evidence
begin

text \<open>
  \<open>crates/aep-core/src/mcp_headers.rs\<close>: detection of leaked secrets in the client-controlled
  MCP header values. The classifier is characterised in terms of what the values contain, and
  its order of precedence is pinned down: the first header value that shows any risk decides.
\<close>

section \<open>The classifier\<close>

definition starts_with_ignore_case :: "string \<Rightarrow> string \<Rightarrow> bool" where
  "starts_with_ignore_case value prefix \<longleftrightarrow>
     length prefix \<le> length value \<and> eq_ignore_ascii_case (take (length prefix) value) prefix"

definition credential_prefixes :: "string list" where
  "credential_prefixes = [''ghp_'', ''ghb_'', ''sk-'', ''Bearer '', ''token '', ''api_'']"

definition min_high_entropy_len :: nat where
  "min_high_entropy_len = 32"

definition has_credential_prefix :: "string \<Rightarrow> bool" where
  "has_credential_prefix val \<longleftrightarrow> list_ex (starts_with_ignore_case val) credential_prefixes"

text \<open>The length of a piece is its length in bytes (\<open>str::len\<close>).\<close>

definition alnum_run :: "unicode_tables \<Rightarrow> string \<Rightarrow> nat" where
  "alnum_run U val =
     (case max_by_key id (map (\<lambda>s. length (utf8_encode s)) (split_on (\<lambda>c. \<not> is_alphanumeric U c) (chars val)))
      of None \<Rightarrow> 0 | Some n \<Rightarrow> n)"

fun classify_values :: "unicode_tables \<Rightarrow> string list \<Rightarrow> mcp_header_risk option" where
  "classify_values U [] = None"
| "classify_values U (val # vals) =
     (if has_credential_prefix val then Some CredentialLeak
      else if min_high_entropy_len \<le> alnum_run U val then Some HighEntropyValue
      else classify_values U vals)"

definition pii_in_name :: "string option \<Rightarrow> bool" where
  "pii_in_name mcp_name =
     (case mcp_name of None \<Rightarrow> False | Some name \<Rightarrow> CHR ''@'' \<in> set name \<and> CHR ''.'' \<in> set name)"

definition classify_mcp_headers :: "unicode_tables \<Rightarrow> string option \<Rightarrow> string option \<Rightarrow> mcp_header_risk option" where
  "classify_mcp_headers U mcp_method mcp_name =
     (case classify_values U (List.map_filter id [mcp_method, mcp_name]) of
        Some r \<Rightarrow> Some r
      | None \<Rightarrow> if pii_in_name mcp_name then Some PiiLeak else None)"

section \<open>What the detectors detect\<close>

lemma starts_with_ignore_case_iff:
  "starts_with_ignore_case v p \<longleftrightarrow> (\<exists>u w. v = u @ w \<and> eq_ignore_ascii_case u p)"
proof
  assume "starts_with_ignore_case v p"
  then show "\<exists>u w. v = u @ w \<and> eq_ignore_ascii_case u p"
    unfolding starts_with_ignore_case_def by (metis append_take_drop_id)
next
  assume "\<exists>u w. v = u @ w \<and> eq_ignore_ascii_case u p"
  then obtain u w where v: "v = u @ w" "eq_ignore_ascii_case u p" by blast
  then have "length u = length p"
    by (metis eq_ignore_ascii_case_def length_map)
  with v show "starts_with_ignore_case v p"
    by (simp add: starts_with_ignore_case_def)
qed

text \<open>Comparing byte by byte decides the prefix test on literals.\<close>

definition lower_code :: "char \<Rightarrow> nat" where
  "lower_code c = (let n = of_char c in if 65 \<le> n \<and> n \<le> 90 then n + 32 else n)"

lemma to_ascii_lowercase_eq_iff:
  "to_ascii_lowercase a = to_ascii_lowercase b \<longleftrightarrow> lower_code a = lower_code b"
proof -
  have "of_char (to_ascii_lowercase c) = lower_code c" for c
    by (simp add: to_ascii_lowercase_def lower_code_def Let_def)
  then show ?thesis by (metis of_char_eq_iff)
qed

lemma starts_with_ignore_case_simps [simp]:
  "starts_with_ignore_case v []"
  "\<not> starts_with_ignore_case [] (p # ps)"
  "starts_with_ignore_case (c # v) (p # ps) \<longleftrightarrow>
     lower_code c = lower_code p \<and> starts_with_ignore_case v ps"
  by (auto simp: starts_with_ignore_case_def eq_ignore_ascii_case_def to_ascii_lowercase_eq_iff)

lemma alnum_run_max:
  "alnum_run U val \<in> (\<lambda>s. length (utf8_encode s)) ` set (split_on (\<lambda>c. \<not> is_alphanumeric U c) (chars val))"
  "s \<in> set (split_on (\<lambda>c. \<not> is_alphanumeric U c) (chars val)) \<Longrightarrow> length (utf8_encode s) \<le> alnum_run U val"
proof -
  let ?ls = "map (\<lambda>s. length (utf8_encode s)) (split_on (\<lambda>c. \<not> is_alphanumeric U c) (chars val))"
  obtain n where n: "max_by_key id ?ls = Some n"
    by (metis (no_types, lifting) max_by_key_None_iff map_is_Nil_conv not_Some_eq split_on_not_Nil)
  then have run: "alnum_run U val = n" by (simp add: alnum_run_def)
  show "alnum_run U val \<in> (\<lambda>s. length (utf8_encode s)) ` set (split_on (\<lambda>c. \<not> is_alphanumeric U c) (chars val))"
    using max_by_key_SomeD(1) [OF n] by (simp add: run)
  show "length (utf8_encode s) \<le> alnum_run U val"
    if "s \<in> set (split_on (\<lambda>c. \<not> is_alphanumeric U c) (chars val))"
    using max_by_key_SomeD(2) [OF n, of "length (utf8_encode s)"] that by (simp add: run)
qed

lemma utf8_length_infix: "length (utf8_encode r) \<le> length (utf8_encode (a @ r @ b))"
  by simp

text \<open>The detector finds exactly the alphanumeric runs that occupy enough bytes.\<close>

lemma alnum_run_ge_iff:
  "n \<le> alnum_run U val \<longleftrightarrow>
     (\<exists>u r v. chars val = u @ r @ v \<and> (\<forall>c \<in> set r. is_alphanumeric U c) \<and> n \<le> length (utf8_encode r))"
proof
  assume "n \<le> alnum_run U val"
  moreover obtain s where s: "s \<in> set (split_on (\<lambda>c. \<not> is_alphanumeric U c) (chars val))"
    "alnum_run U val = length (utf8_encode s)"
    using alnum_run_max(1) by blast
  moreover obtain u v where "chars val = u @ s @ v" "\<forall>c \<in> set s. is_alphanumeric U c"
    using split_on_piece [OF s(1)] by auto
  ultimately show "\<exists>u r v. chars val = u @ r @ v \<and> (\<forall>c \<in> set r. is_alphanumeric U c) \<and> n \<le> length (utf8_encode r)"
    by metis
next
  assume "\<exists>u r v. chars val = u @ r @ v \<and> (\<forall>c \<in> set r. is_alphanumeric U c) \<and> n \<le> length (utf8_encode r)"
  then obtain u r v where r: "chars val = u @ r @ v" "\<forall>c \<in> set r. is_alphanumeric U c"
    "n \<le> length (utf8_encode r)" by blast
  then obtain w a b where "w \<in> set (split_on (\<lambda>c. \<not> is_alphanumeric U c) (chars val))" "w = a @ r @ b"
    using split_on_run [of r "\<lambda>c. \<not> is_alphanumeric U c" u v] by auto
  then have "length (utf8_encode (a @ r @ b)) \<le> alnum_run U val" using alnum_run_max(2) by blast
  with r(3) show "n \<le> alnum_run U val" using utf8_length_infix [of r a b] by linarith
qed

section \<open>Precedence\<close>

definition value_risk :: "unicode_tables \<Rightarrow> string \<Rightarrow> mcp_header_risk option" where
  "value_risk U val =
     (if has_credential_prefix val then Some CredentialLeak
      else if min_high_entropy_len \<le> alnum_run U val then Some HighEntropyValue
      else None)"

lemma classify_values_first:
  "classify_values U (val # vals) = or_else (value_risk U val) (classify_values U vals)"
  by (simp add: value_risk_def)

lemma classify_mcp_headers_eq:
  "classify_mcp_headers U m n =
     or_else (Option.bind m (value_risk U))
       (or_else (Option.bind n (value_risk U)) (if pii_in_name n then Some PiiLeak else None))"
  by (cases m; cases n)
    (auto simp: classify_mcp_headers_def List.map_filter_def or_else_def value_risk_def split: option.splits)

lemma value_risk_None_iff:
  "value_risk U val = None \<longleftrightarrow> \<not> has_credential_prefix val \<and> alnum_run U val < min_high_entropy_len"
  by (auto simp: value_risk_def)

section \<open>Properties\<close>

text \<open>C34: the classifier stays silent exactly on benign headers: no value that is present
  starts with a credential prefix (ignoring ASCII case) or contains an alphanumeric run of 32
  or more bytes, and \<open>MCP-Name\<close> does not hold both \<open>@\<close> and a dot.\<close>

theorem classify_mcp_headers_silent_iff:
  "classify_mcp_headers U m n = None \<longleftrightarrow>
     (\<forall>val \<in> set_option m \<union> set_option n.
        (\<forall>p \<in> set credential_prefixes. \<nexists>u w. val = u @ w \<and> eq_ignore_ascii_case u p) \<and>
        (\<nexists>u r v. chars val = u @ r @ v \<and> (\<forall>c \<in> set r. is_alphanumeric U c) \<and> 32 \<le> length (utf8_encode r))) \<and>
     \<not> pii_in_name n"
proof -
  have "value_risk U val = None \<longleftrightarrow>
      (\<forall>p \<in> set credential_prefixes. \<nexists>u w. val = u @ w \<and> eq_ignore_ascii_case u p) \<and>
      (\<nexists>u r v. chars val = u @ r @ v \<and> (\<forall>c \<in> set r. is_alphanumeric U c) \<and> 32 \<le> length (utf8_encode r))"
    for val
    using alnum_run_ge_iff [of 32 U val]
    by (simp add: value_risk_None_iff has_credential_prefix_def list_ex_iff starts_with_ignore_case_iff
        min_high_entropy_len_def not_le [symmetric])
  moreover have "classify_mcp_headers U m n = None \<longleftrightarrow>
      (\<forall>val \<in> set_option m \<union> set_option n. value_risk U val = None) \<and> \<not> pii_in_name n"
    by (cases m; cases n) (auto simp: classify_mcp_headers_eq)
  ultimately show ?thesis by simp
qed

text \<open>The precedence of the verdicts for two headers that are present: a risk of
  \<open>MCP-Method\<close> decides before \<open>MCP-Name\<close> is looked at, so a long opaque method hides a
  credential in the name behind \<open>HighEntropyValue\<close>; PII is reported only when neither value
  shows a credential or a long run.\<close>

lemma classify_mcp_headers_precedence:
  "classify_mcp_headers U (Some m) (Some n) =
     (if has_credential_prefix m then Some CredentialLeak
      else if 32 \<le> alnum_run U m then Some HighEntropyValue
      else if has_credential_prefix n then Some CredentialLeak
      else if 32 \<le> alnum_run U n then Some HighEntropyValue
      else if CHR ''@'' \<in> set n \<and> CHR ''.'' \<in> set n then Some PiiLeak
      else None)"
  by (simp add: classify_mcp_headers_eq value_risk_def min_high_entropy_len_def pii_in_name_def)

text \<open>The documented rule "credential prefixes are detected in both headers first, the
  highest severity wins" is not what the code does: a method of 32 letters together with a
  name that starts with \<open>sk-\<close> is reported as \<open>HighEntropyValue\<close>, although the same name
  alone is a \<open>CredentialLeak\<close>.\<close>

lemma credential_shadowed_by_entropy:
  "classify_mcp_headers U (Some (replicate 32 CHR ''z'')) (Some ''sk-secret'') = Some HighEntropyValue \<and>
   classify_mcp_headers U None (Some ''sk-secret'') = Some CredentialLeak"
proof -
  have replicate_32: "replicate 32 x = x # replicate 31 x" for x :: char
    using replicate_Suc [of 31 x] by simp
  have "\<not> has_credential_prefix (replicate 32 CHR ''z'')"
    by (simp add: has_credential_prefix_def credential_prefixes_def lower_code_def
        replicate_32)
  moreover have "chars (replicate 32 CHR ''z'') = [] @ replicate 32 122 @ []"
    by (subst chars_ascii) (auto simp: ascii_def)
  then have "32 \<le> alnum_run U (replicate 32 CHR ''z'')"
    unfolding alnum_run_ge_iff
    by (intro exI conjI) (assumption, simp_all add: is_alphanumeric_def utf8_encode_def utf8_encode1_def
        length_concat sum_list_replicate)
  moreover have "has_credential_prefix ''sk-secret''"
    by (simp add: has_credential_prefix_def credential_prefixes_def lower_code_def)
  ultimately show ?thesis
    by (simp add: classify_mcp_headers_eq value_risk_def min_high_entropy_len_def)
qed

text \<open>The run length is counted in bytes, not in characters as documented: a name of
  16 alphanumeric two-byte characters (here U+00E9) already reaches the threshold of 32.\<close>

lemma entropy_threshold_counts_bytes:
  assumes "alphanumeric_table U 0xE9"
  shows "length (chars (utf8_encode (replicate 16 0xE9))) = 16 \<and>
    classify_mcp_headers U None (Some (utf8_encode (replicate 16 0xE9))) = Some HighEntropyValue"
proof -
  let ?s = "utf8_encode (replicate 16 0xE9)"
  have ch: "chars ?s = replicate 16 0xE9"
    by (simp add: chars_def utf8_decode_encode unicode_scalar_def)
  have len: "length ?s = 32"
    by (simp add: utf8_encode_def utf8_encode1_def length_concat sum_list_replicate)
  have "chars ?s = [] @ replicate 16 0xE9 @ []" by (simp add: ch)
  moreover have "\<forall>c \<in> set (replicate 16 0xE9). is_alphanumeric U c"
    using assms by (simp add: is_alphanumeric_def)
  ultimately have "32 \<le> alnum_run U ?s"
    unfolding alnum_run_ge_iff using len by (metis order_refl)
  moreover have "?s = char_of (0xC3 :: nat) # char_of (0xA9 :: nat) # utf8_encode (replicate 15 0xE9)"
    using replicate_Suc [of 15 "0xE9 :: nat"] by (simp add: utf8_encode1_def)
  then have "\<not> has_credential_prefix ?s"
    by (simp add: has_credential_prefix_def credential_prefixes_def lower_code_def)
  ultimately show ?thesis
    by (simp add: ch classify_mcp_headers_eq value_risk_def min_high_entropy_len_def)
qed

theorem entropy_threshold_counts_bytes_witness:
  "classify_mcp_headers \<lparr>alphanumeric_table = (\<lambda>c. True), uppercase_table = (\<lambda>c. [c])\<rparr>
     None (Some (utf8_encode (replicate 16 0xE9))) = Some HighEntropyValue"
  by (rule entropy_threshold_counts_bytes [THEN conjunct2]) simp

end
