(* ===== verification/Recorder.thy ===== *)
theory Recorder
  imports Evidence "HOL-Library.Sublist"
begin

text \<open>
  \<open>crates/proxy-wasm-evidence/src/recorder.rs\<close>: the bounded evidence buffer, side-effect
  inference from the request, the severity and recording-mode joins, host clock conversion and
  \<open>build_evidence\<close>. The buffer is specified by the contract \<open>bounded_fifo\<close>, whose clients
  reason about whole sequences of pushes.
\<close>

section \<open>The evidence buffer\<close>

definition DEFAULT_EVIDENCE_BUFFER_CAPACITY :: nat where
  "DEFAULT_EVIDENCE_BUFFER_CAPACITY = 1024"

record evidence_buffer =
  entries :: "action_evidence list"
  capacity :: nat
  dropped_total :: u64

text \<open>
  \<open>EvidenceBuffer::new\<close> asserts a positive capacity and then reserves the whole of it at once with
  \<open>VecDeque::with_capacity\<close>, which panics on a capacity overflow and aborts when the allocator
  fails. The parameter \<open>room\<close> is the largest number of entries that can be reserved at that moment;
  pushes stay within the reserved capacity.
\<close>

definition buffer_new :: "nat \<Rightarrow> nat \<Rightarrow> ('e, evidence_buffer) outcome" where
  "buffer_new room cap =
     (if cap = 0 then Panic
      else if room < cap then Panic
      else Ok \<lparr>entries = [], capacity = cap, dropped_total = 0\<rparr>)"

definition buffer_with_defaults :: "nat \<Rightarrow> ('e, evidence_buffer) outcome" where
  "buffer_with_defaults room = buffer_new room DEFAULT_EVIDENCE_BUFFER_CAPACITY"

text \<open>\<open>impl Default\<close>.\<close>

definition buffer_default :: "nat \<Rightarrow> ('e, evidence_buffer) outcome" where
  "buffer_default room = buffer_with_defaults room"

definition buffer_push :: "action_evidence \<Rightarrow> evidence_buffer \<Rightarrow> evidence_buffer \<times> action_evidence option" where
  "buffer_push evidence b =
     (let (evicted, rest) =
            (if capacity b \<le> length (entries b)
             then (case entries b of [] \<Rightarrow> (None, []) | e # es \<Rightarrow> (Some e, es))
             else (None, entries b));
          dropped = (if evicted \<noteq> None then dropped_total b + 1 else dropped_total b)
      in (b\<lparr>entries := rest @ [evidence], dropped_total := dropped\<rparr>, evicted))"

definition buffer_dropped_total :: "evidence_buffer \<Rightarrow> u64" where
  "buffer_dropped_total b = dropped_total b"

definition buffer_capacity :: "evidence_buffer \<Rightarrow> nat" where
  "buffer_capacity b = capacity b"

definition buffer_len :: "evidence_buffer \<Rightarrow> nat" where
  "buffer_len b = length (entries b)"

definition buffer_is_empty :: "evidence_buffer \<Rightarrow> bool" where
  "buffer_is_empty b \<longleftrightarrow> entries b = []"

definition buffer_drain :: "evidence_buffer \<Rightarrow> evidence_buffer \<times> action_evidence list" where
  "buffer_drain b = (b\<lparr>entries := []\<rparr>, entries b)"

text \<open>The type invariant: positive capacity, never exceeded.\<close>

definition buffer_ok :: "evidence_buffer \<Rightarrow> bool" where
  "buffer_ok b \<longleftrightarrow> 0 < capacity b \<and> length (entries b) \<le> capacity b"

subsection \<open>The contract of a bounded queue\<close>

text \<open>
  What the filter relies on: a push appends, evicting the oldest item exactly when the queue is
  full, and every eviction is counted. Everything about a run of pushes follows.
\<close>

locale bounded_fifo =
  fixes items :: "'q \<Rightarrow> 'a list"
    and cap :: "'q \<Rightarrow> nat"
    and drops :: "'q \<Rightarrow> u64"
    and push :: "'a \<Rightarrow> 'q \<Rightarrow> 'q \<times> 'a option"
    and invar :: "'q \<Rightarrow> bool"
  assumes invar_bound: "invar q \<Longrightarrow> 0 < cap q \<and> length (items q) \<le> cap q"
    and push_invar: "invar q \<Longrightarrow> invar (fst (push x q))"
    and push_cap: "invar q \<Longrightarrow> cap (fst (push x q)) = cap q"
    and push_room: "invar q \<Longrightarrow> length (items q) < cap q \<Longrightarrow>
      items (fst (push x q)) = items q @ [x] \<and> drops (fst (push x q)) = drops q \<and> snd (push x q) = None"
    and push_full: "invar q \<Longrightarrow> length (items q) = cap q \<Longrightarrow>
      items (fst (push x q)) = tl (items q) @ [x] \<and> drops (fst (push x q)) = drops q + 1 \<and>
      snd (push x q) = Some (hd (items q))"
begin

definition push_all :: "'q \<Rightarrow> 'a list \<Rightarrow> 'q" where
  "push_all q xs = foldl (\<lambda>q x. fst (push x q)) q xs"

lemma push_all_simps: "push_all q [] = q" "push_all q (x # xs) = push_all (fst (push x q)) xs"
  by (simp_all add: push_all_def)

lemma push_items:
  assumes "invar q"
  shows "items (fst (push x q)) = keep_last (cap q) (items q @ [x])"
proof (cases "length (items q) < cap q")
  case True
  then show ?thesis using push_room [OF assms, of x] by (simp add: keep_last_def)
next
  case False
  with invar_bound [OF assms] have "length (items q) = cap q" "items q \<noteq> []" by auto
  then show ?thesis
    using push_full [OF assms, of x] by (cases "items q") (simp_all add: keep_last_def)
qed

lemma push_drops:
  assumes "invar q"
  shows "drops (fst (push x q)) = drops q + of_nat (length (items q @ [x]) - cap q)"
proof (cases "length (items q) < cap q")
  case True
  then show ?thesis using push_room [OF assms, of x] by simp
next
  case False
  with invar_bound [OF assms] have "length (items q) = cap q" by auto
  then show ?thesis using push_full [OF assms, of x] by simp
qed

lemma push_all_invar: "invar q \<Longrightarrow> invar (push_all q xs) \<and> cap (push_all q xs) = cap q"
  by (induction xs arbitrary: q) (simp_all add: push_all_simps push_invar push_cap)

text \<open>A run of pushes keeps the newest items and counts all the others as dropped.\<close>

lemma push_all_items:
  "invar q \<Longrightarrow> items (push_all q xs) = keep_last (cap q) (items q @ xs)"
proof (induction xs arbitrary: q)
  case Nil
  then show ?case using invar_bound [of q] by (simp add: push_all_simps keep_last_def)
next
  case (Cons x xs)
  have "items (push_all q (x # xs)) = keep_last (cap q) (keep_last (cap q) (items q @ [x]) @ xs)"
    using Cons by (simp add: push_all_simps push_invar push_cap push_items)
  also have "\<dots> = keep_last (cap q) (items q @ x # xs)"
    by (simp add: keep_last_append)
  finally show ?case .
qed

lemma push_all_drops:
  "invar q \<Longrightarrow> drops (push_all q xs) = drops q + of_nat (length (items q @ xs) - cap q)"
proof (induction xs arbitrary: q)
  case Nil
  then show ?case using invar_bound [of q] by (simp add: push_all_simps)
next
  case (Cons x xs)
  have "drops (push_all q (x # xs)) =
      drops q + of_nat (length (items q @ [x]) - cap q)
        + of_nat (length (keep_last (cap q) (items q @ [x]) @ xs) - cap q)"
    using Cons by (simp add: push_all_simps push_invar push_cap push_items push_drops)
  moreover have "length (items q @ [x]) - cap q + (length (keep_last (cap q) (items q @ [x]) @ xs) - cap q)
      = length (items q @ x # xs) - cap q"
    using invar_bound [OF Cons.prems] by auto
  then have "of_nat (length (items q @ [x]) - cap q)
        + of_nat (length (keep_last (cap q) (items q @ [x]) @ xs) - cap q)
      = (of_nat (length (items q @ x # xs) - cap q) :: u64)"
    by (metis of_nat_add)
  ultimately show ?case by (simp only: add.assoc)
qed

end

lemma buffer_push_room:
  "buffer_ok b \<Longrightarrow> length (entries b) < capacity b \<Longrightarrow>
     buffer_push x b = (b\<lparr>entries := entries b @ [x]\<rparr>, None)"
  by (simp add: buffer_push_def)

lemma buffer_push_full:
  "buffer_ok b \<Longrightarrow> length (entries b) = capacity b \<Longrightarrow>
     buffer_push x b =
       (b\<lparr>entries := tl (entries b) @ [x], dropped_total := dropped_total b + 1\<rparr>, Some (hd (entries b)))"
  by (cases "entries b") (simp_all add: buffer_push_def buffer_ok_def)

lemma buffer_push_ok:
  assumes "buffer_ok b"
  shows "buffer_ok (fst (buffer_push x b)) \<and> capacity (fst (buffer_push x b)) = capacity b"
proof (cases "length (entries b) < capacity b")
  case True
  with assms show ?thesis by (simp add: buffer_push_room) (simp add: buffer_ok_def)
next
  case False
  with assms have "length (entries b) = capacity b" by (simp add: buffer_ok_def)
  with assms show ?thesis by (simp add: buffer_push_full) (simp add: buffer_ok_def)
qed

interpretation evidence_fifo: bounded_fifo entries capacity dropped_total buffer_push buffer_ok
  by unfold_locales (simp_all add: buffer_push_ok buffer_push_room buffer_push_full, simp add: buffer_ok_def)

lemma buffer_new_Ok_iff:
  "buffer_new room c = Ok b \<longleftrightarrow> 0 < c \<and> c \<le> room \<and> b = \<lparr>entries = [], capacity = c, dropped_total = 0\<rparr>"
  by (auto simp: buffer_new_def)

lemma buffer_new_Panic_iff: "buffer_new room c = Panic \<longleftrightarrow> c = 0 \<or> room < c"
  by (simp add: buffer_new_def)

lemma buffer_new_ok: "buffer_new room c = Ok b \<Longrightarrow> buffer_ok b \<and> entries b = [] \<and> capacity b = c \<and> dropped_total b = 0"
  by (simp add: buffer_new_Ok_iff buffer_ok_def)

lemma buffer_drain_ok: "buffer_ok b \<Longrightarrow> buffer_ok (fst (buffer_drain b))"
  by (simp add: buffer_drain_def buffer_ok_def)

subsection \<open>Operation sequences\<close>

datatype buffer_op = Push action_evidence | Drain

text \<open>The state of a use of the buffer: what is in it and what drains have handed out.\<close>

fun buffer_run :: "buffer_op list \<Rightarrow> evidence_buffer \<Rightarrow> evidence_buffer \<times> action_evidence list" where
  "buffer_run [] b = (b, [])"
| "buffer_run (Push e # ops) b = buffer_run ops (fst (buffer_push e b))"
| "buffer_run (Drain # ops) b =
     (fst (buffer_run ops (fst (buffer_drain b))),
      snd (buffer_drain b) @ snd (buffer_run ops (fst (buffer_drain b))))"

fun pushed :: "buffer_op list \<Rightarrow> action_evidence list" where
  "pushed [] = []"
| "pushed (Push e # ops) = e # pushed ops"
| "pushed (Drain # ops) = pushed ops"

lemma buffer_run_ok: "buffer_ok b \<Longrightarrow> buffer_ok (fst (buffer_run ops b)) \<and> capacity (fst (buffer_run ops b)) = capacity b"
proof (induction ops b rule: buffer_run.induct)
  case (2 e ops b)
  then show ?case by (simp add: buffer_push_ok)
next
  case (3 ops b)
  then show ?case using buffer_drain_ok [of b] by (simp add: buffer_drain_def)
qed simp

text \<open>Nothing is reordered, invented or duplicated, and every push is accounted for.\<close>

lemma buffer_run_accounts:
  assumes "buffer_ok b" and "buffer_run ops b = (b', out)"
  shows "subseq (out @ entries b') (entries b @ pushed ops)"
    and "of_nat (length (entries b @ pushed ops)) + dropped_total b
       = of_nat (length (out @ entries b')) + dropped_total b'"
proof -
  have "subseq (out @ entries b') (entries b @ pushed ops) \<and>
      of_nat (length (entries b @ pushed ops)) + dropped_total b
        = of_nat (length (out @ entries b')) + dropped_total b'"
    using assms
  proof (induction ops b arbitrary: b' out rule: buffer_run.induct)
    case (1 b)
    then show ?case by simp
  next
    case (2 e ops b)
    define c where "c = fst (buffer_push e b)"
    have "buffer_ok c" using 2 buffer_push_ok by (simp add: c_def)
    with 2 have IH: "subseq (out @ entries b') (entries c @ pushed ops)"
      "of_nat (length (entries c @ pushed ops)) + dropped_total c
        = of_nat (length (out @ entries b')) + dropped_total b'"
      by (simp_all add: c_def)
    show ?case
    proof (cases "length (entries b) < capacity b")
      case True
      then have "entries c = entries b @ [e]" "dropped_total c = dropped_total b"
        using 2(2) by (simp_all add: c_def buffer_push_room)
      with IH show ?thesis by simp
    next
      case False
      with 2(2) have "length (entries b) = capacity b" by (simp add: buffer_ok_def)
      then have c: "entries c = tl (entries b) @ [e]" "dropped_total c = dropped_total b + 1"
        using 2(2) by (simp_all add: c_def buffer_push_full)
      obtain x xs where xs: "entries b = x # xs"
        using 2(2) \<open>length (entries b) = capacity b\<close> by (cases "entries b") (auto simp: buffer_ok_def)
      from IH(1) have "subseq (out @ entries b') (x # xs @ e # pushed ops)"
        by (simp add: c xs list_emb_Cons)
      with IH(2) show ?thesis by (simp add: c xs algebra_simps)
    qed
  next
    case (3 ops b)
    define outs where "outs = snd (buffer_run ops (b\<lparr>entries := []\<rparr>))"
    have run: "buffer_run ops (b\<lparr>entries := []\<rparr>) = (b', outs)" "out = entries b @ outs"
      using "3.prems"(2) by (auto simp: buffer_drain_def outs_def prod_eq_iff)
    have "buffer_ok (b\<lparr>entries := []\<rparr>)" using "3.prems"(1) by (simp add: buffer_ok_def)
    with "3.IH"(1) run have "subseq (outs @ entries b') (pushed ops)"
      "of_nat (length (pushed ops)) + dropped_total b = of_nat (length (outs @ entries b')) + dropped_total b'"
      by (simp_all add: buffer_drain_def)
    with run(2) show ?case by (simp add: list_emb_append_mono algebra_simps)
  qed
  then show "subseq (out @ entries b') (entries b @ pushed ops)"
    and "of_nat (length (entries b @ pushed ops)) + dropped_total b
       = of_nat (length (out @ entries b')) + dropped_total b'" by blast+
qed

section \<open>Side-effect inference\<close>

text \<open>Layer 1: the HTTP heuristic.\<close>

definition http_side_effect_class :: "unicode_tables \<Rightarrow> string \<Rightarrow> string \<Rightarrow> side_effect_class" where
  "http_side_effect_class U http_method path =
     (let m = to_uppercase U http_method in
      if m = ''GET'' \<or> m = ''HEAD'' \<or> m = ''OPTIONS'' then Read
      else if m = ''POST'' \<or> m = ''PUT'' \<or> m = ''PATCH'' \<or> m = ''DELETE''
        then (if str_contains path ''/network/'' \<or> str_contains path ''/webhook'' then NetworkEgress
              else MutateExternal)
      else Unknown)"

text \<open>Layer 2: the operation the client-controlled \<open>MCP-Method\<close> header names.\<close>

definition mcp_side_effect_class :: "string \<Rightarrow> side_effect_class" where
  "mcp_side_effect_class op =
     (if op = ''tools/call'' then MutateExternal
      else if op = ''tools/list'' \<or> op = ''resources/list'' \<or> op = ''resources/read'' \<or>
              op = ''prompts/list'' \<or> op = ''prompts/get'' \<or> op = ''completion/complete'' then Read
      else Unknown)"

fun severity_rank :: "side_effect_class \<Rightarrow> nat" where
  "severity_rank Read = 0"
| "severity_rank Unknown = 1"
| "severity_rank MutateLocal = 2"
| "severity_rank MutateExternal = 3"
| "severity_rank NetworkEgress = 4"

definition max_severity :: "side_effect_class \<Rightarrow> side_effect_class \<Rightarrow> side_effect_class" where
  "max_severity a b = (if severity_rank b > severity_rank a then b else a)"

definition infer_side_effect_class_with_mcp ::
    "unicode_tables \<Rightarrow> string \<Rightarrow> string \<Rightarrow> string option \<Rightarrow> side_effect_class" where
  "infer_side_effect_class_with_mcp U http_method path mcp_method =
     (case mcp_method of
        None \<Rightarrow> http_side_effect_class U http_method path
      | Some mcp_op \<Rightarrow> max_severity (http_side_effect_class U http_method path) (mcp_side_effect_class mcp_op))"

definition infer_side_effect_class :: "unicode_tables \<Rightarrow> string \<Rightarrow> string \<Rightarrow> side_effect_class" where
  "infer_side_effect_class U http_method path = infer_side_effect_class_with_mcp U http_method path None"

interpretation severity: ranked_choice severity_rank max_severity
proof
  show "severity_rank a = severity_rank b \<Longrightarrow> a = b" for a b
    by (cases a; cases b) simp_all
qed (simp add: max_severity_def)

lemma http_never_MutateLocal: "http_side_effect_class U m p \<noteq> MutateLocal"
  by (simp add: http_side_effect_class_def Let_def)

lemma mcp_never_MutateLocal: "mcp_side_effect_class op \<noteq> MutateLocal"
  by (simp add: mcp_side_effect_class_def)

lemma infer_never_MutateLocal: "infer_side_effect_class_with_mcp U m p mcp \<noteq> MutateLocal"
  using severity.pick_cases http_never_MutateLocal mcp_never_MutateLocal
  by (auto simp: infer_side_effect_class_with_mcp_def split: option.split) metis

lemma infer_rank:
  "severity_rank (infer_side_effect_class_with_mcp U m p mcp) =
     max (severity_rank (http_side_effect_class U m p))
         (case mcp of None \<Rightarrow> 0 | Some op \<Rightarrow> severity_rank (mcp_side_effect_class op))"
  by (simp add: infer_side_effect_class_with_mcp_def severity.rank_pick split: option.split)

text \<open>Among the inferred classes severity and recording mode agree: only a read is cheap.\<close>

lemma infer_Read_iff:
  "infer_side_effect_class_with_mcp U m p mcp = Read \<longleftrightarrow>
     http_side_effect_class U m p = Read \<and> (mcp = None \<or> mcp_side_effect_class (the mcp) = Read)"
proof -
  have r: "c = Read \<longleftrightarrow> severity_rank c = 0" for c
    by (cases c) simp_all
  show ?thesis by (cases mcp) (simp_all add: r infer_rank)
qed

section \<open>Host clock\<close>

text \<open>
  A \<open>SystemTime\<close> is modelled by its distance from the Unix epoch in nanoseconds;
  \<open>as_millis() as u64\<close> keeps the low 64 bits.
\<close>

type_synonym system_time = int

definition unix_millis_checked :: "system_time \<Rightarrow> u64 option" where
  "unix_millis_checked time = (if time < 0 then None else Some (word_of_int (time div 1000000)))"

definition unix_millis :: "system_time \<Rightarrow> u64" where
  "unix_millis time = (case unix_millis_checked time of None \<Rightarrow> 0 | Some ms \<Rightarrow> ms)"

section \<open>Recording-mode join and evidence construction\<close>

definition max_recording_mode :: "recording_mode \<Rightarrow> recording_mode \<Rightarrow> recording_mode" where
  "max_recording_mode a b = (if mode_level b > mode_level a then b else a)"

interpretation mode_join: ranked_choice mode_level max_recording_mode
  by unfold_locales (simp add: max_recording_mode_def, rule mode_level_inject)

lemma max_recording_mode_max: "max_recording_mode a b = max a b"
  by (simp add: max_recording_mode_def max_def less_eq_recording_mode_def mode_level_inject)

definition build_evidence ::
    "string \<Rightarrow> string \<Rightarrow> risk_context \<Rightarrow> u64 \<Rightarrow> string option \<Rightarrow> mcp_header_risk option \<Rightarrow> action_evidence" where
  "build_evidence act_id tool risk_ctx timestamp precondition header_risk =
     (let policy = compile_recording_policy risk_ctx in
      \<lparr>action_id = act_id,
       tool_name = tool,
       state_changing = (risk_class risk_ctx \<noteq> Read),
       precondition_digest = precondition,
       result_digest = None,
       timestamp_ms = timestamp,
       parent_action_id = None,
       causal_chain_id = None,
       act_recording_mode = mode policy,
       act_capability_decision = None,
       act_mcp_header_risk = map_option mcp_header_risk_as_str header_risk,
       act_side_effect_class = Some (canonical_str (risk_class risk_ctx)),
       act_extra = []\<rparr>)"

text \<open>A run of pushes; the evicted entries are discarded, as the filter does.\<close>

definition buffer_push_all :: "evidence_buffer \<Rightarrow> action_evidence list \<Rightarrow> evidence_buffer" where
  "buffer_push_all b es = foldl (\<lambda>b e. fst (buffer_push e b)) b es"

lemma buffer_push_all_eq: "buffer_push_all = evidence_fifo.push_all"
  by (simp add: fun_eq_iff buffer_push_all_def evidence_fifo.push_all_def)

section \<open>Properties\<close>

text \<open>After any run of pushes the buffer holds the newest entries in arrival order, as
  many as its capacity allows, and the drop counter has advanced by exactly the number of
  entries that had to go (modulo the width of the counter).\<close>

lemma buffer_keeps_newest:
  assumes "buffer_ok b"
  shows "entries (buffer_push_all b es) = keep_last (capacity b) (entries b @ es) \<and>
    dropped_total (buffer_push_all b es) =
      dropped_total b + of_nat (length (entries b @ es) - capacity b) \<and>
    buffer_ok (buffer_push_all b es)"
  using evidence_fifo.push_all_items [OF assms] evidence_fifo.push_all_drops [OF assms]
    evidence_fifo.push_all_invar [OF assms]
  by (simp add: buffer_push_all_eq)

theorem buffer_keeps_newest_witness:
  "dropped_total (buffer_push_all \<lparr>entries = [], capacity = 2, dropped_total = 0\<rparr>
     (map (\<lambda>i. build_evidence i [] \<lparr>was_vetted = False, has_consent_anomaly = False,
        taint_chain_length = 0, risk_class = Read\<rparr> 0 None None) [''a'', ''b'', ''c''])) = 1"
  using buffer_keeps_newest [of "\<lparr>entries = [], capacity = 2, dropped_total = 0\<rparr>"]
  by (simp add: buffer_ok_def)

text \<open>Whatever the buffer dropped, the pushed entry is in it, as the newest.\<close>

lemma push_last: "entries (fst (buffer_push e b)) \<noteq> [] \<and> last (entries (fst (buffer_push e b))) = e"
  by (simp add: buffer_push_def Let_def split_beta)

text \<open>C25: capture completeness over any interleaving of pushes and drains of a fresh
  buffer: what was drained followed by what is left is a subsequence of what was pushed (no
  entry is invented, duplicated or reordered), and the pushes that are not in it are exactly
  the ones \<open>dropped_total\<close> counts.\<close>

theorem buffer_accounts_for_every_push:
  assumes "buffer_new room c = Ok b" and "buffer_run ops b = (b', out)"
  shows "subseq (out @ entries b') (pushed ops) \<and>
    of_nat (length (pushed ops)) = of_nat (length (out @ entries b')) + dropped_total b' \<and>
    length (entries b') \<le> c"
proof -
  from buffer_new_ok [OF assms(1)] have b: "buffer_ok b" "entries b = []" "capacity b = c" "dropped_total b = 0"
    by simp_all
  have "buffer_ok b'" "capacity b' = c"
    using buffer_run_ok [OF b(1), of ops] assms(2) b(3) by simp_all
  then show ?thesis
    using buffer_run_accounts [OF b(1) assms(2)] b by (simp add: buffer_ok_def)
qed

definition sample_evidence :: "string \<Rightarrow> action_evidence" where
  "sample_evidence i = build_evidence i ''GET /x''
     \<lparr>was_vetted = False, has_consent_anomaly = False, taint_chain_length = 0, risk_class = Read\<rparr> 1 None None"

theorem buffer_accounts_for_every_push_witness:
  "subseq [sample_evidence ''b'', sample_evidence ''c'', sample_evidence ''d'']
     (pushed [Push (sample_evidence ''a''), Push (sample_evidence ''b''), Push (sample_evidence ''c''),
              Drain, Push (sample_evidence ''d'')])"
  using buffer_accounts_for_every_push [where room = 2 and c = 2 and b = "\<lparr>entries = [], capacity = 2, dropped_total = 0\<rparr>"
      and ops = "[Push (sample_evidence ''a''), Push (sample_evidence ''b''), Push (sample_evidence ''c''),
              Drain, Push (sample_evidence ''d'')]", OF _ surjective_pairing]
  by (simp add: buffer_new_def buffer_push_def buffer_drain_def)

text \<open>C26: the client-controlled \<open>MCP-Method\<close> header can only raise the verdict: the class
  inferred with the header is at least as severe as the one the HTTP layer gives, it is one of
  the two layers' verdicts, and it is a read only if both layers say so. From the least severe, the
  classes are read, unknown, local mutation, external mutation, network egress.\<close>

theorem mcp_header_never_lowers_severity:
  "severity_rank (infer_side_effect_class U m path) \<le> severity_rank (infer_side_effect_class_with_mcp U m path mcp) \<and>
   infer_side_effect_class_with_mcp U m path mcp \<in>
     insert (infer_side_effect_class U m path) (mcp_side_effect_class ` set_option mcp) \<and>
   (infer_side_effect_class_with_mcp U m path mcp = Read \<longleftrightarrow>
      infer_side_effect_class U m path = Read \<and> mcp_side_effect_class ` set_option mcp \<subseteq> {Read}) \<and>
   severity_rank Read < severity_rank Unknown \<and> severity_rank Unknown < severity_rank MutateLocal \<and>
   severity_rank MutateLocal < severity_rank MutateExternal \<and>
   severity_rank MutateExternal < severity_rank NetworkEgress"
proof (intro conjI)
  show "severity_rank (infer_side_effect_class U m path) \<le> severity_rank (infer_side_effect_class_with_mcp U m path mcp)"
    by (simp add: infer_side_effect_class_def infer_rank split: option.split)
  show "infer_side_effect_class_with_mcp U m path mcp \<in>
      insert (infer_side_effect_class U m path) (mcp_side_effect_class ` set_option mcp)"
    using severity.pick_cases
    by (auto simp: infer_side_effect_class_def infer_side_effect_class_with_mcp_def split: option.split)
  show "infer_side_effect_class_with_mcp U m path mcp = Read \<longleftrightarrow>
      infer_side_effect_class U m path = Read \<and> mcp_side_effect_class ` set_option mcp \<subseteq> {Read}"
    by (cases mcp) (simp_all add: infer_side_effect_class_def infer_Read_iff)
qed simp_all

text \<open>Nor can the header lower the recording mode: for every setting of the other
  signals, the mode compiled for the class inferred with the header is at least the mode
  compiled for the class inferred without it.\<close>

lemma mcp_header_never_lowers_recording_mode:
  "mode (compile_recording_policy (ctx\<lparr>risk_class := infer_side_effect_class U m path\<rparr>)) \<le>
   mode (compile_recording_policy (ctx\<lparr>risk_class := infer_side_effect_class_with_mcp U m path mcp\<rparr>))"
proof (rule compile_recording_policy_mono)
  have "class_mode c = (if c = Read then Validation else Full)" if "c \<noteq> MutateLocal" for c
    using that by (cases c) simp_all
  then show "riskier (ctx\<lparr>risk_class := infer_side_effect_class U m path\<rparr>)
      (ctx\<lparr>risk_class := infer_side_effect_class_with_mcp U m path mcp\<rparr>)"
    by (simp add: riskier_def infer_never_MutateLocal infer_side_effect_class_def infer_Read_iff)
qed

text \<open>The documented "when \<open>mcp_method\<close> is provided it takes precedence over the HTTP
  method" does not describe the code: a \<open>POST\<close> stays a mutation, and an egress on the paths
  that say so, whatever operation the header names.\<close>

lemma post_stays_mutating:
  "infer_side_effect_class_with_mcp U ''POST'' path mcp =
     (if str_contains path ''/network/'' \<or> str_contains path ''/webhook'' then NetworkEgress
      else MutateExternal)"
  by (auto simp: infer_side_effect_class_with_mcp_def http_side_effect_class_def to_uppercase_ascii ascii_def
      max_severity_def mcp_side_effect_class_def split: option.split)

text \<open>A built evidence entry is consistent with itself: it is marked state changing
  exactly if its class is not \<open>read\<close>, it carries the wire names of the class and the header
  risk, and a mode below \<open>Full\<close> is only ever recorded for a read or a local mutation.\<close>

lemma build_evidence_consistent:
  "(state_changing (build_evidence i t ctx ts pre risk) \<longleftrightarrow>
      act_side_effect_class (build_evidence i t ctx ts pre risk) \<noteq> Some ''read'') \<and>
   act_side_effect_class (build_evidence i t ctx ts pre risk) = Some (canonical_str (risk_class ctx)) \<and>
   act_mcp_header_risk (build_evidence i t ctx ts pre risk) = map_option mcp_header_risk_as_str risk \<and>
   (act_recording_mode (build_evidence i t ctx ts pre risk) = Full \<or>
    act_side_effect_class (build_evidence i t ctx ts pre risk) \<in> {Some ''read'', Some ''mutate-local''})"
  by (cases "risk_class ctx") (simp_all add: build_evidence_def Let_def policy_mode)

text \<open>The millisecond timestamp is the host time rounded down, reduced modulo
  \<open>2 ^ 64\<close>, and 0 for every time before the epoch (so a failed clock and a clock before 1970
  give the same stamp); the checked variant tells them apart.\<close>

lemma unix_millis_spec:
  "uint (unix_millis t) = (if t < 0 then 0 else t div 1000000 mod 2 ^ 64) \<and>
   (unix_millis_checked t = None \<longleftrightarrow> t < 0)"
  by (simp add: unix_millis_def unix_millis_checked_def uint_word_of_int)

text \<open>The recording-mode join is the maximum of the assurance order and the severity
  join the one of the severity order, so folding observations never depends on their order
  or multiplicity, and the result is never below any of them.\<close>

lemma joins_are_maxima:
  "max_recording_mode a b = max a b \<and>
   severity_rank (max_severity c d) = max (severity_rank c) (severity_rank d) \<and>
   max_severity c d = max_severity d c \<and>
   max_severity (max_severity c d) e = max_severity c (max_severity d e) \<and> max_severity c c = c"
  using severity.pick_commute severity.pick_assoc
  by (simp add: max_recording_mode_max severity.rank_pick severity.pick_idem)

end
