(* ===== verification/Prov.thy ===== *)
theory Prov
  imports Prelude "HOL-Library.Finite_Map"
begin

text \<open>
  \<open>crates/aep-core/src/prov.rs\<close>: the provenance graph and its upstream traversal
  \<open>ProvGraph::ancestors\<close>. A \<open>HashMap\<close> is a finite map, a \<open>HashSet\<close> a set, and the locals of
  the work-list loop form the record \<open>walk\<close> (the head of \<open>stack\<close> is the end of the vector).
  The loop terminates on every graph, cyclic ones included, and computes exactly the
  activities that transitively produced the entity, each once.
\<close>

section \<open>The graph\<close>

record prov_activity =
  activity_id :: string
  activity_label :: string
  used :: "string list"
  generated :: "string list"
  activity_timestamp_ms :: u64

record prov_entity =
  entity_id :: string
  digest :: "string option"
  generated_by :: "string option"

record prov_agent =
  agent_id :: string
  agent_label :: string

record prov_graph =
  activities :: "(string, prov_activity) fmap"
  entities :: "(string, prov_entity) fmap"
  agents :: "(string, prov_agent) fmap"

section \<open>The traversal\<close>

record walk =
  ancestors_found :: "string list"
  seen_activities :: "string set"
  seen_entities :: "string set"
  stack :: "string list"

text \<open>The inner loop: push every used entity that was not seen before.\<close>

fun push_unseen :: "string list \<Rightarrow> walk \<Rightarrow> walk" where
  "push_unseen [] w = w"
| "push_unseen (u # us) w =
     (if u \<in> seen_entities w then push_unseen us w
      else push_unseen us (w\<lparr>seen_entities := insert u (seen_entities w), stack := u # stack w\<rparr>))"

text \<open>The body of the outer loop for a popped entity; every \<open>continue\<close> returns the state as it is.\<close>

definition visit :: "prov_graph \<Rightarrow> string \<Rightarrow> walk \<Rightarrow> walk" where
  "visit g eid w =
     (case fmlookup (entities g) eid of
        None \<Rightarrow> w
      | Some entity \<Rightarrow>
          (case generated_by entity of
             None \<Rightarrow> w
           | Some act_id \<Rightarrow>
               if act_id \<in> seen_activities w then w
               else
                 (let w' = w\<lparr>seen_activities := insert act_id (seen_activities w),
                             ancestors_found := ancestors_found w @ [act_id]\<rparr>
                  in case fmlookup (activities g) act_id of
                       None \<Rightarrow> w'
                     | Some activity \<Rightarrow> push_unseen (used activity) w')))"

definition used_ids :: "prov_graph \<Rightarrow> string set" where
  "used_ids g = (\<Union>a \<in> fmran' (activities g). set (used a))"

lemma finite_used_ids [simp]: "finite (used_ids g)"
  by (simp add: used_ids_def fmran'_alt_def)

lemma used_in_used_ids: "fmlookup (activities g) i = Some a \<Longrightarrow> set (used a) \<subseteq> used_ids g"
  by (auto simp: used_ids_def intro: fmran'I)

text \<open>What shrinks in every iteration: entities that can still be pushed, and those that wait.\<close>

definition walk_measure :: "prov_graph \<Rightarrow> walk \<Rightarrow> nat" where
  "walk_measure g w = card (used_ids g - seen_entities w) + length (stack w)"

lemma push_unseen_measure:
  "set us \<subseteq> used_ids g \<Longrightarrow> walk_measure g (push_unseen us w) = walk_measure g w"
proof (induction us w rule: push_unseen.induct)
  case (2 u us w)
  show ?case
  proof (cases "u \<in> seen_entities w")
    case False
    with 2(3) have "u \<in> used_ids g - seen_entities w" by simp
    then have "card (used_ids g - seen_entities w) = Suc (card (used_ids g - seen_entities w - {u}))"
      by (intro card.remove) simp_all
    moreover have "used_ids g - insert u (seen_entities w) = used_ids g - seen_entities w - {u}" by auto
    ultimately have "walk_measure g (w\<lparr>seen_entities := insert u (seen_entities w), stack := u # stack w\<rparr>)
        = walk_measure g w"
      by (simp add: walk_measure_def)
    with 2 False show ?thesis by simp
  qed (use 2 in simp)
qed simp

lemma visit_measure: "walk_measure g (visit g eid w) = walk_measure g w"
proof -
  have "walk_measure g (w\<lparr>seen_activities := A, ancestors_found := F\<rparr>) = walk_measure g w" for A F
    by (simp add: walk_measure_def)
  then show ?thesis
    by (auto simp: visit_def Let_def push_unseen_measure [OF used_in_used_ids] split: option.split)
qed

function walk_loop :: "prov_graph \<Rightarrow> walk \<Rightarrow> walk" where
  "walk_loop g w =
     (case stack w of [] \<Rightarrow> w | eid # rest \<Rightarrow> walk_loop g (visit g eid (w\<lparr>stack := rest\<rparr>)))"
  by pat_completeness auto
termination
  by (relation "measure (\<lambda>(g, w). walk_measure g w)") (auto simp: visit_measure, simp add: walk_measure_def)

declare walk_loop.simps [simp del]

definition ancestors :: "prov_graph \<Rightarrow> string \<Rightarrow> string list" where
  "ancestors g eid =
     ancestors_found (walk_loop g
       \<lparr>ancestors_found = [], seen_activities = {}, seen_entities = {eid}, stack = [eid]\<rparr>)"

section \<open>What it computes\<close>

definition generator_of :: "prov_graph \<Rightarrow> string \<Rightarrow> string option" where
  "generator_of g eid = Option.bind (fmlookup (entities g) eid) generated_by"

definition inputs_of :: "prov_graph \<Rightarrow> string \<Rightarrow> string set" where
  "inputs_of g act = (case fmlookup (activities g) act of None \<Rightarrow> {} | Some a \<Rightarrow> set (used a))"

text \<open>Upstream entities: the entity itself, and whatever the generator of one of them used.\<close>

inductive upstream :: "prov_graph \<Rightarrow> string \<Rightarrow> string \<Rightarrow> bool" for g e0 where
  self: "upstream g e0 e0"
| step: "upstream g e0 e \<Longrightarrow> generator_of g e = Some act \<Longrightarrow> u \<in> inputs_of g act \<Longrightarrow> upstream g e0 u"

definition produced_by :: "prov_graph \<Rightarrow> string \<Rightarrow> string set" where
  "produced_by g e0 = {act. \<exists>e. upstream g e0 e \<and> generator_of g e = Some act}"

lemma push_unseen_fields:
  "seen_entities (push_unseen us w) = seen_entities w \<union> set us"
  "set (stack (push_unseen us w)) = set (stack w) \<union> (set us - seen_entities w)"
  "seen_activities (push_unseen us w) = seen_activities w"
  "ancestors_found (push_unseen us w) = ancestors_found w"
  by (induction us w rule: push_unseen.induct) auto

lemma visit_eq:
  "visit g eid w =
     (case generator_of g eid of
        None \<Rightarrow> w
      | Some act \<Rightarrow>
          if act \<in> seen_activities w then w
          else
            (let w' = w\<lparr>seen_activities := insert act (seen_activities w),
                        ancestors_found := ancestors_found w @ [act]\<rparr>
             in case fmlookup (activities g) act of None \<Rightarrow> w' | Some a \<Rightarrow> push_unseen (used a) w'))"
  by (simp add: visit_def generator_of_def split: option.split)

lemma visit_skip:
  "generator_of g eid = None \<or> (\<exists>act. generator_of g eid = Some act \<and> act \<in> seen_activities w) \<Longrightarrow>
     visit g eid w = w"
  by (auto simp: visit_eq)

lemma visit_new:
  assumes "generator_of g eid = Some act" "act \<notin> seen_activities w"
  shows "seen_activities (visit g eid w) = insert act (seen_activities w)"
    and "ancestors_found (visit g eid w) = ancestors_found w @ [act]"
    and "seen_entities (visit g eid w) = seen_entities w \<union> inputs_of g act"
    and "set (stack (visit g eid w)) = set (stack w) \<union> (inputs_of g act - seen_entities w)"
  using assms by (simp_all add: visit_eq inputs_of_def push_unseen_fields Let_def split: option.split)

text \<open>
  The loop invariant: found activities are listed once and are the seen ones; everything seen
  is upstream; whatever is seen and no longer waits has its generator among the seen
  activities; the inputs of a seen activity are seen.
\<close>

definition walk_inv :: "prov_graph \<Rightarrow> string \<Rightarrow> walk \<Rightarrow> bool" where
  "walk_inv g e0 w \<longleftrightarrow>
     distinct (ancestors_found w) \<and> set (ancestors_found w) = seen_activities w \<and>
     e0 \<in> seen_entities w \<and> (\<forall>e \<in> seen_entities w. upstream g e0 e) \<and>
     set (stack w) \<subseteq> seen_entities w \<and>
     seen_activities w \<subseteq> produced_by g e0 \<and>
     (\<forall>e \<in> seen_entities w - set (stack w). set_option (generator_of g e) \<subseteq> seen_activities w) \<and>
     (\<forall>act \<in> seen_activities w. inputs_of g act \<subseteq> seen_entities w)"

lemma walk_inv_visit:
  assumes inv: "walk_inv g e0 w" and st: "stack w = eid # rest"
  shows "walk_inv g e0 (visit g eid (w\<lparr>stack := rest\<rparr>))"
proof (cases "generator_of g eid")
  case None
  then have "visit g eid (w\<lparr>stack := rest\<rparr>) = w\<lparr>stack := rest\<rparr>" by (simp add: visit_skip)
  with inv st None show ?thesis by (auto simp: walk_inv_def)
next
  case (Some act)
  have up: "upstream g e0 eid" using inv st by (auto simp: walk_inv_def)
  show ?thesis
  proof (cases "act \<in> seen_activities w")
    case True
    with Some have "visit g eid (w\<lparr>stack := rest\<rparr>) = w\<lparr>stack := rest\<rparr>" by (simp add: visit_skip)
    with inv st Some True show ?thesis by (auto simp: walk_inv_def)
  next
    case False
    let ?v = "visit g eid (w\<lparr>stack := rest\<rparr>)"
    have v: "seen_activities ?v = insert act (seen_activities w)"
      "ancestors_found ?v = ancestors_found w @ [act]"
      "seen_entities ?v = seen_entities w \<union> inputs_of g act"
      "set (stack ?v) = set rest \<union> (inputs_of g act - seen_entities w)"
      using visit_new [of g eid act "w\<lparr>stack := rest\<rparr>"] Some False by simp_all
    have "act \<in> produced_by g e0" using up Some by (auto simp: produced_by_def)
    moreover have "\<forall>u \<in> inputs_of g act. upstream g e0 u" using up Some by (auto intro: upstream.step)
    ultimately show ?thesis
      using inv st Some False unfolding walk_inv_def v by auto
  qed
qed

lemma walk_inv_loop: "walk_inv g e0 w \<Longrightarrow> walk_inv g e0 (walk_loop g w) \<and> stack (walk_loop g w) = []"
proof (induction g w rule: walk_loop.induct)
  case (1 g w)
  show ?case
  proof (cases "stack w")
    case Nil
    with 1 show ?thesis by (simp add: walk_loop.simps [of g w])
  next
    case (Cons eid rest)
    with 1 show ?thesis by (simp add: walk_loop.simps [of g w] walk_inv_visit)
  qed
qed

lemma walk_complete:
  assumes "walk_inv g e0 w" "stack w = []"
  shows "seen_activities w = produced_by g e0"
proof -
  have "e \<in> seen_entities w" if "upstream g e0 e" for e
    using that
  proof induction
    case self
    with assms show ?case by (simp add: walk_inv_def)
  next
    case (step e act u)
    with assms have "act \<in> seen_activities w" by (auto simp: walk_inv_def)
    with step assms show ?case by (auto simp: walk_inv_def)
  qed
  with assms show ?thesis by (auto simp: walk_inv_def produced_by_def)
qed

lemma ancestors_correct: "distinct (ancestors g e) \<and> set (ancestors g e) = produced_by g e"
proof -
  let ?w = "\<lparr>ancestors_found = [], seen_activities = {}, seen_entities = {e}, stack = [e]\<rparr>"
  have "walk_inv g e ?w" by (simp add: walk_inv_def upstream.self)
  from walk_inv_loop [OF this] have w: "walk_inv g e (walk_loop g ?w)" "stack (walk_loop g ?w) = []"
    by simp_all
  have "seen_activities (walk_loop g ?w) = produced_by g e"
    using w by (rule walk_complete)
  with w(1) show ?thesis by (simp add: ancestors_def walk_inv_def)
qed

section \<open>Properties\<close>

text \<open>C35: on every graph, cyclic or not, the traversal returns, and it returns exactly the
  activities that transitively produced the entity (the generators of its upstream entities,
  also of activities the graph does not describe), each of them once.\<close>

theorem ancestors_exact:
  "set (ancestors g e) = {act. \<exists>e'. upstream g e e' \<and> generator_of g e' = Some act} \<and>
   distinct (ancestors g e)"
  using ancestors_correct [of g e] by (simp add: produced_by_def)

text \<open>C36: untrusted graphs cannot blow up the result: it is no longer than the number of
  entities, and it is empty for an entity that is unknown or has no generator.\<close>

theorem ancestors_bounded:
  "length (ancestors g e) \<le> fcard (fmdom (entities g)) \<and>
   (ancestors g e = [] \<longleftrightarrow> generator_of g e = None)"
proof
  have gen: "act \<in> (\<lambda>i. the (generator_of g i)) ` fset (fmdom (entities g))"
    if "generator_of g i = Some act" for i act
    using that by (force simp: generator_of_def bind_eq_Some_conv fmlookup_dom_iff intro: image_eqI [of _ _ i])
  have "length (ancestors g e) = card (produced_by g e)"
    using ancestors_correct [of g e] distinct_card by metis
  also have "\<dots> \<le> card ((\<lambda>i. the (generator_of g i)) ` fset (fmdom (entities g)))"
    using gen by (intro card_mono) (auto simp: produced_by_def)
  also have "\<dots> \<le> fcard (fmdom (entities g))"
    unfolding fcard.rep_eq by (rule card_image_le) simp
  finally show "length (ancestors g e) \<le> fcard (fmdom (entities g))" .
  show "ancestors g e = [] \<longleftrightarrow> generator_of g e = None"
  proof
    assume "ancestors g e = []"
    with ancestors_correct [of g e] have "produced_by g e = {}" by simp
    then have "generator_of g e \<noteq> Some act" for act
      using upstream.self [of g e] by (auto simp: produced_by_def)
    then show "generator_of g e = None" by (cases "generator_of g e") auto
  next
    assume "generator_of g e = None"
    have "generator_of g i = None" if "upstream g e i" for i
      using that \<open>generator_of g e = None\<close> by (induction rule: upstream.induct) auto
    then have "produced_by g e = {}" by (auto simp: produced_by_def)
    with ancestors_correct [of g e] show "ancestors g e = []" by simp
  qed
qed

end
