(* ===== verification/Crates.thy ===== *)
theory Crates
  imports Json_Value
begin

text \<open>
  The third-party crates the source calls, as one record of functions that the model takes as a
  parameter: \<open>base64\<close> (STANDARD engine), \<open>hex\<close>, \<open>sha2\<close>, \<open>serde_json\<close>'s text functions and
  \<open>ed25519_dalek\<close>. Nothing is assumed of them in the definitions. What a property relies on is
  named here, one predicate per crate, each stating documented behaviour.
\<close>

section \<open>The functions\<close>

record ('sk, 'vk) crates =
  b64_encode :: "bytes \<Rightarrow> string"
  b64_decode :: "string \<Rightarrow> string + bytes"
  hex_encode :: "bytes \<Rightarrow> string"
  hex_decode :: "string \<Rightarrow> string + bytes"
  sha256 :: "bytes \<Rightarrow> bytes"
  json_to_string :: "json \<Rightarrow> string"
  json_read :: "bytes \<Rightarrow> string + json"
  ed_sign :: "'sk \<Rightarrow> bytes \<Rightarrow> bytes"
  ed_public :: "'sk \<Rightarrow> 'vk"
  ed_verify :: "'vk \<Rightarrow> bytes \<Rightarrow> bytes \<Rightarrow> string + unit"

text \<open>
  \<open>json_read\<close> is the parser: what a text says, with the members of every object as they are
  listed, repeated ones included. A \<open>Deserialize\<close> implementation works on that; the one of \<open>Value\<close>
  builds maps in key order, where a later member replaces an earlier one of the same name.
\<close>

fun json_rebuild :: "json \<Rightarrow> json" where
  "json_rebuild (JObject m) = JObject (map_collect (map (\<lambda>(k, v). (k, json_rebuild v)) m))"
| "json_rebuild (JArray vs) = JArray (map json_rebuild vs)"
| "json_rebuild v = v"

definition json_from_slice :: "('sk, 'vk) crates \<Rightarrow> bytes \<Rightarrow> string + json" where
  "json_from_slice X text_bytes = map_sum id json_rebuild (json_read X text_bytes)"

section \<open>Documented behaviour\<close>

text \<open>
  \<open>base64\<close>, engine STANDARD (RFC 4648 section 4): decoding inverts encoding; the text is ASCII, a
  multiple of four characters long, ends in at most two \<open>=\<close>, which occur nowhere else, and
  never uses the two characters of the URL-safe alphabet.
\<close>

definition b64_text :: "string \<Rightarrow> bool" where
  "b64_text s \<longleftrightarrow> ascii s \<and> length s mod 4 = 0 \<and> CHR ''-'' \<notin> set s \<and> CHR ''_'' \<notin> set s \<and>
     (\<exists>body pad. s = body @ pad \<and> CHR ''='' \<notin> set body \<and> pad \<in> {[], ''='', ''==''})"

definition b64_laws :: "('sk, 'vk) crates \<Rightarrow> bool" where
  "b64_laws X \<longleftrightarrow> (\<forall>bs. b64_decode X (b64_encode X bs) = Inr bs \<and> b64_text (b64_encode X bs))"

text \<open>\<open>hex\<close>: lower-case hexadecimal digits; decoding inverts encoding.\<close>

definition hex_laws :: "('sk, 'vk) crates \<Rightarrow> bool" where
  "hex_laws X \<longleftrightarrow>
     (\<forall>bs. hex_decode X (hex_encode X bs) = Inr bs \<and> set (hex_encode X bs) \<subseteq> set ''0123456789abcdef'')"

text \<open>\<open>ed25519_dalek\<close>: signatures are 64 bytes and verify under the matching public key.\<close>

definition ed_laws :: "('sk, 'vk) crates \<Rightarrow> bool" where
  "ed_laws X \<longleftrightarrow> (\<forall>k m. length (ed_sign X k m) = 64 \<and> ed_verify X (ed_public X k) m (ed_sign X k m) = Inr ())"

text \<open>
  \<open>serde_json::to_string\<close> on leaves (RFC 8259 lexical grammar): the three literals; a number is
  a non-empty run of number characters and different numbers print differently; a string
  literal starts with a quotation mark and ends at the first unescaped one, so nothing that
  follows can change how it is read.
\<close>

definition number_chars :: string where
  "number_chars = ''0123456789+-.eE''"

definition json_lexical :: "(json \<Rightarrow> string) \<Rightarrow> bool" where
  "json_lexical ts \<longleftrightarrow>
     ts JNull = ''null'' \<and> ts (JBool True) = ''true'' \<and> ts (JBool False) = ''false'' \<and>
     (\<forall>n. number_ok n \<longrightarrow> ts (JNumber n) \<noteq> [] \<and> set (ts (JNumber n)) \<subseteq> set number_chars) \<and>
     (\<forall>n n'. number_ok n \<longrightarrow> number_ok n' \<longrightarrow> ts (JNumber n) = ts (JNumber n') \<longrightarrow> n = n') \<and>
     (\<forall>s. ts (JString s) \<noteq> [] \<and> hd (ts (JString s)) = CHR 0x22) \<and>
     (\<forall>s s' x y. utf8_valid s \<longrightarrow> utf8_valid s' \<longrightarrow> ts (JString s) @ x = ts (JString s') @ y \<longrightarrow> s = s' \<and> x = y)"

text \<open>Compact JSON text of a value whose objects list their members in the order given.\<close>

fun join :: "string \<Rightarrow> string list \<Rightarrow> string" where
  "join sep [] = []"
| "join sep [s] = s"
| "join sep (s # t # ts) = s @ sep @ join sep (t # ts)"

fun json_render :: "(json \<Rightarrow> string) \<Rightarrow> json \<Rightarrow> string" where
  "json_render ts (JObject m) =
     ''{'' @ join '','' (map (\<lambda>(k, v). ts (JString k) @ '':'' @ json_render ts v) m) @ ''}''"
| "json_render ts (JArray vs) = ''['' @ join '','' (map (json_render ts) vs) @ '']''"
| "json_render ts v = ts v"

fun json_strings_ok :: "json \<Rightarrow> bool" where
  "json_strings_ok (JString s) = utf8_valid s"
| "json_strings_ok (JNumber n) = number_ok n"
| "json_strings_ok (JArray vs) = (\<forall>v \<in> set vs. json_strings_ok v)"
| "json_strings_ok (JObject m) = (distinct (map fst m) \<and> (\<forall>(k, v) \<in> set m. utf8_valid k \<and> json_strings_ok v))"
| "json_strings_ok _ = True"

text \<open>
  The parser of \<open>serde_json\<close> reads the text \<open>to_string\<close> would print, with the members of an
  object in any order, back to the value with its members in that order. The documented recursion limit of 128 admits 127
  nested containers; floating point numbers are left out because without the feature
  \<open>float_roundtrip\<close> they may come back changed in the last bit.
\<close>

definition json_depth_limit :: nat where
  "json_depth_limit = 127"

definition json_parses :: "('sk, 'vk) crates \<Rightarrow> bool" where
  "json_parses X \<longleftrightarrow>
     (\<forall>v. json_strings_ok v \<longrightarrow> json_integral v \<longrightarrow> json_depth v \<le> json_depth_limit \<longrightarrow>
        json_read X (json_render (json_to_string X) v) = Inr v)"

lemma json_parses_value:
  assumes "json_parses X" "json_strings_ok v" "json_integral v" "json_depth v \<le> json_depth_limit"
  shows "json_from_slice X (json_render (json_to_string X) v) = Inr (json_rebuild v)"
  using assms by (simp add: json_parses_def json_from_slice_def)

text \<open>Everything the signing round trip relies on.\<close>

definition crate_laws :: "('sk, 'vk) crates \<Rightarrow> bool" where
  "crate_laws X \<longleftrightarrow> b64_laws X \<and> hex_laws X \<and> ed_laws X \<and> json_parses X"

end
