(* ===== verification/Canonical_Json.thy ===== *)
theory Canonical_Json
  imports Crates "HOL-Library.Multiset"
begin

text \<open>
  \<open>canonical_json\<close> and \<open>compare_utf16\<close> of \<open>crates/aep-core/src/dsse.rs\<close>: RFC 8785 member order
  over \<open>serde_json\<close>'s leaf texts. The comparator is a total order on strings (interpretation of
  \<open>key_order\<close>), the canonical text is ordinary JSON text of the same value with its members
  re-ordered, and it determines the value.
\<close>

section \<open>Member order\<close>

definition compare_utf16 :: "string \<Rightarrow> string \<Rightarrow> ordering" where
  "compare_utf16 a b = slice_cmp (encode_utf16 a) (encode_utf16 b)"

interpretation utf16: key_order compare_utf16 utf8_valid
proof
  show "compare_utf16 b a = reverse_ordering (compare_utf16 a b)" for a b
    unfolding compare_utf16_def by (rule slice_cmp_reverse)
  show "compare_utf16 a b \<noteq> Greater \<Longrightarrow> compare_utf16 b c \<noteq> Greater \<Longrightarrow> compare_utf16 a c \<noteq> Greater" for a b c
    unfolding compare_utf16_def slice_cmp_not_Greater by (rule order_trans)
  show "utf8_valid a \<Longrightarrow> utf8_valid b \<Longrightarrow> compare_utf16 a b = Equal \<Longrightarrow> a = b" for a b
    by (simp add: compare_utf16_def encode_utf16_inject)
qed

definition compare_entries :: "string \<times> 'v \<Rightarrow> string \<times> 'v \<Rightarrow> ordering" where
  "compare_entries a b = compare_utf16 (fst a) (fst b)"

interpretation entry_order: comparator compare_entries
proof
  show "compare_entries b a = reverse_ordering (compare_entries a b)" for a b :: "string \<times> 'v"
    unfolding compare_entries_def by (rule utf16.cmp_reverse)
  show "compare_entries a b \<noteq> Greater \<Longrightarrow> compare_entries b c \<noteq> Greater \<Longrightarrow> compare_entries a c \<noteq> Greater"
    for a b c :: "string \<times> 'v"
    unfolding compare_entries_def by (rule utf16.cmp_trans)
qed

lemma map_fst_insert_by: "map fst (insert_by compare_entries e es) = insert_by compare_utf16 (fst e) (map fst es)"
  by (induction es) (simp_all add: compare_entries_def)

lemma map_fst_sort_by: "map fst (sort_by compare_entries es) = sort_by compare_utf16 (map fst es)"
  by (induction es) (simp_all add: map_fst_insert_by)

lemma mset_insert_by: "mset (insert_by cmp x xs) = add_mset x (mset xs)"
  by (induction xs) auto

lemma mset_sort_by: "mset (sort_by cmp xs) = mset xs"
  by (induction xs) (simp_all add: mset_insert_by)

section \<open>The canonical text\<close>

text \<open>
  The source sorts the keys and looks each one up in the map; as keys are distinct, this lists
  the entries in the order of their keys.
\<close>

fun canonical_json_value :: "(json \<Rightarrow> string) \<Rightarrow> json \<Rightarrow> string" where
  "canonical_json_value ts (JObject m) =
     ''{'' @ join '','' (map (\<lambda>(k, v). ts (JString k) @ '':'' @ canonical_json_value ts v)
                         (sort_by compare_entries m)) @ ''}''"
| "canonical_json_value ts (JArray arr) = ''['' @ join '','' (map (canonical_json_value ts) arr) @ '']''"
| "canonical_json_value ts v = ts v"

definition canonical_json :: "('sk, 'vk) crates \<Rightarrow> json \<Rightarrow> string" where
  "canonical_json X v = canonical_json_value (json_to_string X) v"

fun canonical_order :: "json \<Rightarrow> json" where
  "canonical_order (JObject m) = JObject (map (\<lambda>(k, v). (k, canonical_order v)) (sort_by compare_entries m))"
| "canonical_order (JArray vs) = JArray (map canonical_order vs)"
| "canonical_order v = v"

lemma canonical_json_render: "canonical_json_value ts v = json_render ts (canonical_order v)"
proof (induction ts v rule: canonical_json_value.induct)
  case (1 ts m)
  then have "map (\<lambda>(k, v). ts (JString k) @ '':'' @ canonical_json_value ts v) (sort_by compare_entries m)
      = map (\<lambda>(k, v). ts (JString k) @ '':'' @ json_render ts v)
          (map (\<lambda>(k, v). (k, canonical_order v)) (sort_by compare_entries m))"
    by (auto split: prod.splits)
  then show ?case by (simp only: canonical_json_value.simps canonical_order.simps json_render.simps)
next
  case (2 ts vs)
  then show ?case by (simp cong: map_cong)
qed simp_all

lemma fst_map_snd: "map fst (map (\<lambda>(k, v). (k, f v)) es) = map fst es"
  by (induction es) auto

text \<open>Re-ordering members loses nothing: rebuilding the maps gives the value back.\<close>

lemma json_rebuild_canonical_order: "json_ok v \<Longrightarrow> json_rebuild (canonical_order v) = v"
proof (induction v rule: canonical_order.induct)
  case (1 m)
  from "1.prems" have ok: "map_ok m" by simp
  have IH: "json_rebuild (canonical_order v) = v" if "(k, v) \<in> set m" for k v
    using "1.IH" [of "(k, v)" k v] "1.prems" that by auto
  let ?es = "map (\<lambda>(k, v). (k, json_rebuild v)) (map (\<lambda>(k, v). (k, canonical_order v)) (sort_by compare_entries m))"
  have es: "?es = sort_by compare_entries m"
    by (auto intro!: map_idI simp: IH simp del: set_sort_by) (use IH in auto)
  have "map_of (map_collect (sort_by compare_entries m)) = map_of m"
  proof -
    have d: "distinct (map fst (sort_by compare_entries m))"
      using map_ok_distinct [OF ok] by (simp add: map_fst_sort_by)
    then have "map_of (map_collect (sort_by compare_entries m)) = map_of (sort_by compare_entries m)"
      by (simp add: map_of_map_collect map_of_rev)
    also have "\<dots> = map_of m"
      using d map_ok_distinct [OF ok] by (intro map_of_inject_set [THEN iffD2]) simp_all
    finally show ?thesis .
  qed
  then have "map_collect (sort_by compare_entries m) = m"
    using ok by (intro map_ok_eqI) simp_all
  then show ?case using es by simp
next
  case (2 vs)
  then show ?case by (auto intro: map_idI)
qed simp_all

lemma map_fst_canonical_order:
  "map fst (map (\<lambda>(k, v). (k, canonical_order v)) (sort_by compare_entries m)) = sort_by compare_utf16 (map fst m)"
  by (simp only: fst_map_snd map_fst_sort_by)

lemma canonical_order_strings_ok: "json_ok v \<Longrightarrow> json_strings_ok (canonical_order v)"
proof (induction v rule: canonical_order.induct)
  case (1 m)
  then have "distinct (map fst (map (\<lambda>(k, v). (k, canonical_order v)) (sort_by compare_entries m)))"
    unfolding map_fst_canonical_order by (simp add: map_ok_distinct)
  with 1 show ?case by fastforce
qed auto

lemma canonical_order_integral: "json_integral v \<Longrightarrow> json_integral (canonical_order v)"
  by (induction v rule: canonical_order.induct) fastforce+

lemma canonical_order_depth: "json_depth v \<le> n \<Longrightarrow> json_depth (canonical_order v) \<le> n"
proof (induction v arbitrary: n rule: canonical_order.induct)
  case (1 m)
  then show ?case
    by (simp only: canonical_order.simps json_depth_object_le) fastforce
next
  case (2 vs)
  then show ?case
    by (simp only: canonical_order.simps json_depth_array_le) fastforce
qed simp_all

section \<open>The text determines the value\<close>

text \<open>What may follow a value inside a text: nothing, or one of the structural characters.\<close>

definition delimited :: "string \<Rightarrow> bool" where
  "delimited x \<longleftrightarrow> x = [] \<or> hd x \<in> set '',]}''"

lemma delimited_simps [simp]: "delimited []" "delimited (c # x) \<longleftrightarrow> c \<in> set '',]}''"
  by (simp_all add: delimited_def)

definition reads_uniquely :: "('a \<Rightarrow> string) \<Rightarrow> ('a \<Rightarrow> bool) \<Rightarrow> 'a \<Rightarrow> bool" where
  "reads_uniquely f ok a \<longleftrightarrow>
     (\<forall>b x y. ok b \<longrightarrow> delimited x \<longrightarrow> delimited y \<longrightarrow> f a @ x = f b @ y \<longrightarrow> a = b \<and> x = y)"

lemma reads_uniquelyD:
  "reads_uniquely f ok a \<Longrightarrow> ok b \<Longrightarrow> delimited x \<Longrightarrow> delimited y \<Longrightarrow> f a @ x = f b @ y \<Longrightarrow> a = b \<and> x = y"
  by (simp add: reads_uniquely_def)

lemma join_Cons: "join sep (s # ss) = s @ (if ss = [] then [] else sep @ join sep ss)"
  by (cases ss) simp_all

text \<open>A comma-separated list up to its closing bracket is read item by item.\<close>

lemma join_reads_uniquely:
  assumes c: "c = CHR '']'' \<or> c = CHR ''}''"
    and f: "\<And>a. ok a \<Longrightarrow> f a \<noteq> [] \<and> hd (f a) \<notin> set '',]}''"
    and as: "\<forall>a \<in> set as. ok a \<and> reads_uniquely f ok a" and bs: "\<forall>b \<in> set bs. ok b"
    and eq: "join '','' (map f as) @ c # x = join '','' (map f bs) @ c # y"
  shows "as = bs \<and> x = y"
  using as bs eq
proof (induction as arbitrary: bs)
  case Nil
  then show ?case
    using c f [of "hd bs"] by (cases bs) (auto simp: join_Cons hd_append dest!: arg_cong [where f = hd])
next
  case (Cons a as)
  show ?case
  proof (cases bs)
    case Nil
    with Cons.prems c f [of a] show ?thesis
      by (auto simp: join_Cons hd_append dest!: arg_cong [where f = hd])
  next
    case bs: (Cons b bs')
    let ?r = "\<lambda>as x. (if as = [] then [] else '','' @ join '','' (map f as)) @ c # x"
    have d: "delimited (?r as x)" for as x using c by auto
    have "f a @ ?r as x = f b @ ?r bs' y"
      using Cons.prems(3) by (simp add: bs join_Cons)
    with Cons.prems have ab: "a = b" and r: "?r as x = ?r bs' y"
      using reads_uniquelyD [of f ok a b] d bs by auto
    from r c have "(as = []) = (bs' = [])" by (auto split: if_splits)
    with r have "join '','' (map f as) @ c # x = join '','' (map f bs') @ c # y"
      by (auto split: if_splits)
    with Cons.IH [of bs'] Cons.prems bs have "as = bs' \<and> x = y" by simp
    with ab bs show ?thesis by simp
  qed
qed

text \<open>The first character tells what kind of value follows.\<close>

fun json_kind :: "json \<Rightarrow> string" where
  "json_kind JNull = ''n''"
| "json_kind (JBool True) = ''t''"
| "json_kind (JBool False) = ''f''"
| "json_kind (JNumber n) = number_chars"
| "json_kind (JString s) = [CHR 0x22]"
| "json_kind (JArray vs) = ''[''"
| "json_kind (JObject m) = ''{''"

lemma json_kind_unique: "c \<in> set (json_kind v) \<Longrightarrow> c \<in> set (json_kind w) \<Longrightarrow> json_kind v = json_kind w"
  by (cases v rule: json_kind.cases; cases w rule: json_kind.cases) (auto simp: number_chars_def)

lemma json_kind_not_delimiter: "c \<in> set (json_kind v) \<Longrightarrow> c \<notin> set '',]}''"
  by (cases v rule: json_kind.cases) (auto simp: number_chars_def)

lemma json_render_hd:
  assumes "json_lexical ts" "json_strings_ok v"
  shows "json_render ts v \<noteq> []" and "hd (json_render ts v) \<in> set (json_kind v)"
proof -
  have "json_render ts v \<noteq> [] \<and> hd (json_render ts v) \<in> set (json_kind v)"
  proof (cases v)
    case (JBool b)
    with assms show ?thesis by (cases b) (simp_all add: json_lexical_def)
  next
    case (JNumber n)
    with assms have "ts (JNumber n) \<noteq> []" "set (ts (JNumber n)) \<subseteq> set number_chars"
      by (simp_all add: json_lexical_def)
    with JNumber show ?thesis using hd_in_set [of "ts (JNumber n)"] by auto
  qed (use assms in \<open>simp_all add: json_lexical_def\<close>)
  then show "json_render ts v \<noteq> []" and "hd (json_render ts v) \<in> set (json_kind v)" by simp_all
qed

lemma json_render_start:
  "json_lexical ts \<Longrightarrow> json_strings_ok v \<Longrightarrow> json_render ts v \<noteq> [] \<and> hd (json_render ts v) \<notin> set '',]}''"
  using json_render_hd json_kind_not_delimiter by blast

lemma json_render_same_kind:
  assumes "json_lexical ts" "json_strings_ok v" "json_strings_ok w" "json_render ts v @ x = json_render ts w @ y"
  shows "json_kind v = json_kind w"
proof (rule json_kind_unique)
  show "hd (json_render ts v) \<in> set (json_kind v)" using assms(1,2) by (rule json_render_hd)
  have "hd (json_render ts v) = hd (json_render ts w)"
    using arg_cong [OF assms(4), of hd] json_render_hd(1) [OF assms(1,2)] json_render_hd(1) [OF assms(1,3)] by simp
  then show "hd (json_render ts v) \<in> set (json_kind w)"
    using json_render_hd(2) [OF assms(1,3)] by simp
qed

lemma json_kind_leaf:
  "json_kind JNull = json_kind w \<Longrightarrow> w = JNull"
  "json_kind (JBool b) = json_kind w \<Longrightarrow> w = JBool b"
  by ((cases b)?; cases w rule: json_kind.cases; simp add: number_chars_def)+

lemma json_kind_shape:
  "json_kind (JNumber n) = json_kind w \<Longrightarrow> \<exists>n'. w = JNumber n'"
  "json_kind (JString s) = json_kind w \<Longrightarrow> \<exists>s'. w = JString s'"
  "json_kind (JArray vs) = json_kind w \<Longrightarrow> \<exists>ws. w = JArray ws"
  "json_kind (JObject m) = json_kind w \<Longrightarrow> \<exists>m'. w = JObject m'"
  by (cases w rule: json_kind.cases; simp add: number_chars_def)+

definition valid_entry :: "string \<times> json \<Rightarrow> bool" where
  "valid_entry e \<longleftrightarrow> utf8_valid (fst e) \<and> json_strings_ok (snd e)"

lemma json_lexical_stringD:
  "json_lexical ts \<Longrightarrow> utf8_valid s \<Longrightarrow> utf8_valid s' \<Longrightarrow> ts (JString s) @ x = ts (JString s') @ y \<Longrightarrow> s = s' \<and> x = y"
  unfolding json_lexical_def by blast

lemma json_lexical_numberD:
  "json_lexical ts \<Longrightarrow> number_ok n \<Longrightarrow> number_ok n' \<Longrightarrow> ts (JNumber n) = ts (JNumber n') \<Longrightarrow> n = n'"
  unfolding json_lexical_def by blast

lemma json_lexical_number_chars:
  "json_lexical ts \<Longrightarrow> number_ok n \<Longrightarrow> \<forall>c \<in> set (ts (JNumber n)). c \<in> set number_chars"
  unfolding json_lexical_def by blast

lemma json_lexical_string_hd:
  "json_lexical ts \<Longrightarrow> ts (JString s) \<noteq> [] \<and> hd (ts (JString s)) = CHR 0x22"
  unfolding json_lexical_def by blast

lemma delimited_not_number: "delimited xs \<Longrightarrow> xs = [] \<or> hd xs \<notin> set number_chars"
  by (auto simp: delimited_def number_chars_def)

lemma entry_render:
  "(\<lambda>(k, v). ts (JString k) @ '':'' @ json_render ts v) = (\<lambda>e. ts (JString (fst e)) @ '':'' @ json_render ts (snd e))"
  by auto

text \<open>Two texts that agree start with the same kind of value, so each kind can be read on its own.\<close>

lemma render_uniqueI:
  assumes "json_lexical ts" "json_strings_ok v"
    and "\<And>w x y. json_strings_ok w \<Longrightarrow> json_kind v = json_kind w \<Longrightarrow> delimited x \<Longrightarrow> delimited y \<Longrightarrow>
      json_render ts v @ x = json_render ts w @ y \<Longrightarrow> v = w \<and> x = y"
  shows "reads_uniquely (json_render ts) json_strings_ok v"
  unfolding reads_uniquely_def
  using assms(3) json_render_same_kind [OF assms(1,2)] by blast

lemma leaf_reads_uniquely:
  assumes "json_lexical ts"
  shows "reads_uniquely (json_render ts) json_strings_ok JNull"
    and "reads_uniquely (json_render ts) json_strings_ok (JBool c)"
  by (rule render_uniqueI [OF assms]; use json_kind_leaf in force)+

lemma number_reads_uniquely:
  assumes lex: "json_lexical ts" and n: "number_ok n"
  shows "reads_uniquely (json_render ts) json_strings_ok (JNumber n)"
proof (rule render_uniqueI [OF lex])
  fix w x y
  assume w: "json_strings_ok w" "json_kind (JNumber n) = json_kind w" and d: "delimited x" "delimited y"
    and eq: "json_render ts (JNumber n) @ x = json_render ts w @ y"
  obtain n' where n': "w = JNumber n'" "number_ok n'"
    using json_kind_shape(1) [OF w(2)] w(1) by auto
  have "ts (JNumber n) = ts (JNumber n') \<and> x = y"
    by (rule span_append_inject [where p = "\<lambda>c. c \<in> set number_chars"])
      (use eq n' in simp_all, (rule json_lexical_number_chars [OF lex] delimited_not_number d n n')+)
  with n' show "JNumber n = w \<and> x = y" using json_lexical_numberD [OF lex n n'(2)] by blast
qed (use n in simp)

lemma string_reads_uniquely:
  assumes lex: "json_lexical ts" and s: "utf8_valid s"
  shows "reads_uniquely (json_render ts) json_strings_ok (JString s)"
proof (rule render_uniqueI [OF lex])
  fix w x y
  assume w: "json_strings_ok w" "json_kind (JString s) = json_kind w"
    and eq: "json_render ts (JString s) @ x = json_render ts w @ y"
  obtain s' where "w = JString s'" "utf8_valid s'" using json_kind_shape(2) [OF w(2)] w(1) by auto
  with eq show "JString s = w \<and> x = y" using json_lexical_stringD [OF lex s, of s' x y] by simp
qed (use s in simp)

lemma array_reads_uniquely:
  assumes lex: "json_lexical ts"
    and vs: "\<forall>v \<in> set vs. json_strings_ok v \<and> reads_uniquely (json_render ts) json_strings_ok v"
  shows "reads_uniquely (json_render ts) json_strings_ok (JArray vs)"
proof (rule render_uniqueI [OF lex])
  fix w x y
  assume w: "json_strings_ok w" "json_kind (JArray vs) = json_kind w"
    and eq: "json_render ts (JArray vs) @ x = json_render ts w @ y"
  obtain ws where ws: "w = JArray ws" using json_kind_shape(3) [OF w(2)] by blast
  have "vs = ws \<and> x = y"
    by (rule join_reads_uniquely [where c = "CHR '']''" and f = "json_render ts" and ok = json_strings_ok])
      (use vs w(1) eq ws in simp_all, rule json_render_start [OF lex, simplified], assumption)
  with ws show "JArray vs = w \<and> x = y" by simp
qed (use vs in simp)

lemma entry_reads_uniquely:
  assumes lex: "json_lexical ts" and e: "valid_entry e"
    and v: "reads_uniquely (json_render ts) json_strings_ok (snd e)"
  shows "reads_uniquely (\<lambda>e. ts (JString (fst e)) @ '':'' @ json_render ts (snd e)) valid_entry e"
  unfolding reads_uniquely_def
proof (intro allI impI)
  fix e' x y
  let ?f = "\<lambda>e. ts (JString (fst e)) @ '':'' @ json_render ts (snd e)"
  assume ok: "valid_entry e'" and d: "delimited x" "delimited y" and eq: "?f e @ x = ?f e' @ y"
  with e have "fst e = fst e' \<and> '':'' @ json_render ts (snd e) @ x = '':'' @ json_render ts (snd e') @ y"
    by (intro json_lexical_stringD [OF lex]) (simp_all add: valid_entry_def)
  then show "e = e' \<and> x = y"
    using reads_uniquelyD [of _ _ "snd e" "snd e'"] v ok d by (auto simp: valid_entry_def prod_eq_iff)
qed

lemma object_reads_uniquely:
  assumes lex: "json_lexical ts" and m: "json_strings_ok (JObject m)"
    and vs: "\<forall>e \<in> set m. reads_uniquely (json_render ts) json_strings_ok (snd e)"
  shows "reads_uniquely (json_render ts) json_strings_ok (JObject m)"
proof (rule render_uniqueI [OF lex m])
  let ?f = "\<lambda>e. ts (JString (fst e)) @ '':'' @ json_render ts (snd e)"
  fix w x y
  assume w: "json_strings_ok w" "json_kind (JObject m) = json_kind w"
    and eq: "json_render ts (JObject m) @ x = json_render ts w @ y"
  obtain m' where m': "w = JObject m'" using json_kind_shape(4) [OF w(2)] by blast
  have "m = m' \<and> x = y"
  proof (rule join_reads_uniquely [where c = "CHR ''}''" and f = ?f and ok = valid_entry])
    show "?f a \<noteq> [] \<and> hd (?f a) \<notin> set '',]}''" for a
      using json_lexical_string_hd [OF lex] by simp
    show "\<forall>a \<in> set m. valid_entry a \<and> reads_uniquely ?f valid_entry a"
    proof
      fix a assume a: "a \<in> set m"
      with m have "valid_entry a" by (auto simp: valid_entry_def)
      with a vs show "valid_entry a \<and> reads_uniquely ?f valid_entry a"
        using entry_reads_uniquely [OF lex, of a] by blast
    qed
    show "\<forall>a \<in> set m'. valid_entry a"
      using w(1) m' by (auto simp: valid_entry_def)
    show "join '','' (map ?f m) @ CHR ''}'' # x = join '','' (map ?f m') @ CHR ''}'' # y"
      using eq unfolding m' json_render.simps entry_render by simp
  qed simp
  with m' show "JObject m = w \<and> x = y" by simp
qed

lemma json_render_reads_uniquely:
  assumes "json_lexical ts"
  shows "json_strings_ok v \<Longrightarrow> reads_uniquely (json_render ts) json_strings_ok v"
proof (induction v)
  case (JArray vs)
  then show ?case by (intro array_reads_uniquely [OF assms]) simp
next
  case (JObject m)
  then have "\<forall>e \<in> set m. reads_uniquely (json_render ts) json_strings_ok (snd e)"
    by (auto simp: snds.simps)
  with JObject.prems show ?case by (rule object_reads_uniquely [OF assms])
qed (simp_all add: leaf_reads_uniquely number_reads_uniquely string_reads_uniquely assms)

lemma canonical_json_value_inject:
  assumes "json_lexical ts" "json_ok v" "json_ok w"
    and "canonical_json_value ts v = canonical_json_value ts w"
  shows "v = w"
proof -
  have "canonical_order v = canonical_order w"
    using reads_uniquelyD [OF json_render_reads_uniquely [OF assms(1)], of "canonical_order v" "canonical_order w" "[]" "[]"]
      assms canonical_order_strings_ok by (simp add: canonical_json_render)
  then show ?thesis
    using assms(2,3) json_rebuild_canonical_order by metis
qed

section \<open>Agreement with the key order of the map\<close>

fun json_ascii_keys :: "json \<Rightarrow> bool" where
  "json_ascii_keys (JArray vs) = (\<forall>v \<in> set vs. json_ascii_keys v)"
| "json_ascii_keys (JObject m) = (\<forall>(k, v) \<in> set m. ascii k \<and> json_ascii_keys v)"
| "json_ascii_keys _ = True"

lemma less_map_of_char: "(a :: string) < b \<Longrightarrow> map (of_char :: char \<Rightarrow> nat) a < map of_char b"
proof (induction a arbitrary: b)
  case Nil
  then show ?case by (cases b) simp_all
next
  case (Cons x a)
  then show ?case by (cases b) (auto simp: less_char_def)
qed

lemma compare_utf16_ascii: "ascii a \<Longrightarrow> ascii b \<Longrightarrow> a < b \<Longrightarrow> compare_utf16 a b \<noteq> Greater"
  using less_map_of_char [of a b]
  by (simp only: compare_utf16_def slice_cmp_not_Greater encode_utf16_ascii less_imp_le)

lemma sort_ascii_entries:
  assumes "map_ok m" "\<And>k v. (k, v) \<in> set m \<Longrightarrow> ascii k"
  shows "sort_by compare_entries m = m"
proof (rule entry_order.sort_by_sorted)
  have "sorted_wrt (\<lambda>a b. fst a < fst b) m"
    using assms(1) by (simp add: map_ok_def sorted_wrt_map)
  then show "sorted_wrt entry_order.le m"
    by (rule sorted_wrt_mono_rel [rotated])
      (use assms(2) compare_utf16_ascii in \<open>auto simp: entry_order.le_def compare_entries_def\<close>)
qed

lemma canonical_order_ascii: "json_ok v \<Longrightarrow> json_ascii_keys v \<Longrightarrow> canonical_order v = v"
proof (induction v rule: canonical_order.induct)
  case (1 m)
  have s: "sort_by compare_entries m = m" using "1.prems" by (intro sort_ascii_entries) auto
  have "canonical_order v = v" if "(k, v) \<in> set m" for k v
    using "1.IH" [of "(k, v)" k v] "1.prems" that by (auto simp: s)
  with s show ?case by (auto intro!: map_idI)
next
  case (2 vs)
  then show ?case by (auto intro: map_idI)
qed simp_all

section \<open>Properties\<close>

text \<open>C11: canonicalization loses nothing: two well-formed JSON values (map entries in key
order, valid UTF-8) have the same canonical text exactly when they are the same value, for any
leaf printer that follows the lexical grammar of RFC 8259.\<close>

theorem canonical_json_injective:
  assumes "json_lexical (json_to_string X)" "json_ok v" "json_ok w"
  shows "canonical_json X v = canonical_json X w \<longleftrightarrow> v = w"
  using assms canonical_json_value_inject by (auto simp: canonical_json_def)

text \<open>C13: the canonical text of an object lists each of its members exactly once, in
ascending order of the UTF-16 code units of the keys (RFC 8785 section 3.2.3).\<close>

theorem canonical_json_members:
  "\<exists>ms. canonical_json X (JObject m) =
        ''{'' @ join '','' (map (\<lambda>(k, v). json_to_string X (JString k) @ '':'' @ canonical_json X v) ms) @ ''}'' \<and>
      mset ms = mset m \<and> sorted_wrt (\<lambda>a b. encode_utf16 (fst a) \<le> encode_utf16 (fst b)) ms"
proof (intro exI conjI)
  show "canonical_json X (JObject m) = ''{'' @ join '','' (map (\<lambda>(k, v).
      json_to_string X (JString k) @ '':'' @ canonical_json X v) (sort_by compare_entries m)) @ ''}''"
    by (simp add: canonical_json_def)
  show "mset (sort_by compare_entries m) = mset m" by (rule mset_sort_by)
  have "entry_order.le = (\<lambda>a b. encode_utf16 (fst a) \<le> encode_utf16 (fst (b :: string \<times> json)))"
    by (simp add: fun_eq_iff entry_order.le_def compare_entries_def compare_utf16_def slice_cmp_not_Greater)
  then show "sorted_wrt (\<lambda>a b. encode_utf16 (fst a) \<le> encode_utf16 (fst b)) (sort_by compare_entries m)"
    using entry_order.sorted_sort_by [of m] by (simp only:)
qed

text \<open>C12: parsing the canonical text of a well-formed value without floating point numbers
and at most 127 containers deep gives the value back.\<close>

theorem canonical_json_parses_back:
  assumes "json_parses X" "json_ok v" "json_integral v" "json_depth v \<le> json_depth_limit"
  shows "json_from_slice X (canonical_json X v) = Inr v"
  using assms json_rebuild_canonical_order [of v]
  by (simp add: json_parses_value canonical_json_def canonical_json_render
      canonical_order_strings_ok canonical_order_integral canonical_order_depth)

text \<open>Where all keys are ASCII the UTF-16 order and the byte order of the map agree, and
the canonical text is the compact text that lists every object in map order.\<close>

lemma canonical_json_ascii_keys:
  assumes "json_ok v" "json_ascii_keys v"
  shows "canonical_json X v = json_render (json_to_string X) v"
  using assms by (simp add: canonical_json_def canonical_json_render canonical_order_ascii)

end
