(* ===== verification/Deserialize.thy ===== *)
theory Deserialize
  imports Wire_Form Crates "HOL-Library.Monad_Syntax"
begin

text \<open>
  The derived \<open>Deserialize\<close> implementations of \<open>crates/aep-core/src/evidence.rs\<close> and
  \<open>recording.rs\<close>, as the attributes of the structs prescribe them. They work on what
  \<open>serde_json\<close>'s parser reports: an object is its members in the order of the text. \<open>None\<close> is an
  error; its message is not modelled.
\<close>

section \<open>Fields\<close>

text \<open>The values listed for a name. A declared field listed twice is an error.\<close>

definition members :: "string \<Rightarrow> (string \<times> json) list \<Rightarrow> json list" where
  "members k m = map snd (filter (\<lambda>(k', v). k' = k) m)"

definition field :: "'a option \<Rightarrow> (json \<Rightarrow> 'a option) \<Rightarrow> string \<Rightarrow> (string \<times> json) list \<Rightarrow> 'a option" where
  "field missing from k m =
     (case members k m of
        [] \<Rightarrow> missing
      | [v] \<Rightarrow> from v
      | _ \<Rightarrow> None)"

definition required :: "(json \<Rightarrow> 'a option) \<Rightarrow> string \<Rightarrow> (string \<times> json) list \<Rightarrow> 'a option" where
  "required from = field None from"

text \<open>An \<open>Option\<close> is \<open>None\<close> for a missing member and for \<open>null\<close>.\<close>

definition option_from :: "(json \<Rightarrow> 'a option) \<Rightarrow> json \<Rightarrow> 'a option option" where
  "option_from from v = (if v = JNull then Some None else map_option Some (from v))"

definition optional :: "(json \<Rightarrow> 'a option) \<Rightarrow> string \<Rightarrow> (string \<times> json) list \<Rightarrow> 'a option option" where
  "optional from = field (Some None) (option_from from)"

text \<open>The flattened catch-all map: the members no field declares, the last one of a name.\<close>

definition catch_all :: "string set \<Rightarrow> (string \<times> json) list \<Rightarrow> json_map" where
  "catch_all names m = map_collect (map (\<lambda>(k, v). (k, json_rebuild v)) (filter (\<lambda>(k, v). k \<notin> names) m))"

text \<open>
  A struct without a flattened field may also be given as an array of its fields in order;
  members of other names are ignored.
\<close>

fun struct_members :: "string list \<Rightarrow> json \<Rightarrow> (string \<times> json) list option" where
  "struct_members names (JObject m) = Some m"
| "struct_members names (JArray vs) = (if length vs = length names then Some (zip names vs) else None)"
| "struct_members names _ = None"

section \<open>Leaves\<close>

definition string_from_json :: "json \<Rightarrow> string option" where
  "string_from_json = as_str"

fun bool_from_json :: "json \<Rightarrow> bool option" where
  "bool_from_json (JBool b) = Some b"
| "bool_from_json _ = None"

fun u64_from_json :: "json \<Rightarrow> u64 option" where
  "u64_from_json (JNumber (PosInt n)) = Some n"
| "u64_from_json _ = None"

definition vec_from_json :: "(json \<Rightarrow> 'a option) \<Rightarrow> json \<Rightarrow> 'a list option" where
  "vec_from_json from v = do { vs \<leftarrow> as_array v; those (map from vs) }"

text \<open>A variant without data: its name, or an object that maps its name to \<open>null\<close>.\<close>

definition unit_variant :: "json \<Rightarrow> string option" where
  "unit_variant v =
     (case v of
        JString s \<Rightarrow> Some s
      | JObject [(s, JNull)] \<Rightarrow> Some s
      | _ \<Rightarrow> None)"

definition recording_mode_from_json :: "json \<Rightarrow> recording_mode option" where
  "recording_mode_from_json v = do {
     s \<leftarrow> unit_variant v;
     if s = ''validation'' then Some Validation
     else if s = ''delta'' then Some Delta
     else if s = ''full'' then Some Full
     else None }"

section \<open>Structs\<close>

definition capability_decision_from_json :: "json \<Rightarrow> capability_decision option" where
  "capability_decision_from_json v = do {
     m \<leftarrow> as_object v;
     cap \<leftarrow> required string_from_json ''capability'' m;
     subj \<leftarrow> required string_from_json ''subject'' m;
     res \<leftarrow> required string_from_json ''resource'' m;
     dec \<leftarrow> required string_from_json ''decision'' m;
     reason \<leftarrow> optional string_from_json ''reason_code'' m;
     deny \<leftarrow> optional string_from_json ''deny_reason_class'' m;
     Some \<lparr>capability = cap, subject = subj, resource = res, decision = dec, reason_code = reason,
       deny_reason_class = deny, cap_extra = catch_all capability_decision_names m\<rparr> }"

definition action_evidence_from_json :: "json \<Rightarrow> action_evidence option" where
  "action_evidence_from_json v = do {
     m \<leftarrow> as_object v;
     aid \<leftarrow> required string_from_json ''action_id'' m;
     tool \<leftarrow> required string_from_json ''tool_name'' m;
     changing \<leftarrow> required bool_from_json ''state_changing'' m;
     pre \<leftarrow> optional string_from_json ''precondition_digest'' m;
     res \<leftarrow> optional string_from_json ''result_digest'' m;
     ts \<leftarrow> required u64_from_json ''timestamp_ms'' m;
     parent \<leftarrow> optional string_from_json ''parent_action_id'' m;
     chain \<leftarrow> optional string_from_json ''causal_chain_id'' m;
     rmode \<leftarrow> required recording_mode_from_json ''recording_mode'' m;
     dec \<leftarrow> optional capability_decision_from_json ''capability_decision'' m;
     risk \<leftarrow> optional string_from_json ''mcp_header_risk'' m;
     class \<leftarrow> optional string_from_json ''side_effect_class'' m;
     Some \<lparr>action_id = aid, tool_name = tool, state_changing = changing, precondition_digest = pre,
       result_digest = res, timestamp_ms = ts, parent_action_id = parent, causal_chain_id = chain,
       act_recording_mode = rmode, act_capability_decision = dec, act_mcp_header_risk = risk,
       act_side_effect_class = class, act_extra = catch_all action_evidence_names m\<rparr> }"

definition aep_signature_from_json :: "json \<Rightarrow> aep_signature option" where
  "aep_signature_from_json v = do {
     m \<leftarrow> struct_members [''alg'', ''key_id'', ''sig''] v;
     a \<leftarrow> required string_from_json ''alg'' m;
     k \<leftarrow> required string_from_json ''key_id'' m;
     s \<leftarrow> required string_from_json ''sig'' m;
     Some \<lparr>alg = a, key_id = k, sig = s\<rparr> }"

definition dsse_signature_from_json :: "json \<Rightarrow> dsse_signature option" where
  "dsse_signature_from_json v = do {
     m \<leftarrow> struct_members [''keyid'', ''sig''] v;
     k \<leftarrow> required string_from_json ''keyid'' m;
     s \<leftarrow> required string_from_json ''sig'' m;
     Some \<lparr>keyid = k, dsse_sig = s\<rparr> }"

definition dsse_envelope_from_json :: "json \<Rightarrow> dsse_envelope option" where
  "dsse_envelope_from_json v = do {
     m \<leftarrow> struct_members [''payloadType'', ''payload'', ''signatures''] v;
     t \<leftarrow> required string_from_json ''payloadType'' m;
     p \<leftarrow> required string_from_json ''payload'' m;
     ss \<leftarrow> required (vec_from_json dsse_signature_from_json) ''signatures'' m;
     Some \<lparr>payload_type = t, payload = p, signatures = ss\<rparr> }"

definition aep_record_from_json :: "json \<Rightarrow> aep_record option" where
  "aep_record_from_json v = do {
     m \<leftarrow> as_object v;
     version \<leftarrow> required string_from_json ''schema_version'' m;
     run \<leftarrow> required string_from_json ''run_id'' m;
     trace \<leftarrow> optional string_from_json ''trace_id'' m;
     session \<leftarrow> optional string_from_json ''session_id'' m;
     env \<leftarrow> optional dsse_envelope_from_json ''dsse_envelope'' m;
     user \<leftarrow> optional string_from_json ''user_id'' m;
     authorized \<leftarrow> optional string_from_json ''authorized_by'' m;
     origin \<leftarrow> optional string_from_json ''authority_origin'' m;
     source \<leftarrow> optional string_from_json ''identity_source'' m;
     backing \<leftarrow> optional string_from_json ''attribution_backing'' m;
     floor \<leftarrow> optional string_from_json ''run_attribution_backing_floor'' m;
     observed \<leftarrow> optional (vec_from_json string_from_json) ''run_attribution_backing_observed'' m;
     count \<leftarrow> optional u64_from_json ''authorization_evidence_count'' m;
     class_max \<leftarrow> optional string_from_json ''run_side_effect_class_max'' m;
     rmode \<leftarrow> optional string_from_json ''recording_mode'' m;
     acts \<leftarrow> required (vec_from_json action_evidence_from_json) ''actions'' m;
     created \<leftarrow> required u64_from_json ''created_at_ms'' m;
     sgn \<leftarrow> optional aep_signature_from_json ''signature'' m;
     Some \<lparr>schema_version = version, run_id = run, trace_id = trace, session_id = session,
       dsse_envelope = env, user_id = user, authorized_by = authorized, authority_origin = origin,
       identity_source = source, attribution_backing = backing, run_attribution_backing_floor = floor,
       run_attribution_backing_observed = observed, authorization_evidence_count = count,
       rec_side_effect_class_max = class_max, rec_recording_mode = rmode, actions = acts,
       created_at_ms = created, signature = sgn, extra = catch_all aep_record_names m\<rparr> }"

section \<open>Text\<close>

text \<open>\<open>serde_json::from_slice::<T>\<close>; the parser's error is kept, a deserializer's is not.\<close>

definition from_slice :: "(json \<Rightarrow> 'a option) \<Rightarrow> ('sk, 'vk) crates \<Rightarrow> bytes \<Rightarrow> string + 'a" where
  "from_slice from X text_bytes =
     (case json_read X text_bytes of
        Inl e \<Rightarrow> Inl e
      | Inr v \<Rightarrow> (case from v of None \<Rightarrow> Inl ''data error'' | Some x \<Rightarrow> Inr x))"

definition aep_record_from_slice :: "('sk, 'vk) crates \<Rightarrow> bytes \<Rightarrow> string + aep_record" where
  "aep_record_from_slice = from_slice aep_record_from_json"

text \<open>\<open>serde_json::to_string\<close> of a record.\<close>

definition aep_record_to_string :: "('sk, 'vk) crates \<Rightarrow> aep_record \<Rightarrow> string" where
  "aep_record_to_string X r = json_render (json_to_string X) (aep_record_written r)"

definition action_evidence_to_string :: "('sk, 'vk) crates \<Rightarrow> action_evidence \<Rightarrow> string" where
  "action_evidence_to_string X a = json_render (json_to_string X) (action_evidence_written a)"

text \<open>An \<open>Option\<close> field without \<open>skip_serializing_if\<close> is written as \<open>null\<close>.\<close>

definition json_option :: "('a \<Rightarrow> json) \<Rightarrow> 'a option \<Rightarrow> json" where
  "json_option f x = (case x of None \<Rightarrow> JNull | Some y \<Rightarrow> f y)"

lemma option_from_string_option [simp]: "option_from string_from_json (json_option JString x) = Some x"
  by (cases x) (simp_all add: option_from_def json_option_def string_from_json_def)

lemma json_option_string [simp]:
  "json_strings_ok (json_option JString x) \<longleftrightarrow> (\<forall>s \<in> set (option_list x). utf8_valid s)"
  "json_plain n (json_option JString x)"
  by (cases x; simp add: json_option_def json_plain_def)+

section \<open>Types that can be written and read\<close>

text \<open>
  The contract of a type that derives both traits: what is written of an acceptable value is JSON
  the parser gives back, and the derived reader turns it into the value.
\<close>

locale wire_type =
  fixes written :: "'a \<Rightarrow> json"
    and from_json :: "json \<Rightarrow> 'a option"
    and acceptable :: "'a \<Rightarrow> bool"
  assumes written_back: "acceptable x \<Longrightarrow> from_json (written x) = Some x"
    and written_strings: "acceptable x \<Longrightarrow> json_strings_ok (written x)"
    and written_plain: "acceptable x \<Longrightarrow> json_plain json_depth_limit (written x)"
begin

lemma text_parses:
  "json_parses X \<Longrightarrow> acceptable x \<Longrightarrow> json_read X (json_render (json_to_string X) (written x)) = Inr (written x)"
  using written_strings [of x] written_plain [of x] unfolding json_parses_def json_plain_def by blast

lemma text_back:
  "json_parses X \<Longrightarrow> acceptable x \<Longrightarrow> from_slice from_json X (json_render (json_to_string X) (written x)) = Inr x"
  by (simp add: from_slice_def text_parses written_back)

lemma text_inject:
  assumes "json_parses X" "acceptable x" "acceptable y"
    and "json_render (json_to_string X) (written x) = json_render (json_to_string X) (written y)"
  shows "x = y"
proof -
  have "Inr x = (Inr y :: string + 'a)"
    unfolding text_back [OF assms(1,2), symmetric] text_back [OF assms(1,3), symmetric] assms(4) ..
  then show ?thesis by simp
qed

end

end
