(* ===== verification/Wire_Round_Trip.thy ===== *)
theory Wire_Round_Trip
  imports Deserialize
begin

text \<open>
  Facts about reading records (\<open>Deserialize\<close>): the order of the members of a text does not
  matter, what is read is well formed, and a record that was written is read back.
\<close>

section \<open>Members\<close>

lemma members_distinct: "distinct (map fst m) \<Longrightarrow> members k m = option_list (map_of m k)"
proof (induction m)
  case Nil
  then show ?case by (simp add: members_def)
next
  case (Cons e m)
  obtain a b where e: "e = (a, b)" by (cases e)
  from Cons.prems have "map_of m a = None" by (simp add: e map_of_eq_None_iff)
  with Cons show ?case by (auto simp: e members_def)
qed

lemma field_distinct:
  "distinct (map fst m) \<Longrightarrow>
     field missing from k m = (case map_of m k of None \<Rightarrow> missing | Some v \<Rightarrow> from v)"
  by (simp add: field_def members_distinct split: option.split)

lemma required_members: "required from k m = Some x \<Longrightarrow> \<exists>v. members k m = [v] \<and> from v = Some x"
  by (auto simp: required_def field_def split: list.splits)

lemma optional_members: "optional from k m = Some x \<Longrightarrow> length (members k m) < 2"
  by (auto simp: optional_def field_def split: list.splits)

lemma members_set: "v \<in> set (members k m) \<Longrightarrow> (k, v) \<in> set m"
  by (auto simp: members_def)

lemma field_cases:
  assumes "field missing from k m = Some x"
  obtains "members k m = []" "missing = Some x" | v where "(k, v) \<in> set m" "from v = Some x"
  using assms members_set [of _ k m] by (auto simp: field_def split: list.splits)

section \<open>Rebuilding a value\<close>

text \<open>What the text of a value guarantees: strings are UTF-8 and numbers exist; names may repeat.\<close>

fun json_text_ok :: "json \<Rightarrow> bool" where
  "json_text_ok (JString s) = utf8_valid s"
| "json_text_ok (JNumber n) = number_ok n"
| "json_text_ok (JArray vs) = (\<forall>v \<in> set vs. json_text_ok v)"
| "json_text_ok (JObject m) = (\<forall>(k, v) \<in> set m. utf8_valid k \<and> json_text_ok v)"
| "json_text_ok _ = True"

definition rebuild_members :: "(string \<times> json) list \<Rightarrow> json_map" where
  "rebuild_members m = map_collect (map (\<lambda>(k, v). (k, json_rebuild v)) m)"

lemma json_rebuild_object: "json_rebuild (JObject m) = JObject (rebuild_members m)"
  by (simp add: rebuild_members_def)

lemma json_strings_text_ok: "json_strings_ok v \<Longrightarrow> json_text_ok v"
proof (induction v)
  case (JObject m)
  then show ?case by fastforce
qed auto

lemma rebuild_ok: "json_text_ok v \<Longrightarrow> json_ok (json_rebuild v)"
proof (induction v)
  case (JObject m)
  let ?es = "map (\<lambda>(k, v). (k, json_rebuild v)) m"
  have "entries_ok ?es"
    using JObject by (fastforce simp: entries_ok_def)
  then show ?case by (simp only: json_rebuild.simps json_ok_collect)
qed auto

lemma json_ok_rebuild: "json_ok v \<Longrightarrow> json_rebuild v = v"
proof (induction v)
  case (JArray vs)
  then show ?case by (simp add: map_idI)
next
  case (JObject m)
  then have "map (\<lambda>(k, v). (k, json_rebuild v)) m = m"
    by (intro map_idI) fastforce
  with JObject.prems show ?case by (simp add: map_collect_id)
qed simp_all

lemma rebuild_rebuild: "json_text_ok v \<Longrightarrow> json_rebuild (json_rebuild v) = json_rebuild v"
  by (simp add: json_ok_rebuild rebuild_ok)

lemma rebuild_members_ok [simp]: "map_ok (rebuild_members m)"
  by (simp add: rebuild_members_def)

lemma map_of_rebuild_members:
  "distinct (map fst m) \<Longrightarrow> map_of (rebuild_members m) k = map_option json_rebuild (map_of m k)"
  unfolding rebuild_members_def map_of_map_collect
  by (subst map_of_rev) (simp_all add: map_of_map comp_def split_beta)

lemma catch_all_rebuild: "catch_all N m = rebuild_members (filter (\<lambda>(k, v). k \<notin> N) m)"
  by (simp add: catch_all_def rebuild_members_def)

lemma map_of_filter_key: "map_of (filter (\<lambda>(k, v). P k) m) k = (if P k then map_of m k else None)"
  by (induction m) auto

lemma distinct_filter_keys: "distinct (map fst m) \<Longrightarrow> distinct (map fst (filter (\<lambda>(k, v). P k) m))"
  by (induction m) (auto simp: image_iff)

lemma map_of_catch_all:
  "distinct (map fst m) \<Longrightarrow>
     map_of (catch_all N m) k = (if k \<in> N then None else map_option json_rebuild (map_of m k))"
  by (simp add: catch_all_rebuild map_of_rebuild_members distinct_filter_keys map_of_filter_key)

lemma catch_all_ok [simp]: "map_ok (catch_all N m)"
  by (simp add: catch_all_def)

lemma catch_all_disjoint [simp]: "fst ` set (catch_all N m) \<inter> N = {}"
proof -
  have "fst ` set (catch_all N m) \<subseteq> fst ` set (map (\<lambda>(k, v). (k, json_rebuild v)) (filter (\<lambda>(k, v). k \<notin> N) m))"
    unfolding catch_all_def by (intro image_mono map_collect_set)
  then show ?thesis by force
qed

section \<open>The order of members does not matter\<close>

definition order_free :: "(json \<Rightarrow> 'a) \<Rightarrow> bool" where
  "order_free from \<longleftrightarrow> (\<forall>v. json_strings_ok v \<longrightarrow> from (json_rebuild v) = from v)"

definition rebuilt :: "(string \<times> json) list \<Rightarrow> (string \<times> json) list \<Rightarrow> bool" where
  "rebuilt m m' \<longleftrightarrow> (\<forall>(k, v) \<in> set m. json_strings_ok v) \<and> (\<forall>k. members k m' = map json_rebuild (members k m))"

lemma rebuilt_object: "json_strings_ok (JObject m) \<Longrightarrow> rebuilt m (rebuild_members m)"
proof -
  assume m: "json_strings_ok (JObject m)"
  then have d: "distinct (map fst m)" by simp
  have "members k (rebuild_members m) = map json_rebuild (members k m)" for k
    using d by (simp add: members_distinct map_ok_distinct map_of_rebuild_members)
      (cases "map_of m k", simp_all)
  with m show ?thesis by (auto simp: rebuilt_def)
qed

lemma rebuilt_zip:
  assumes "\<forall>v \<in> set vs. json_strings_ok v"
  shows "rebuilt (zip ks vs) (zip ks (map json_rebuild vs))"
proof -
  have "members k (zip ks (map json_rebuild vs)) = map json_rebuild (members k (zip ks vs))" for k
    by (simp add: members_def zip_map2 filter_map comp_def case_prod_unfold)
  with assms show ?thesis by (auto simp: rebuilt_def dest: set_zip_rightD)
qed

lemma field_rebuilt:
  assumes "rebuilt m m'" "order_free from"
  shows "field missing from k m' = field missing from k m"
proof -
  have "from (json_rebuild v) = from v" if "v \<in> set (members k m)" for v
    using assms members_set [OF that] by (auto simp: rebuilt_def order_free_def)
  then show ?thesis
    using assms(1) by (auto simp: rebuilt_def field_def split: list.split)
qed

lemma option_from_order_free: "order_free from \<Longrightarrow> order_free (option_from from)"
proof -
  have "json_rebuild v = JNull \<longleftrightarrow> v = JNull" for v by (cases v) simp_all
  then show "order_free from \<Longrightarrow> order_free (option_from from)"
    by (simp add: order_free_def option_from_def)
qed

lemma required_rebuilt: "rebuilt m m' \<Longrightarrow> order_free from \<Longrightarrow> required from k m' = required from k m"
  and optional_rebuilt: "rebuilt m m' \<Longrightarrow> order_free from \<Longrightarrow> optional from k m' = optional from k m"
  by (simp_all add: required_def optional_def field_rebuilt option_from_order_free)

lemmas fields_rebuilt = required_rebuilt optional_rebuilt

lemma catch_all_rebuilt:
  assumes "json_strings_ok (JObject m)"
  shows "catch_all N (rebuild_members m) = catch_all N m"
proof -
  from assms have d: "distinct (map fst m)" by simp
  have "map_option json_rebuild (map_option json_rebuild (map_of m k)) = map_option json_rebuild (map_of m k)" for k
    using assms by (cases "map_of m k") (auto dest!: map_of_SomeD simp: rebuild_rebuild json_strings_text_ok)
  then show ?thesis
    by (intro map_ok_eqI) (auto simp: fun_eq_iff map_of_catch_all d map_ok_distinct map_of_rebuild_members)
qed

lemma order_freeI:
  assumes "\<And>m. json_strings_ok (JObject m) \<Longrightarrow> from (JObject (rebuild_members m)) = from (JObject m)"
    and "\<And>vs. \<forall>v \<in> set vs. json_strings_ok v \<Longrightarrow> from (JArray (map json_rebuild vs)) = from (JArray vs)"
  shows "order_free from"
  unfolding order_free_def
proof (intro allI impI)
  fix v assume "json_strings_ok v"
  with assms show "from (json_rebuild v) = from v"
    by (cases v) (simp_all add: rebuild_members_def)
qed

lemma leaves_order_free [simp]:
  "order_free string_from_json" "order_free bool_from_json" "order_free u64_from_json"
  by (auto intro!: order_freeI simp: string_from_json_def)

lemma vec_order_free [simp]: "order_free from \<Longrightarrow> order_free (vec_from_json from)"
  by (rule order_freeI) (auto simp: vec_from_json_def order_free_def comp_def cong: map_cong)

lemma length_rebuild_members: "distinct (map fst m) \<Longrightarrow> length (rebuild_members m) = length m"
proof -
  assume d: "distinct (map fst m)"
  have "fst ` set (rebuild_members m) = fst ` set m"
    by (auto simp: map_of_rebuild_members [OF d] dom_map_of_conv_image_fst [symmetric] dom_def)
  with d show ?thesis
    by (metis distinct_card length_map list.set_map map_ok_distinct rebuild_members_ok)
qed

lemma unit_variant_order_free: "order_free unit_variant"
proof (rule order_freeI)
  fix m assume m: "json_strings_ok (JObject m)"
  consider "m = []" | s v where "m = [(s, v)]" | "2 \<le> length m"
    by (cases m rule: remdups_adj.cases) auto
  then show "unit_variant (JObject (rebuild_members m)) = unit_variant (JObject m)"
  proof cases
    case 1
    then show ?thesis by (simp add: rebuild_members_def map_collect_def)
  next
    case 2
    then show ?thesis
      by (cases v) (simp_all add: unit_variant_def rebuild_members_def map_collect_def)
  next
    case 3
    have "unit_variant (JObject m') = None" if "2 \<le> length m'" for m'
      using that by (cases m' rule: remdups_adj.cases) (auto simp: unit_variant_def split: prod.split json.split)
    with 3 m show ?thesis by (simp add: length_rebuild_members)
  qed
qed (simp add: unit_variant_def)

lemma mode_order_free [simp]: "order_free recording_mode_from_json"
  using unit_variant_order_free by (simp add: order_free_def recording_mode_from_json_def)

lemma struct_members_rebuilt:
  assumes "json_strings_ok v"
  shows "rel_option rebuilt (struct_members names v) (struct_members names (json_rebuild v))"
proof (cases v)
  case (JArray vs)
  with assms show ?thesis by (simp add: rebuilt_zip)
next
  case (JObject m)
  with assms show ?thesis by (simp add: rebuilt_object flip: rebuild_members_def)
qed simp_all

lemma capability_order_free [simp]: "order_free capability_decision_from_json"
  by (rule order_freeI)
    (simp_all add: capability_decision_from_json_def fields_rebuilt [OF rebuilt_object] catch_all_rebuilt
      del: json_strings_ok.simps)

lemma action_order_free [simp]: "order_free action_evidence_from_json"
  by (rule order_freeI)
    (simp_all add: action_evidence_from_json_def fields_rebuilt [OF rebuilt_object] catch_all_rebuilt
      del: json_strings_ok.simps)

lemma struct_order_free:
  assumes "\<And>m m'. rebuilt m m' \<Longrightarrow> build m' = build m"
  shows "order_free (\<lambda>v. Option.bind (struct_members names v) build)"
  unfolding order_free_def
proof (intro allI impI)
  fix v assume "json_strings_ok v"
  from struct_members_rebuilt [OF this, of names] assms
  show "Option.bind (struct_members names (json_rebuild v)) build = Option.bind (struct_members names v) build"
    by (cases rule: option.rel_cases) auto
qed

lemma aep_signature_order_free [simp]: "order_free aep_signature_from_json"
  unfolding aep_signature_from_json_def [abs_def] by (rule struct_order_free) (simp add: fields_rebuilt)

lemma dsse_signature_order_free [simp]: "order_free dsse_signature_from_json"
  unfolding dsse_signature_from_json_def [abs_def] by (rule struct_order_free) (simp add: fields_rebuilt)

lemma dsse_envelope_order_free [simp]: "order_free dsse_envelope_from_json"
  unfolding dsse_envelope_from_json_def [abs_def] by (rule struct_order_free) (simp add: fields_rebuilt)

lemma record_order_free [simp]: "order_free aep_record_from_json"
  by (rule order_freeI)
    (simp_all add: aep_record_from_json_def fields_rebuilt [OF rebuilt_object] catch_all_rebuilt
      del: json_strings_ok.simps)

section \<open>What was written is read back\<close>

lemma leaves_from_json [simp]:
  "string_from_json (JString s) = Some s"
  "bool_from_json (JBool b) = Some b"
  "u64_from_json (json_u64 n) = Some n"
  "recording_mode_from_json (JString (recording_mode_as_str x)) = Some x"
  by (simp_all add: string_from_json_def json_u64_def recording_mode_from_json_def unit_variant_def) (cases x, simp_all)

lemma those_map_Some: "(\<And>x. x \<in> set xs \<Longrightarrow> f (g x) = Some x) \<Longrightarrow> those (map (f \<circ> g) xs) = Some xs"
  by (induction xs) simp_all

lemma vec_from_json_map:
  "(\<And>x. x \<in> set xs \<Longrightarrow> from (to x) = Some x) \<Longrightarrow> vec_from_json from (JArray (map to xs)) = Some xs"
  by (simp add: vec_from_json_def those_map_Some)

lemma strings_from_json [simp]: "vec_from_json string_from_json (json_strings ss) = Some ss"
  unfolding json_strings_def by (rule vec_from_json_map) simp

text \<open>
  A list of members that is written for a struct: no name twice, the declared names as the struct
  has them, the others as its catch-all map.
\<close>

definition written_as :: "(string \<times> json) list \<Rightarrow> string set \<Rightarrow> (string \<times> json) list \<Rightarrow> json_map \<Rightarrow> bool" where
  "written_as m names declared rest \<longleftrightarrow>
     distinct (map fst m) \<and> (\<forall>k \<in> names. map_of m k = map_of declared k) \<and> catch_all names m = rest"

lemma written_as_required:
  "written_as m N d e \<Longrightarrow> k \<in> N \<Longrightarrow>
     required from k m = (case map_of d k of None \<Rightarrow> None | Some v \<Rightarrow> from v)"
  by (simp add: written_as_def required_def field_distinct)

lemma written_as_optional:
  "written_as m N d e \<Longrightarrow> k \<in> N \<Longrightarrow>
     optional from k m = (case map_of d k of None \<Rightarrow> Some None | Some v \<Rightarrow> option_from from v)"
  by (simp add: written_as_def optional_def field_distinct)

lemma written_as_catch_all: "written_as m N d e \<Longrightarrow> catch_all N m = e"
  by (simp add: written_as_def)

lemmas read_written = written_as_required written_as_optional written_as_catch_all

lemma written_asI:
  assumes d: "distinct (map fst d)" "fst ` set d \<subseteq> N"
    and e: "map_ok e" "fst ` set e \<inter> N = {}" "\<forall>v \<in> snd ` set e. json_rebuild v = v"
  shows "written_as (d @ e) N d e" "written_as (map_collect (d @ e)) N d e"
proof -
  have de: "distinct (map fst (d @ e))"
    using d e map_ok_distinct [OF e(1)] by auto
  have e_none: "map_of e k = None" if "k \<in> N" for k
    using e(2) that by (intro map_of_None) auto
  have "map_of d k = None" if "k \<notin> N" for k
    using d(2) that by (intro map_of_None) auto
  then have rest: "map_of (catch_all N m) k = map_of e k" if "distinct (map fst m)" "map_of m = map_of (d @ e)" for m k
  proof (cases "map_of e k")
    case None
    with \<open>\<And>k. k \<notin> N \<Longrightarrow> map_of d k = None\<close> show ?thesis by (simp add: map_of_catch_all that map_add_def)
  next
    case (Some v)
    with e_none have "k \<notin> N" by auto
    moreover from Some e(3) have "json_rebuild v = v" by (auto dest!: map_of_SomeD)
    ultimately show ?thesis
      using Some \<open>\<And>k. k \<notin> N \<Longrightarrow> map_of d k = None\<close> by (simp add: map_of_catch_all that map_add_def)
  qed
  have m: "map_of (map_collect (d @ e)) = map_of (d @ e)"
    using de by (simp only: map_of_map_collect map_of_rev)
  show "written_as (d @ e) N d e"
    unfolding written_as_def using de e_none rest [of "d @ e"] e(1)
    by (auto simp: map_add_def intro!: map_ok_eqI split: option.split)
  show "written_as (map_collect (d @ e)) N d e"
    unfolding written_as_def using e_none rest [of "map_collect (d @ e)"] e(1)
    by (auto simp: m map_ok_distinct map_add_def intro!: map_ok_eqI split: option.split)
qed

lemma option_from_written [simp]:
  "(\<And>y. x = Some y \<Longrightarrow> from (f y) = Some y \<and> f y \<noteq> JNull) \<Longrightarrow>
     (case x of None \<Rightarrow> Some None | Some y \<Rightarrow> (option_from from \<circ> f) y) = Some x"
  by (cases x) (simp_all add: option_from_def)

lemma leaves_not_null [simp]: "json_u64 n \<noteq> JNull" "json_strings ss \<noteq> JNull"
  by (simp_all add: json_u64_def json_strings_def)

lemma capability_from_members:
  assumes "written_as m capability_decision_names (capability_decision_declared c) (cap_extra c)"
  shows "capability_decision_from_json (JObject m) = Some c"
  unfolding capability_decision_from_json_def
  by (simp add: read_written [OF assms, unfolded capability_decision_names_def] capability_decision_names_def
      capability_decision_declared_def field_lookup del: map_of_append)

lemma action_from_members:
  assumes "written_as m action_evidence_names (action_evidence_fields f a) (act_extra a)"
    and "\<And>c. act_capability_decision a = Some c \<Longrightarrow> capability_decision_from_json (f c) = Some c \<and> f c \<noteq> JNull"
  shows "action_evidence_from_json (JObject m) = Some a"
  unfolding action_evidence_from_json_def
  by (simp add: read_written [OF assms(1), unfolded action_evidence_names_def] action_evidence_names_def
      action_evidence_fields_def field_lookup assms(2) del: map_of_append)

lemma record_from_members:
  assumes "written_as m aep_record_names (aep_record_fields f g h r) (extra r)"
    and "\<And>e. dsse_envelope r = Some e \<Longrightarrow> dsse_envelope_from_json (f e) = Some e \<and> f e \<noteq> JNull"
    and "\<And>a. a \<in> set (actions r) \<Longrightarrow> action_evidence_from_json (g a) = Some a"
    and "\<And>s. signature r = Some s \<Longrightarrow> aep_signature_from_json (h s) = Some s \<and> h s \<noteq> JNull"
  shows "aep_record_from_json (JObject m) = Some r"
  unfolding aep_record_from_json_def
  by (simp add: read_written [OF assms(1), unfolded aep_record_names_def] aep_record_names_def
      aep_record_fields_def field_lookup assms(2-4) vec_from_json_map del: map_of_append)

lemma struct_from_object [simp]:
  "aep_signature_from_json (JObject (aep_signature_fields s)) = Some s"
  "dsse_signature_from_json (JObject (dsse_signature_fields t)) = Some t"
  by (simp_all add: aep_signature_from_json_def aep_signature_fields_def dsse_signature_from_json_def
      dsse_signature_fields_def required_def field_def members_def)

lemma envelope_from_object [simp]:
  "dsse_envelope_from_json (dsse_envelope_written e) = Some e"
  by (simp add: dsse_envelope_from_json_def dsse_envelope_written_def dsse_envelope_fields_def required_def
      field_def members_def vec_from_json_map dsse_signature_written_def)

lemma written_not_null [simp]:
  "dsse_envelope_written e \<noteq> JNull" "capability_decision_written c \<noteq> JNull"
  by (simp_all add: dsse_envelope_written_def capability_decision_written_def)

text \<open>The three structs with a catch-all map.\<close>

lemma capability_fields_ok:
  assumes "capability_flat c" "\<forall>v \<in> snd ` set (cap_extra c). json_ok v"
  shows "written_as (capability_decision_declared c @ cap_extra c) capability_decision_names
    (capability_decision_declared c) (cap_extra c)"
  using assms capability_declared_ok [of c]
  by (intro written_asI) (simp_all add: capability_flat_def json_ok_rebuild)

lemma action_fields_ok:
  "distinct (map fst (action_evidence_fields f a))"
  "fst ` set (action_evidence_fields f a) \<subseteq> action_evidence_names"
  by (simp_all add: action_evidence_fields_def action_evidence_names_def image_Un)

lemma record_fields_ok:
  "distinct (map fst (aep_record_fields f g h r))"
  "fst ` set (aep_record_fields f g h r) \<subseteq> aep_record_names"
  by (simp_all add: aep_record_fields_def aep_record_names_def image_Un)

lemma capability_written_back:
  assumes "capability_flat c" "\<forall>v \<in> snd ` set (cap_extra c). json_ok v"
  shows "capability_decision_from_json (capability_decision_written c) = Some c"
  unfolding capability_decision_written_def by (intro capability_from_members capability_fields_ok assms)

lemma action_written_back:
  assumes "action_flat a" "\<forall>v \<in> set (action_extras a). json_ok v"
  shows "action_evidence_from_json (action_evidence_written a) = Some a"
  unfolding action_evidence_written_def
proof (rule action_from_members)
  show "written_as (action_evidence_fields capability_decision_written a @ act_extra a) action_evidence_names
      (action_evidence_fields capability_decision_written a) (act_extra a)"
    using assms action_fields_ok [of capability_decision_written a]
    by (intro written_asI) (simp_all add: action_flat_def action_extras_def json_ok_rebuild)
next
  fix c assume "act_capability_decision a = Some c"
  with assms show "capability_decision_from_json (capability_decision_written c) = Some c \<and>
      capability_decision_written c \<noteq> JNull"
    using capability_written_back [of c]
    by (simp add: action_flat_def action_extras_def ball_Un)
qed

lemma record_written_back:
  assumes "record_flat r" "\<forall>v \<in> set (record_extras r). json_ok v"
  shows "aep_record_from_json (aep_record_written r) = Some r"
  unfolding aep_record_written_def
proof (rule record_from_members)
  let ?d = "aep_record_fields dsse_envelope_written action_evidence_written aep_signature_written r"
  show "written_as (?d @ extra r) aep_record_names ?d (extra r)"
    using assms record_fields_ok [of dsse_envelope_written action_evidence_written aep_signature_written r]
    by (intro written_asI) (simp_all add: record_flat_def record_extras_def json_ok_rebuild)
next
  fix a assume "a \<in> set (actions r)"
  with assms show "action_evidence_from_json (action_evidence_written a) = Some a"
    by (intro action_written_back) (auto simp: record_flat_def record_extras_def)
qed (simp_all add: aep_signature_written_def)

section \<open>The written text\<close>

definition signature_strings :: "aep_signature \<Rightarrow> string list" where
  "signature_strings s = [alg s, key_id s, sig s]"

definition envelope_strings :: "dsse_envelope \<Rightarrow> string list" where
  "envelope_strings e = [payload_type e, payload e] @ concat (map (\<lambda>s. [keyid s, dsse_sig s]) (signatures e))"

text \<open>Everything a record in memory holds is a string or a value of Rust.\<close>

definition wire_ok :: "aep_record \<Rightarrow> bool" where
  "wire_ok r \<longleftrightarrow> record_ok r \<and>
     (\<forall>e \<in> set (option_list (dsse_envelope r)). \<forall>s \<in> set (envelope_strings e). utf8_valid s) \<and>
     (\<forall>g \<in> set (option_list (signature r)). \<forall>s \<in> set (signature_strings g). utf8_valid s)"

definition entries_text_ok :: "(string \<times> json) list \<Rightarrow> bool" where
  "entries_text_ok es \<longleftrightarrow> (\<forall>(k, v) \<in> set es. utf8_valid k \<and> json_strings_ok v)"

lemma entries_text_ok_simps [simp]:
  "entries_text_ok []"
  "entries_text_ok ((k, v) # es) \<longleftrightarrow> utf8_valid k \<and> json_strings_ok v \<and> entries_text_ok es"
  "entries_text_ok (es @ es') \<longleftrightarrow> entries_text_ok es \<and> entries_text_ok es'"
  by (auto simp: entries_text_ok_def)

lemma entries_text_ok_opt_field [simp]:
  "entries_text_ok (opt_field k f x) \<longleftrightarrow> (\<forall>y \<in> set (option_list x). utf8_valid k \<and> json_strings_ok (f y))"
  by (cases x) auto

lemma json_ok_strings_ok: "json_ok v \<Longrightarrow> json_strings_ok v"
proof (induction v)
  case (JObject m)
  then show ?case by (fastforce simp: map_ok_distinct)
qed auto

lemma entries_text_ok_extra:
  "\<forall>k \<in> fst ` set m. utf8_valid k \<Longrightarrow> \<forall>v \<in> snd ` set m. json_ok v \<Longrightarrow> entries_text_ok m"
  by (auto simp: entries_text_ok_def json_ok_strings_ok)

lemma json_strings_ok_object:
  "distinct (map fst m) \<Longrightarrow> entries_text_ok m \<Longrightarrow> json_strings_ok (JObject m)"
  by (simp add: entries_text_ok_def)

lemma json_strings_ok_leaves [simp]:
  "json_strings_ok (json_u64 n)"
  "json_strings_ok (json_strings ss) \<longleftrightarrow> (\<forall>s \<in> set ss. utf8_valid s)"
  by (simp_all add: json_u64_def json_strings_def)

lemma flat_distinct:
  "distinct (map fst d) \<Longrightarrow> fst ` set d \<subseteq> N \<Longrightarrow> map_ok e \<Longrightarrow> fst ` set e \<inter> N = {} \<Longrightarrow> distinct (map fst (d @ e))"
  using map_ok_distinct [of e] by auto

lemma capability_text_ok:
  assumes "capability_flat c" "\<forall>s \<in> set (capability_strings c). utf8_valid s" "\<forall>v \<in> snd ` set (cap_extra c). json_ok v"
  shows "json_strings_ok (capability_decision_written c)"
  unfolding capability_decision_written_def
proof (rule json_strings_ok_object)
  show "distinct (map fst (capability_decision_declared c @ cap_extra c))"
    using assms(1) by (intro flat_distinct [OF capability_declared_ok]) (simp_all add: capability_flat_def)
  have "entries_text_ok (cap_extra c)"
    using assms by (intro entries_text_ok_extra) (simp_all add: capability_strings_def ball_Un)
  then show "entries_text_ok (capability_decision_declared c @ cap_extra c)"
    using assms(2) by (simp add: capability_decision_declared_def capability_strings_def utf8_valid_literal ball_Un)
qed

lemma action_text_ok:
  assumes "action_flat a" "\<forall>s \<in> set (action_strings a). utf8_valid s" "\<forall>v \<in> set (action_extras a). json_ok v"
  shows "json_strings_ok (action_evidence_written a)"
  unfolding action_evidence_written_def
proof (rule json_strings_ok_object)
  show "distinct (map fst (action_evidence_fields capability_decision_written a @ act_extra a))"
    using assms(1) by (intro flat_distinct [OF action_fields_ok]) (simp_all add: action_flat_def)
  have "\<forall>c \<in> set (option_list (act_capability_decision a)). json_strings_ok (capability_decision_written c)"
    using assms by (cases "act_capability_decision a")
      (auto simp: action_flat_def action_strings_def action_extras_def intro!: capability_text_ok)
  moreover have "entries_text_ok (act_extra a)"
    using assms by (intro entries_text_ok_extra) (simp_all add: action_strings_def action_extras_def ball_Un)
  ultimately show "entries_text_ok (action_evidence_fields capability_decision_written a @ act_extra a)"
    using assms(2) by (simp add: action_evidence_fields_def action_strings_def utf8_valid_literal ball_Un)
qed

lemma dsse_signature_text_ok:
  "utf8_valid (keyid s) \<Longrightarrow> utf8_valid (dsse_sig s) \<Longrightarrow> json_strings_ok (dsse_signature_written s)"
  by (simp add: dsse_signature_written_def dsse_signature_fields_def utf8_valid_literal)

lemma envelope_text_ok:
  "\<forall>s \<in> set (envelope_strings e). utf8_valid s \<Longrightarrow> json_strings_ok (dsse_envelope_written e)"
  by (auto simp: dsse_envelope_written_def dsse_envelope_fields_def envelope_strings_def utf8_valid_literal
      intro!: dsse_signature_text_ok)

lemma aep_signature_text_ok:
  "\<forall>x \<in> set (signature_strings s). utf8_valid x \<Longrightarrow> json_strings_ok (aep_signature_written s)"
  by (simp add: aep_signature_written_def aep_signature_fields_def signature_strings_def utf8_valid_literal)

lemma record_text_ok:
  assumes "wire_ok r"
    and "distinct (map fst (aep_record_fields dsse_envelope_written action_evidence_written aep_signature_written r @ extra r))"
    and "\<forall>a \<in> set (actions r). action_flat a"
  shows "json_strings_ok (aep_record_written r)"
  unfolding aep_record_written_def
proof (rule json_strings_ok_object [OF assms(2)])
  from assms(1) have r: "record_ok r" by (simp add: wire_ok_def)
  have "\<forall>a \<in> set (actions r). json_strings_ok (action_evidence_written a)"
    using r assms(3) by (auto simp: record_ok_def record_strings_def record_extras_def intro!: action_text_ok)
  moreover have "entries_text_ok (extra r)"
    using r by (intro entries_text_ok_extra) (simp_all add: record_ok_def record_strings_def record_extras_def ball_Un)
  ultimately show "entries_text_ok
      (aep_record_fields dsse_envelope_written action_evidence_written aep_signature_written r @ extra r)"
    using assms(1) r
    by (simp add: aep_record_fields_def wire_ok_def record_ok_def record_strings_def envelope_text_ok
        aep_signature_text_ok utf8_valid_literal ball_Un)
qed

text \<open>Rebuilding what was written gives what \<open>to_value\<close> builds.\<close>

definition rebuild_entries :: "(string \<times> json) list \<Rightarrow> (string \<times> json) list" where
  "rebuild_entries es = map (\<lambda>(k, v). (k, json_rebuild v)) es"

lemma rebuild_entries_simps [simp]:
  "rebuild_entries [] = []"
  "rebuild_entries ((k, v) # es) = (k, json_rebuild v) # rebuild_entries es"
  "rebuild_entries (es @ es') = rebuild_entries es @ rebuild_entries es'"
  by (simp_all add: rebuild_entries_def)

lemma rebuild_entries_opt_field [simp]: "rebuild_entries (opt_field k f x) = opt_field k (\<lambda>y. json_rebuild (f y)) x"
  by (cases x) simp_all

lemma rebuild_entries_extra: "\<forall>v \<in> snd ` set m. json_ok v \<Longrightarrow> rebuild_entries m = m"
  unfolding rebuild_entries_def by (rule map_idI) (auto simp: json_ok_rebuild)

lemma json_rebuild_entries: "json_rebuild (JObject es) = JObject (map_collect (rebuild_entries es))"
  by (simp add: rebuild_entries_def)

lemma rebuild_leaves [simp]:
  "json_rebuild (json_u64 n) = json_u64 n" "json_rebuild (json_strings ss) = json_strings ss"
  by (simp_all add: json_u64_def json_strings_def)

lemma opt_field_cong: "x = y \<Longrightarrow> (\<And>z. y = Some z \<Longrightarrow> f z = g z) \<Longrightarrow> opt_field k f x = opt_field k g y"
  by (cases y) simp_all

lemma rebuild_capability:
  assumes "\<forall>v \<in> snd ` set (cap_extra c). json_ok v"
  shows "json_rebuild (capability_decision_written c) = capability_decision_to_value c"
  using assms unfolding capability_decision_written_def capability_decision_to_value_def json_rebuild_entries
  by (simp add: capability_decision_declared_def rebuild_entries_extra)

lemma rebuild_action:
  assumes "\<forall>v \<in> set (action_extras a). json_ok v"
  shows "json_rebuild (action_evidence_written a) = action_evidence_to_value a"
proof -
  have "opt_field ''capability_decision'' (\<lambda>c. json_rebuild (capability_decision_written c)) (act_capability_decision a) =
      opt_field ''capability_decision'' capability_decision_to_value (act_capability_decision a)"
    using assms by (intro opt_field_cong rebuild_capability) (auto simp: action_extras_def)
  moreover have "rebuild_entries (act_extra a) = act_extra a"
    using assms by (intro rebuild_entries_extra) (simp add: action_extras_def ball_Un)
  ultimately show ?thesis
    unfolding action_evidence_written_def action_evidence_to_value_def json_rebuild_entries
    by (simp add: action_evidence_declared_def action_evidence_fields_def)
qed

lemma rebuild_signing [simp]:
  "json_rebuild (aep_signature_written s) = aep_signature_to_value s"
  "json_rebuild (dsse_signature_written t) = dsse_signature_to_value t"
  "json_rebuild (dsse_envelope_written e) = dsse_envelope_to_value e"
proof -
  show g: "json_rebuild (dsse_signature_written t) = dsse_signature_to_value t" for t
    unfolding dsse_signature_written_def dsse_signature_to_value_def json_rebuild_entries
    by (simp add: dsse_signature_fields_def)
  show "json_rebuild (aep_signature_written s) = aep_signature_to_value s"
    unfolding aep_signature_written_def aep_signature_to_value_def json_rebuild_entries
    by (simp add: aep_signature_fields_def)
  show "json_rebuild (dsse_envelope_written e) = dsse_envelope_to_value e"
    unfolding dsse_envelope_written_def dsse_envelope_to_value_def json_rebuild_entries
    by (simp add: dsse_envelope_fields_def g comp_def)
qed

lemma rebuild_record:
  assumes "\<forall>v \<in> set (record_extras r). json_ok v"
  shows "json_rebuild (aep_record_written r) = aep_record_to_value r"
proof -
  have "rebuild_entries (extra r) = extra r"
    using assms by (intro rebuild_entries_extra) (simp add: record_extras_def ball_Un)
  moreover have "json_rebuild (action_evidence_written a) = action_evidence_to_value a" if "a \<in> set (actions r)" for a
    using assms that by (auto simp: record_extras_def intro!: rebuild_action)
  ultimately show ?thesis
    unfolding aep_record_written_def aep_record_to_value_def json_rebuild_entries
    by (simp add: aep_record_declared_def aep_record_fields_def comp_def cong: map_cong)
qed

text \<open>Its nesting and integrality.\<close>

lemma capability_written_plain:
  assumes "\<forall>v \<in> snd ` set (cap_extra c). json_plain n v"
  shows "json_plain (Suc n) (capability_decision_written c)"
  using assms
  by (simp add: capability_decision_written_def json_plain_object capability_decision_declared_def
      entries_plain_def [of _ "cap_extra c"])

lemma action_written_plain:
  assumes "\<forall>v \<in> set (action_extras a). json_plain n v"
  shows "json_plain (Suc (Suc n)) (action_evidence_written a)"
proof -
  have "\<forall>c \<in> set (option_list (act_capability_decision a)). json_plain (Suc n) (capability_decision_written c)"
    using assms by (auto simp: action_extras_def intro!: capability_written_plain)
  moreover have "entries_plain (Suc n) (act_extra a)"
    using assms json_plain_mono [of n _ "Suc n"] by (simp add: action_extras_def entries_plain_def ball_Un)
  ultimately show ?thesis
    by (simp add: action_evidence_written_def json_plain_object action_evidence_fields_def)
qed

lemma signing_written_plain [simp]:
  "json_plain (Suc n) (aep_signature_written s)" "json_plain (Suc n) (dsse_signature_written t)"
  "json_plain (Suc (Suc (Suc n))) (dsse_envelope_written e)"
  by (simp_all add: aep_signature_written_def aep_signature_fields_def dsse_signature_written_def
      dsse_signature_fields_def dsse_envelope_written_def dsse_envelope_fields_def json_plain_object)

lemma record_written_plain:
  assumes "\<forall>v \<in> set (record_extras r). json_plain n v"
  shows "json_plain (n + 4) (aep_record_written r)"
proof -
  have "\<forall>a \<in> set (actions r). json_plain (Suc (Suc n)) (action_evidence_written a)"
    using assms by (auto simp: record_extras_def intro!: action_written_plain)
  moreover have "entries_plain (Suc (Suc (Suc n))) (extra r)"
    using assms json_plain_mono [of n _ "Suc (Suc (Suc n))"]
    by (simp add: record_extras_def entries_plain_def ball_Un)
  ultimately have "json_plain (Suc (Suc (Suc (Suc n)))) (aep_record_written r)"
    by (simp add: aep_record_written_def json_plain_object aep_record_fields_def)
  then show ?thesis by (simp add: numeral_eq_Suc)
qed

lemma aep_record_from_slice_written:
  assumes "json_parses X" "json_strings_ok (aep_record_written r)"
    and "\<forall>v \<in> set (record_extras r). json_plain 123 v"
  shows "aep_record_from_slice X (aep_record_to_string X r) =
    (case aep_record_from_json (aep_record_written r) of None \<Rightarrow> Inl ''data error'' | Some r' \<Rightarrow> Inr r')"
proof -
  have "json_plain json_depth_limit (aep_record_written r)"
    using record_written_plain [OF assms(3)] by (simp add: json_depth_limit_def)
  with assms(1,2) show ?thesis
    by (simp add: aep_record_from_slice_def from_slice_def aep_record_to_string_def json_parses_def json_plain_def)
qed

section \<open>What is read is well formed\<close>

lemma catch_all_entries:
  assumes "json_text_ok (JObject m)"
  shows "\<forall>k \<in> fst ` set (catch_all N m). utf8_valid k" "\<forall>v \<in> snd ` set (catch_all N m). json_ok v"
  using assms map_collect_set [of "map (\<lambda>(k, v). (k, json_rebuild v)) (filter (\<lambda>(k, v). k \<notin> N) m)"]
  unfolding catch_all_def by (fastforce intro: rebuild_ok)+

text \<open>A reader that only returns values with a property, from texts that are well formed.\<close>

definition reads :: "(json \<Rightarrow> 'a option) \<Rightarrow> ('a \<Rightarrow> bool) \<Rightarrow> bool" where
  "reads from P \<longleftrightarrow> (\<forall>v x. json_text_ok v \<longrightarrow> from v = Some x \<longrightarrow> P x)"

definition members_text_ok :: "(string \<times> json) list \<Rightarrow> bool" where
  "members_text_ok m \<longleftrightarrow> (\<forall>v \<in> snd ` set m. json_text_ok v)"

lemma reads_required:
  "reads from P \<Longrightarrow> members_text_ok m \<Longrightarrow> required from k m = Some x \<Longrightarrow> P x"
  unfolding required_def by (erule field_cases) (force simp: reads_def members_text_ok_def)+

lemma reads_optional:
  "reads from P \<Longrightarrow> members_text_ok m \<Longrightarrow> optional from k m = Some x \<Longrightarrow> \<forall>y \<in> set (option_list x). P y"
  unfolding optional_def
  by (erule field_cases) (force simp: reads_def members_text_ok_def option_from_def split: if_splits)+

lemma those_Some_set: "those xs = Some ys \<Longrightarrow> set xs = Some ` set ys"
  by (induction xs arbitrary: ys) (auto split: option.splits)

lemma reads_vec: "reads from P \<Longrightarrow> reads (vec_from_json from) (\<lambda>xs. \<forall>x \<in> set xs. P x)"
proof -
  assume P: "reads from P"
  have "P x" if "json_text_ok v" "vec_from_json from v = Some xs" "x \<in> set xs" for v xs x
  proof -
    from that(2) obtain vs where vs: "v = JArray vs" "those (map from vs) = Some xs"
      by (auto simp: vec_from_json_def split: Option.bind_splits)
    from those_Some_set [OF vs(2)] that(3) have "Some x \<in> from ` set vs" by simp
    with P that(1) vs(1) show ?thesis by (force simp: reads_def)
  qed
  then show ?thesis by (auto simp: reads_def)
qed

lemma reads_string: "reads string_from_json utf8_valid"
  by (auto simp: reads_def string_from_json_def)

lemma struct_members_text_ok: "json_text_ok v \<Longrightarrow> struct_members ns v = Some m \<Longrightarrow> members_text_ok m"
  by (cases v) (auto simp: members_text_ok_def split: if_splits dest: set_zip_rightD)

lemma set_option_list [simp]: "set (option_list x) = set_option x"
  by (cases x) simp_all

definition capability_read :: "capability_decision \<Rightarrow> bool" where
  "capability_read c \<longleftrightarrow> capability_flat c \<and> (\<forall>s \<in> set (capability_strings c). utf8_valid s) \<and>
     (\<forall>v \<in> snd ` set (cap_extra c). json_ok v)"

definition action_read :: "action_evidence \<Rightarrow> bool" where
  "action_read a \<longleftrightarrow> action_flat a \<and> (\<forall>s \<in> set (action_strings a). utf8_valid s) \<and>
     (\<forall>v \<in> set (action_extras a). json_ok v)"

lemma object_members_text_ok: "json_text_ok (JObject m) \<Longrightarrow> members_text_ok m"
  by (auto simp: members_text_ok_def)

lemma reads_capability: "reads capability_decision_from_json capability_read"
  unfolding reads_def
proof (intro allI impI)
  fix v c assume v: "json_text_ok v" and "capability_decision_from_json v = Some c"
  then obtain m where m: "v = JObject m" "members_text_ok m"
    and c: "cap_extra c = catch_all capability_decision_names m"
    "required string_from_json ''capability'' m = Some (capability c)"
    "required string_from_json ''subject'' m = Some (subject c)"
    "required string_from_json ''resource'' m = Some (resource c)"
    "required string_from_json ''decision'' m = Some (decision c)"
    "optional string_from_json ''reason_code'' m = Some (reason_code c)"
    "optional string_from_json ''deny_reason_class'' m = Some (deny_reason_class c)"
    using object_members_text_ok
    by (auto simp: capability_decision_from_json_def split: Option.bind_splits)
  note req = reads_required [OF reads_string m(2)] and opt = reads_optional [OF reads_string m(2)]
  from v m(1) catch_all_entries [of m capability_decision_names] c(1) c(2-5) [THEN req] c(6,7) [THEN opt]
  show "capability_read c"
    by (simp add: capability_read_def capability_flat_def capability_strings_def ball_Un)
qed

lemma reads_action: "reads action_evidence_from_json action_read"
  unfolding reads_def
proof (intro allI impI)
  fix v a assume v: "json_text_ok v" and "action_evidence_from_json v = Some a"
  then obtain m where m: "v = JObject m" "members_text_ok m"
    and a: "act_extra a = catch_all action_evidence_names m"
    "required string_from_json ''action_id'' m = Some (action_id a)"
    "required string_from_json ''tool_name'' m = Some (tool_name a)"
    "optional string_from_json ''precondition_digest'' m = Some (precondition_digest a)"
    "optional string_from_json ''result_digest'' m = Some (result_digest a)"
    "optional string_from_json ''parent_action_id'' m = Some (parent_action_id a)"
    "optional string_from_json ''causal_chain_id'' m = Some (causal_chain_id a)"
    "optional string_from_json ''mcp_header_risk'' m = Some (act_mcp_header_risk a)"
    "optional string_from_json ''side_effect_class'' m = Some (act_side_effect_class a)"
    "optional capability_decision_from_json ''capability_decision'' m = Some (act_capability_decision a)"
    using object_members_text_ok
    by (auto simp: action_evidence_from_json_def split: Option.bind_splits)
  note req = reads_required [OF reads_string m(2)] and opt = reads_optional [OF reads_string m(2)]
  from v m(1) catch_all_entries [of m action_evidence_names] a(1) a(2,3) [THEN req] a(4-9) [THEN opt]
    reads_optional [OF reads_capability m(2) a(10)]
  show "action_read a"
    by (cases "act_capability_decision a")
      (simp_all add: action_read_def action_flat_def action_strings_def action_extras_def capability_read_def ball_Un)
qed

lemma reads_aep_signature:
  "reads aep_signature_from_json (\<lambda>s. \<forall>x \<in> set (signature_strings s). utf8_valid x)"
  unfolding reads_def
proof (intro allI impI)
  fix v s assume v: "json_text_ok v" and "aep_signature_from_json v = Some s"
  then obtain m where m: "members_text_ok m"
    and s: "required string_from_json ''alg'' m = Some (alg s)"
      "required string_from_json ''key_id'' m = Some (key_id s)"
      "required string_from_json ''sig'' m = Some (sig s)"
    using struct_members_text_ok [OF v] by (fastforce simp: aep_signature_from_json_def split: Option.bind_splits)
  from s [THEN reads_required [OF reads_string m]]
  show "\<forall>x \<in> set (signature_strings s). utf8_valid x" by (simp add: signature_strings_def)
qed

lemma reads_dsse_signature:
  "reads dsse_signature_from_json (\<lambda>s. utf8_valid (keyid s) \<and> utf8_valid (dsse_sig s))"
  unfolding reads_def
proof (intro allI impI)
  fix v s assume v: "json_text_ok v" and "dsse_signature_from_json v = Some s"
  then obtain m where m: "members_text_ok m"
    and s: "required string_from_json ''keyid'' m = Some (keyid s)"
      "required string_from_json ''sig'' m = Some (dsse_sig s)"
    using struct_members_text_ok [OF v] by (fastforce simp: dsse_signature_from_json_def split: Option.bind_splits)
  from s [THEN reads_required [OF reads_string m]]
  show "utf8_valid (keyid s) \<and> utf8_valid (dsse_sig s)" by simp
qed

lemma reads_envelope:
  "reads dsse_envelope_from_json (\<lambda>e. \<forall>x \<in> set (envelope_strings e). utf8_valid x)"
  unfolding reads_def
proof (intro allI impI)
  fix v e assume v: "json_text_ok v" and "dsse_envelope_from_json v = Some e"
  then obtain m where m: "members_text_ok m"
    and e: "required string_from_json ''payloadType'' m = Some (payload_type e)"
      "required string_from_json ''payload'' m = Some (payload e)"
      "required (vec_from_json dsse_signature_from_json) ''signatures'' m = Some (signatures e)"
    using struct_members_text_ok [OF v] by (fastforce simp: dsse_envelope_from_json_def split: Option.bind_splits)
  from e(1,2) [THEN reads_required [OF reads_string m]] reads_required [OF reads_vec [OF reads_dsse_signature] m e(3)]
  show "\<forall>x \<in> set (envelope_strings e). utf8_valid x" by (auto simp: envelope_strings_def)
qed

text \<open>A record that was read: its shape and its contents are those of a record in memory.\<close>

definition record_read :: "aep_record \<Rightarrow> bool" where
  "record_read r \<longleftrightarrow> record_flat r \<and> wire_ok r"

lemma reads_record: "reads aep_record_from_json record_read"
  unfolding reads_def
proof (intro allI impI)
  fix v r assume v: "json_text_ok v" and "aep_record_from_json v = Some r"
  then obtain m where m: "v = JObject m" "members_text_ok m"
    and r: "extra r = catch_all aep_record_names m"
    "required string_from_json ''schema_version'' m = Some (schema_version r)"
    "required string_from_json ''run_id'' m = Some (run_id r)"
    "optional string_from_json ''trace_id'' m = Some (trace_id r)"
    "optional string_from_json ''session_id'' m = Some (session_id r)"
    "optional string_from_json ''user_id'' m = Some (user_id r)"
    "optional string_from_json ''authorized_by'' m = Some (authorized_by r)"
    "optional string_from_json ''authority_origin'' m = Some (authority_origin r)"
    "optional string_from_json ''identity_source'' m = Some (identity_source r)"
    "optional string_from_json ''attribution_backing'' m = Some (attribution_backing r)"
    "optional string_from_json ''run_attribution_backing_floor'' m = Some (run_attribution_backing_floor r)"
    "optional string_from_json ''run_side_effect_class_max'' m = Some (rec_side_effect_class_max r)"
    "optional string_from_json ''recording_mode'' m = Some (rec_recording_mode r)"
    and observed: "optional (vec_from_json string_from_json) ''run_attribution_backing_observed'' m =
      Some (run_attribution_backing_observed r)"
    and acts: "required (vec_from_json action_evidence_from_json) ''actions'' m = Some (actions r)"
    and env: "optional dsse_envelope_from_json ''dsse_envelope'' m = Some (dsse_envelope r)"
    and sgn: "optional aep_signature_from_json ''signature'' m = Some (signature r)"
    using object_members_text_ok
    by (auto simp: aep_record_from_json_def split: Option.bind_splits)
  note req = reads_required [OF reads_string m(2)] and opt = reads_optional [OF reads_string m(2)]
  have a: "\<forall>a \<in> set (actions r). action_read a"
    by (rule reads_required [OF reads_vec [OF reads_action] m(2) acts])
  from v m(1) catch_all_entries [of m aep_record_names] r(1) r(2,3) [THEN req] r(4-13) [THEN opt] a
    reads_optional [OF reads_vec [OF reads_string] m(2) observed]
  have "record_flat r" "record_ok r"
    by (simp_all add: record_flat_def record_ok_def record_strings_def record_extras_def action_read_def ball_Un)
  with reads_optional [OF reads_envelope m(2) env] reads_optional [OF reads_aep_signature m(2) sgn]
  show "record_read r"
    by (simp add: record_read_def wire_ok_def)
qed

section \<open>Properties\<close>

lemma record_value_back:
  assumes "record_flat r" "wire_ok r"
  shows "aep_record_from_json (aep_record_to_value r) = Some r"
proof -
  from assms have x: "\<forall>v \<in> set (record_extras r). json_ok v" by (simp add: wire_ok_def record_ok_def)
  have "distinct (map fst (aep_record_fields dsse_envelope_written action_evidence_written aep_signature_written r @ extra r))"
    using assms(1) by (intro flat_distinct [OF record_fields_ok]) (simp_all add: record_flat_def)
  with assms have "json_strings_ok (aep_record_written r)"
    by (intro record_text_ok) (simp_all add: record_flat_def)
  moreover have "order_free aep_record_from_json" by simp
  ultimately have "aep_record_from_json (json_rebuild (aep_record_written r)) = aep_record_from_json (aep_record_written r)"
    unfolding order_free_def by blast
  then show ?thesis by (simp add: rebuild_record [OF x] record_written_back [OF assms(1) x])
qed

interpretation record_wire: wire_type aep_record_written aep_record_from_json
  "\<lambda>r. record_flat r \<and> wire_ok r \<and> (\<forall>v \<in> set (record_extras r). json_plain 123 v)"
proof unfold_locales
  fix r assume r: "record_flat r \<and> wire_ok r \<and> (\<forall>v \<in> set (record_extras r). json_plain 123 v)"
  then show "aep_record_from_json (aep_record_written r) = Some r"
    by (intro record_written_back) (simp_all add: wire_ok_def record_ok_def)
  have "distinct (map fst (aep_record_fields dsse_envelope_written action_evidence_written aep_signature_written r @ extra r))"
    using r by (intro flat_distinct [OF record_fields_ok]) (simp_all add: record_flat_def)
  with r show "json_strings_ok (aep_record_written r)"
    by (intro record_text_ok) (simp_all add: record_flat_def)
  show "json_plain json_depth_limit (aep_record_written r)"
    using record_written_plain [of r 123] r by (simp add: json_depth_limit_def)
qed

lemma record_text_back:
  "json_parses X \<Longrightarrow> record_flat r \<Longrightarrow> wire_ok r \<Longrightarrow> \<forall>v \<in> set (record_extras r). json_plain 123 v \<Longrightarrow>
     aep_record_from_slice X (aep_record_to_string X r) = Inr r"
  unfolding aep_record_from_slice_def aep_record_to_string_def by (rule record_wire.text_back) simp_all

text \<open>C14: a record that is written as JSON text and read again is the same record, member by
member, signatures and catch-all maps included, within these limits: its strings are UTF-8 and its
catch-all maps are in key order; no catch-all map holds a member its struct declares; and the values
in the maps contain no floating point number and nest at most 123 containers. Every record read
from a text is within the first two limits. The records the emitter assembles are outside the
second: they hold \<open>identity_source\<close> in the catch-all map, and are read back with it in the declared
field, and verify (the property on transported evidence).\<close>

theorem record_text_round_trip:
  assumes "json_parses X" "record_flat r" "wire_ok r" "\<forall>v \<in> set (record_extras r). json_plain 123 v"
  shows "aep_record_from_slice X (aep_record_to_string X r) = Inr r"
  using assms by (rule record_text_back)

text \<open>C15: whatever record is read from a text, its strings are UTF-8, its catch-all maps are in
key order at every level and never hold a declared name, and it is what is read from its own
serialization: reading normalises once.\<close>

theorem deserialized_record_well_formed:
  assumes "json_text_ok v" "aep_record_from_json v = Some r"
  shows "record_flat r \<and> record_ok r \<and> wire_ok r \<and> aep_record_from_json (aep_record_to_value r) = Some r"
proof -
  have "record_read r" using reads_record assms by (simp add: reads_def)
  then show ?thesis by (simp add: record_read_def wire_ok_def record_value_back)
qed

text \<open>C29: members a record does not declare survive reading and writing: the members of an
undeclared name in the catch-all map, in the record as a JSON value and in the text it is
written as are none if the text that was read has none (so no undeclared member is added), and
otherwise exactly one, with the value that text lists last, \<open>null\<close> included, at whatever place.\<close>

theorem undeclared_members_survive:
  assumes "aep_record_from_json (JObject m) = Some r" "k \<notin> aep_record_names"
  shows "\<exists>w w'. aep_record_to_value r = JObject w \<and> aep_record_written r = JObject w' \<and>
    members k (extra r) = (case map_of (rev m) k of None \<Rightarrow> [] | Some v \<Rightarrow> [json_rebuild v]) \<and>
    members k w = members k (extra r) \<and> members k w' = members k (extra r)"
proof -
  from assms(1) have e: "extra r = catch_all aep_record_names m"
    by (auto simp: aep_record_from_json_def split: Option.bind_splits)
  have "map_of (rev (map (\<lambda>(k, v). (k, json_rebuild v)) (filter (\<lambda>(k, v). k \<notin> aep_record_names) m))) k =
      map_option json_rebuild (map_of (rev m) k)" for m :: "(string \<times> json) list"
    using assms(2) by (simp only: rev_map rev_filter map_of_map comp_apply map_of_filter_key if_True simp_thms)
  then have lookup: "map_of (extra r) k = map_option json_rebuild (map_of (rev m) k)"
    by (simp add: e catch_all_def map_of_map_collect)
  have extra_ok: "map_ok (extra r)" by (simp add: e catch_all_def)
  then have in_extra: "members k (extra r) = option_list (map_of (extra r) k)"
    by (intro members_distinct map_ok_distinct)
  have declared: "k \<notin> fst ` set (rev (aep_record_declared r))"
    using record_declared_ok(2) [of r] assms(2) by auto
  obtain w where w: "aep_record_to_value r = JObject w" "w = map_collect (aep_record_declared r @ extra r)"
    by (simp add: aep_record_to_value_def)
  have "map_of w k = map_of (extra r) k"
    using declared map_of_None [OF declared] extra_ok
    by (simp add: w map_of_map_collect map_add_def map_of_rev map_ok_distinct split: option.split)
  moreover have "members k w = option_list (map_of w k)"
    unfolding w(2) by (intro members_distinct map_ok_distinct map_collect_ok)
  ultimately have same: "members k w = members k (extra r)" by (simp add: in_extra)
  let ?d = "aep_record_fields dsse_envelope_written action_evidence_written aep_signature_written r"
  have "k \<notin> fst ` set ?d"
    using record_fields_ok(2) [of dsse_envelope_written action_evidence_written aep_signature_written r] assms(2) by auto
  then have "members k ?d = []"
    by (force simp: members_def filter_empty_conv)
  then have "members k (?d @ extra r) = members k (extra r)"
    by (simp add: members_def)
  with same lookup in_extra w(1) show ?thesis
    by (auto simp: aep_record_written_def split: option.split)
qed

text \<open>C30: two texts of the same value, whatever the order of the members at any level, are
read as the same record, or both as an error.\<close>

theorem reading_ignores_member_order:
  assumes "json_strings_ok v" "json_strings_ok v'" "json_rebuild v = json_rebuild v'"
  shows "aep_record_from_json v = aep_record_from_json v'"
  using record_order_free assms unfolding order_free_def by metis

definition required_record_names :: "string set" where
  "required_record_names = {''schema_version'', ''run_id'', ''actions'', ''created_at_ms''}"

text \<open>C28: a text that lists a declared member of a record twice, or not at all where it is
required, or as \<open>null\<close> where it is required, is rejected.\<close>

theorem malformed_record_rejected:
  assumes "(\<exists>k \<in> aep_record_names. 2 \<le> length (members k m)) \<or>
    (\<exists>k \<in> required_record_names. members k m = [] \<or> members k m = [JNull])"
  shows "aep_record_from_json (JObject m) = None"
proof (rule ccontr)
  assume "aep_record_from_json (JObject m) \<noteq> None"
  then obtain r where r: "aep_record_from_json (JObject m) = Some r" by auto
  have "length (members k m) < 2" if "k \<in> aep_record_names" for k
    using r that by (auto simp: aep_record_from_json_def aep_record_names_def
        split: Option.bind_splits dest!: required_members optional_members)
  moreover have "members k m \<noteq> [] \<and> members k m \<noteq> [JNull]" if "k \<in> required_record_names" for k
    using r that by (auto simp: aep_record_from_json_def required_record_names_def string_from_json_def
        vec_from_json_def split: Option.bind_splits dest!: required_members)
  ultimately show False using assms by force
qed

end
