(* ===== verification/Policy_Wire.thy ===== *)
theory Policy_Wire
  imports Wire_Round_Trip
begin

text \<open>
  The derived \<open>Serialize\<close> and \<open>Deserialize\<close> of the policy types (\<open>crates/aep-core/src/recording.rs\<close>)
  and of \<open>McpHeaderRisk\<close> (\<open>evidence.rs\<close>): enumerations by their snake-case names, structs member by
  member. The snake-case name of a side-effect class is not its canonical name, which is hyphenated.
\<close>

section \<open>Enumerations\<close>

fun side_effect_class_name :: "side_effect_class \<Rightarrow> string" where
  "side_effect_class_name Read = ''read''"
| "side_effect_class_name MutateLocal = ''mutate_local''"
| "side_effect_class_name MutateExternal = ''mutate_external''"
| "side_effect_class_name NetworkEgress = ''network_egress''"
| "side_effect_class_name Unknown = ''unknown''"

definition side_effect_class_from_json :: "json \<Rightarrow> side_effect_class option" where
  "side_effect_class_from_json v = do {
     s \<leftarrow> unit_variant v;
     if s = ''read'' then Some Read
     else if s = ''mutate_local'' then Some MutateLocal
     else if s = ''mutate_external'' then Some MutateExternal
     else if s = ''network_egress'' then Some NetworkEgress
     else if s = ''unknown'' then Some Unknown
     else None }"

text \<open>The derived name of a risk is the one \<open>as_str\<close> gives.\<close>

definition mcp_header_risk_from_json :: "json \<Rightarrow> mcp_header_risk option" where
  "mcp_header_risk_from_json v = do {
     s \<leftarrow> unit_variant v;
     if s = ''credential_leak'' then Some CredentialLeak
     else if s = ''high_entropy_value'' then Some HighEntropyValue
     else if s = ''pii_leak'' then Some PiiLeak
     else None }"

lemma side_effect_class_back [simp]: "side_effect_class_from_json (JString (side_effect_class_name c)) = Some c"
  by (cases c) (simp_all add: side_effect_class_from_json_def unit_variant_def)

lemma mcp_header_risk_back [simp]: "mcp_header_risk_from_json (JString (mcp_header_risk_as_str r)) = Some r"
  by (cases r) (simp_all add: mcp_header_risk_from_json_def unit_variant_def)

lemma enumeration_names_valid [simp]:
  "utf8_valid (side_effect_class_name c)" "utf8_valid (mcp_header_risk_as_str r)"
  by (cases c; simp add: utf8_valid_literal) (cases r; simp add: utf8_valid_literal)

text \<open>
  The names a class has on the wire and in the canonical vocabulary agree exactly on the classes
  of one word, so the reader rejects the canonical name of every other.
\<close>

lemma canonical_name_read_iff:
  "side_effect_class_from_json (JString (canonical_str c)) =
     (if c \<in> {MutateLocal, MutateExternal, NetworkEgress} then None else Some c)"
  by (cases c) (simp_all add: side_effect_class_from_json_def unit_variant_def)

section \<open>Structs\<close>

definition risk_context_written :: "risk_context \<Rightarrow> json" where
  "risk_context_written ctx = JObject
     [(''was_vetted'', JBool (was_vetted ctx)),
      (''has_consent_anomaly'', JBool (has_consent_anomaly ctx)),
      (''taint_chain_length'', json_u64 (ucast (taint_chain_length ctx))),
      (''side_effect_class'', JString (side_effect_class_name (risk_class ctx)))]"

definition recording_policy_written :: "recording_policy \<Rightarrow> json" where
  "recording_policy_written p = JObject
     [(''mode'', JString (recording_mode_as_str (mode p))),
      (''reason'', JString (reason p))]"

definition u32_from_json :: "json \<Rightarrow> u32 option" where
  "u32_from_json v = do {
     n \<leftarrow> u64_from_json v;
     if unat n < 2 ^ 32 then Some (ucast n) else None }"

definition risk_context_from_json :: "json \<Rightarrow> risk_context option" where
  "risk_context_from_json v = do {
     m \<leftarrow> struct_members [''was_vetted'', ''has_consent_anomaly'', ''taint_chain_length'', ''side_effect_class''] v;
     vetted \<leftarrow> required bool_from_json ''was_vetted'' m;
     anomaly \<leftarrow> required bool_from_json ''has_consent_anomaly'' m;
     taint \<leftarrow> required u32_from_json ''taint_chain_length'' m;
     class \<leftarrow> required side_effect_class_from_json ''side_effect_class'' m;
     Some \<lparr>was_vetted = vetted, has_consent_anomaly = anomaly, taint_chain_length = taint, risk_class = class\<rparr> }"

definition recording_policy_from_json :: "json \<Rightarrow> recording_policy option" where
  "recording_policy_from_json v = do {
     m \<leftarrow> struct_members [''mode'', ''reason''] v;
     rmode \<leftarrow> required recording_mode_from_json ''mode'' m;
     why \<leftarrow> required string_from_json ''reason'' m;
     Some \<lparr>mode = rmode, reason = why\<rparr> }"

lemma u32_back [simp]: "u32_from_json (json_u64 (ucast (n :: u32))) = Some n"
proof -
  have n: "unat n < 2 ^ 32" using unsigned_less [where w = n and ?'a = nat] by simp
  then have "unat (ucast n :: u64) = unat n"
    by (simp add: unsigned_ucast_eq take_bit_nat_eq_self)
  moreover have "ucast (ucast n :: u64) = n" by transfer simp
  ultimately show ?thesis using n by (simp add: u32_from_json_def json_u64_def)
qed

lemmas policy_field_evals = required_def field_def members_def string_from_json_def

interpretation risk_context_wire: wire_type risk_context_written risk_context_from_json "\<lambda>_. True"
proof unfold_locales
  fix ctx
  show "risk_context_from_json (risk_context_written ctx) = Some ctx"
    by (simp add: risk_context_from_json_def risk_context_written_def policy_field_evals)
  show "json_strings_ok (risk_context_written ctx)"
    by (simp add: risk_context_written_def json_u64_def utf8_valid_literal)
  have "json_plain (Suc 0) (risk_context_written ctx)"
    by (simp add: risk_context_written_def json_plain_object)
  then show "json_plain json_depth_limit (risk_context_written ctx)"
    by (rule json_plain_mono) (simp add: json_depth_limit_def)
qed

interpretation recording_policy_wire: wire_type recording_policy_written recording_policy_from_json
  "\<lambda>p. utf8_valid (reason p)"
proof unfold_locales
  fix p :: recording_policy assume p: "utf8_valid (reason p)"
  show "recording_policy_from_json (recording_policy_written p) = Some p"
    by (simp add: recording_policy_from_json_def recording_policy_written_def policy_field_evals)
  show "json_strings_ok (recording_policy_written p)"
    using p by (simp add: recording_policy_written_def utf8_valid_literal)
  have "json_plain (Suc 0) (recording_policy_written p)"
    by (simp add: recording_policy_written_def json_plain_object)
  then show "json_plain json_depth_limit (recording_policy_written p)"
    by (rule json_plain_mono) (simp add: json_depth_limit_def)
qed

section \<open>A verdict travels\<close>

text \<open>
  Risk signals written by one process and compiled by another give the verdict of the first, and the
  verdict can be sent back: writing and reading lose nothing of either.
\<close>

lemma reason_valid: "utf8_valid (reason (compile_recording_policy ctx))"
  by (simp add: compile_recording_policy_def utf8_valid_literal)

lemma verdict_travels:
  assumes "json_parses X"
  shows "from_slice risk_context_from_json X (json_render (json_to_string X) (risk_context_written ctx)) = Inr ctx \<and>
    from_slice recording_policy_from_json X
      (json_render (json_to_string X) (recording_policy_written (compile_recording_policy ctx))) =
    Inr (compile_recording_policy ctx)"
  using risk_context_wire.text_back [OF assms] recording_policy_wire.text_back [OF assms reason_valid] by simp

end
