(* ===== verification/Prov_Wire.thy ===== *)
theory Prov_Wire
  imports Prov Wire_Round_Trip
begin

text \<open>
  The derived \<open>Serialize\<close> and \<open>Deserialize\<close> of the provenance graph (\<open>crates/aep-core/src/prov.rs\<close>).
  No field is skipped or flattened, so an absent value is written as \<open>null\<close>; a \<open>HashMap\<close> is an object
  whose members come in the iteration order of the map, which is arbitrary: a parameter that lists
  its keys. Reading a map, the last of several members of one name stays.
\<close>

section \<open>Hash maps\<close>

text \<open>An iteration over a map visits each key once.\<close>

definition lists_keys :: "string list \<Rightarrow> (string, 'v) fmap \<Rightarrow> bool" where
  "lists_keys ks m \<longleftrightarrow> distinct ks \<and> set ks = fset (fmdom m)"

definition hash_map_written :: "('v \<Rightarrow> json) \<Rightarrow> string list \<Rightarrow> (string, 'v) fmap \<Rightarrow> json" where
  "hash_map_written written ks m = JObject (map (\<lambda>k. (k, written (the (fmlookup m k)))) ks)"

definition hash_map_from_json :: "(json \<Rightarrow> 'v option) \<Rightarrow> json \<Rightarrow> (string, 'v) fmap option" where
  "hash_map_from_json from v = do {
     m \<leftarrow> as_object v;
     entries \<leftarrow> those (map (\<lambda>(k, x). map_option (Pair k) (from x)) m);
     Some (fmap_of_list (rev entries)) }"

lemma those_map_image: "(\<And>x. x \<in> set xs \<Longrightarrow> f x = Some (g x)) \<Longrightarrow> those (map f xs) = Some (map g xs)"
  by (induction xs) simp_all

lemma those_snoc:
  "those (xs @ [x]) = (case those xs of None \<Rightarrow> None | Some ys \<Rightarrow> map_option (\<lambda>y. ys @ [y]) x)"
  by (induction xs) (auto simp: option.map_comp comp_def split: option.split)

lemma listed_value: "lists_keys ks m \<Longrightarrow> k \<in> set ks \<Longrightarrow> the (fmlookup m k) \<in> fmran' m"
  by (auto simp: lists_keys_def fmran'_alt_def fmlookup_dom_iff intro: fmranI)

lemma fmap_of_listing: "lists_keys ks m \<Longrightarrow> fmap_of_list (map (\<lambda>k. (k, the (fmlookup m k))) ks) = m"
proof (rule fmap_ext)
  fix k assume "lists_keys ks m"
  then show "fmlookup (fmap_of_list (map (\<lambda>k. (k, the (fmlookup m k))) ks)) k = fmlookup m k"
    by (cases "fmlookup m k")
      (auto simp: fmlookup_of_list lists_keys_def map_of_map_restrict restrict_map_def fmdom_notI dest: fmdomI)
qed

lemma hash_map_back:
  assumes "lists_keys ks m" "\<And>x. x \<in> fmran' m \<Longrightarrow> from (written x) = Some x"
  shows "hash_map_from_json from (hash_map_written written ks m) = Some m"
proof -
  have "lists_keys (rev ks) m" using assms(1) by (simp add: lists_keys_def)
  moreover have "those (map (\<lambda>k. map_option (Pair k) (from (written (the (fmlookup m k))))) ks) =
      Some (map (\<lambda>k. (k, the (fmlookup m k))) ks)"
    using assms(2) listed_value [OF assms(1)] by (intro those_map_image) simp
  ultimately show ?thesis
    by (simp add: hash_map_from_json_def hash_map_written_def comp_def rev_map fmap_of_listing)
qed

text \<open>Of two members with one name the last one counts, whatever stands between them.\<close>

lemma hash_map_last_member_wins:
  assumes "hash_map_from_json from (JObject (m @ [(k, v)])) = Some g"
  shows "from v = fmlookup g k"
  using assms
  by (auto simp: hash_map_from_json_def fmlookup_of_list those_snoc split: Option.bind_splits option.splits)

section \<open>The graph\<close>

definition prov_activity_written :: "prov_activity \<Rightarrow> json" where
  "prov_activity_written a = JObject
     [(''id'', JString (activity_id a)),
      (''label'', JString (activity_label a)),
      (''used'', json_strings (used a)),
      (''generated'', json_strings (generated a)),
      (''timestamp_ms'', json_u64 (activity_timestamp_ms a))]"

definition prov_entity_written :: "prov_entity \<Rightarrow> json" where
  "prov_entity_written e = JObject
     [(''id'', JString (entity_id e)),
      (''digest'', json_option JString (digest e)),
      (''generated_by'', json_option JString (generated_by e))]"

definition prov_agent_written :: "prov_agent \<Rightarrow> json" where
  "prov_agent_written a = JObject [(''id'', JString (agent_id a)), (''label'', JString (agent_label a))]"

text \<open>The three lists are the orders in which the maps are iterated.\<close>

definition prov_graph_written :: "string list \<Rightarrow> string list \<Rightarrow> string list \<Rightarrow> prov_graph \<Rightarrow> json" where
  "prov_graph_written acts ents agts g = JObject
     [(''activities'', hash_map_written prov_activity_written acts (activities g)),
      (''entities'', hash_map_written prov_entity_written ents (entities g)),
      (''agents'', hash_map_written prov_agent_written agts (agents g))]"

definition prov_activity_from_json :: "json \<Rightarrow> prov_activity option" where
  "prov_activity_from_json v = do {
     m \<leftarrow> struct_members [''id'', ''label'', ''used'', ''generated'', ''timestamp_ms''] v;
     i \<leftarrow> required string_from_json ''id'' m;
     l \<leftarrow> required string_from_json ''label'' m;
     us \<leftarrow> required (vec_from_json string_from_json) ''used'' m;
     gs \<leftarrow> required (vec_from_json string_from_json) ''generated'' m;
     ts \<leftarrow> required u64_from_json ''timestamp_ms'' m;
     Some \<lparr>activity_id = i, activity_label = l, used = us, generated = gs, activity_timestamp_ms = ts\<rparr> }"

definition prov_entity_from_json :: "json \<Rightarrow> prov_entity option" where
  "prov_entity_from_json v = do {
     m \<leftarrow> struct_members [''id'', ''digest'', ''generated_by''] v;
     i \<leftarrow> required string_from_json ''id'' m;
     d \<leftarrow> optional string_from_json ''digest'' m;
     b \<leftarrow> optional string_from_json ''generated_by'' m;
     Some \<lparr>entity_id = i, digest = d, generated_by = b\<rparr> }"

definition prov_agent_from_json :: "json \<Rightarrow> prov_agent option" where
  "prov_agent_from_json v = do {
     m \<leftarrow> struct_members [''id'', ''label''] v;
     i \<leftarrow> required string_from_json ''id'' m;
     l \<leftarrow> required string_from_json ''label'' m;
     Some \<lparr>agent_id = i, agent_label = l\<rparr> }"

definition prov_graph_from_json :: "json \<Rightarrow> prov_graph option" where
  "prov_graph_from_json v = do {
     m \<leftarrow> struct_members [''activities'', ''entities'', ''agents''] v;
     acts \<leftarrow> required (hash_map_from_json prov_activity_from_json) ''activities'' m;
     ents \<leftarrow> required (hash_map_from_json prov_entity_from_json) ''entities'' m;
     agts \<leftarrow> required (hash_map_from_json prov_agent_from_json) ''agents'' m;
     Some \<lparr>activities = acts, entities = ents, agents = agts\<rparr> }"

definition prov_graph_to_string ::
  "('sk, 'vk) crates \<Rightarrow> string list \<Rightarrow> string list \<Rightarrow> string list \<Rightarrow> prov_graph \<Rightarrow> string" where
  "prov_graph_to_string X acts ents agts g = json_render (json_to_string X) (prov_graph_written acts ents agts g)"

definition prov_graph_from_slice :: "('sk, 'vk) crates \<Rightarrow> bytes \<Rightarrow> string + prov_graph" where
  "prov_graph_from_slice = from_slice prov_graph_from_json"

section \<open>Written and read\<close>

lemmas field_evals = required_def optional_def field_def members_def

lemma prov_activity_back: "prov_activity_from_json (prov_activity_written a) = Some a"
  by (simp add: prov_activity_from_json_def prov_activity_written_def field_evals)

lemma prov_entity_back: "prov_entity_from_json (prov_entity_written e) = Some e"
  by (simp add: prov_entity_from_json_def prov_entity_written_def field_evals)

lemma prov_agent_back: "prov_agent_from_json (prov_agent_written a) = Some a"
  by (simp add: prov_agent_from_json_def prov_agent_written_def field_evals)

lemma prov_graph_back:
  assumes "lists_keys acts (activities g)" "lists_keys ents (entities g)" "lists_keys agts (agents g)"
  shows "prov_graph_from_json (prov_graph_written acts ents agts g) = Some g"
  by (simp add: prov_graph_from_json_def prov_graph_written_def field_evals
      hash_map_back [OF assms(1) prov_activity_back] hash_map_back [OF assms(2) prov_entity_back]
      hash_map_back [OF assms(3) prov_agent_back])

text \<open>In memory every string is UTF-8.\<close>

definition prov_graph_ok :: "prov_graph \<Rightarrow> bool" where
  "prov_graph_ok g \<longleftrightarrow>
     (\<forall>k \<in> fset (fmdom (activities g)) \<union> fset (fmdom (entities g)) \<union> fset (fmdom (agents g)). utf8_valid k) \<and>
     (\<forall>a \<in> fmran' (activities g). \<forall>s \<in> set ([activity_id a, activity_label a] @ used a @ generated a). utf8_valid s) \<and>
     (\<forall>e \<in> fmran' (entities g). \<forall>s \<in> set (entity_id e # option_list (digest e) @ option_list (generated_by e)). utf8_valid s) \<and>
     (\<forall>a \<in> fmran' (agents g). utf8_valid (agent_id a) \<and> utf8_valid (agent_label a))"

lemma hash_map_strings_ok:
  assumes "lists_keys ks m" "\<forall>k \<in> fset (fmdom m). utf8_valid k" "\<And>x. x \<in> fmran' m \<Longrightarrow> json_strings_ok (written x)"
  shows "json_strings_ok (hash_map_written written ks m)"
  using assms listed_value [OF assms(1)] by (auto simp: hash_map_written_def lists_keys_def comp_def)

lemma hash_map_plain:
  assumes "lists_keys ks m" "\<And>x. x \<in> fmran' m \<Longrightarrow> json_plain n (written x)"
  shows "json_plain (Suc n) (hash_map_written written ks m)"
  using assms listed_value [OF assms(1)] by (auto simp: hash_map_written_def json_plain_object entries_plain_def)

lemma prov_graph_strings_ok:
  assumes "lists_keys acts (activities g)" "lists_keys ents (entities g)" "lists_keys agts (agents g)" "prov_graph_ok g"
  shows "json_strings_ok (prov_graph_written acts ents agts g)"
proof -
  have "json_strings_ok (hash_map_written prov_activity_written acts (activities g))"
    using assms(4) by (intro hash_map_strings_ok [OF assms(1)])
      (auto simp: prov_graph_ok_def prov_activity_written_def json_strings_def json_u64_def utf8_valid_literal)
  moreover have "json_strings_ok (hash_map_written prov_entity_written ents (entities g))"
    using assms(4) by (intro hash_map_strings_ok [OF assms(2)])
      (auto simp: prov_graph_ok_def prov_entity_written_def utf8_valid_literal)
  moreover have "json_strings_ok (hash_map_written prov_agent_written agts (agents g))"
    using assms(4) by (intro hash_map_strings_ok [OF assms(3)])
      (auto simp: prov_graph_ok_def prov_agent_written_def utf8_valid_literal)
  ultimately show ?thesis by (simp add: prov_graph_written_def utf8_valid_literal)
qed

lemma prov_graph_plain:
  assumes "lists_keys acts (activities g)" "lists_keys ents (entities g)" "lists_keys agts (agents g)"
  shows "json_plain json_depth_limit (prov_graph_written acts ents agts g)"
proof -
  have "json_plain (Suc (Suc (Suc 0))) (hash_map_written prov_activity_written acts (activities g))"
    by (rule hash_map_plain [OF assms(1)]) (simp add: prov_activity_written_def json_plain_object)
  moreover have "json_plain (Suc (Suc (Suc 0))) (hash_map_written prov_entity_written ents (entities g))"
    by (rule hash_map_plain [OF assms(2)]) (simp add: prov_entity_written_def json_plain_object)
  moreover have "json_plain (Suc (Suc (Suc 0))) (hash_map_written prov_agent_written agts (agents g))"
    by (rule hash_map_plain [OF assms(3)]) (simp add: prov_agent_written_def json_plain_object)
  ultimately have "json_plain (Suc (Suc (Suc (Suc 0)))) (prov_graph_written acts ents agts g)"
    by (simp add: prov_graph_written_def json_plain_object)
  then show ?thesis by (rule json_plain_mono) (simp add: json_depth_limit_def)
qed

interpretation prov_graph_wire: wire_type "prov_graph_written acts ents agts" prov_graph_from_json
  "\<lambda>g. lists_keys acts (activities g) \<and> lists_keys ents (entities g) \<and> lists_keys agts (agents g) \<and> prov_graph_ok g"
  for acts ents agts
  by unfold_locales (simp_all add: prov_graph_back prov_graph_strings_ok prov_graph_plain)

section \<open>Properties\<close>

text \<open>C16: a provenance graph that is written as JSON text and read again is the same graph, in
whatever order its hash maps are iterated while it is written.\<close>

theorem prov_graph_text_round_trip:
  assumes "json_parses X" "prov_graph_ok g"
    and "lists_keys acts (activities g)" "lists_keys ents (entities g)" "lists_keys agts (agents g)"
  shows "prov_graph_from_slice X (prov_graph_to_string X acts ents agts g) = Inr g"
  unfolding prov_graph_from_slice_def prov_graph_to_string_def
  using assms by (intro prov_graph_wire.text_back) simp_all

end
