(* ===== verification/Dsse.thy ===== *)
theory Dsse
  imports Canonical_Json Wire_Form
begin

text \<open>
  \<open>crates/aep-core/src/dsse.rs\<close> and \<open>signing.rs\<close>: the DSSE/in-toto envelope. Signing checks the
  backing floor, canonicalizes the stripped record, wraps it in an in-toto statement and signs the
  pre-authentication encoding; verification runs the checks of the source in their order. The
  error strings of the source are the constructors of \<open>dsse_error\<close>, their interpolated parts the
  arguments. The locale \<open>attestation\<close> is the contract the emitter relies on.
\<close>

section \<open>Errors and constants\<close>

datatype dsse_error =
    FloorWithoutObserved
  | FloorObservedEmpty
  | ObservedEmpty
  | FloorTooStrong string string
  | ObservedWithoutFloor
  | EnvelopeMissing
  | UnexpectedPayloadType string
  | NoSignatures
  | SignatureCount nat
  | PayloadBase64 string
  | SigBase64 string
  | SigLength
  | SignatureInvalid string
  | StatementParse string
  | StatementTypeMissing
  | StatementTypeMismatch string
  | PredicateTypeMissing
  | PredicateTypeMismatch string
  | SubjectNotArray
  | SubjectEmpty
  | SubjectNameMissing
  | SubjectNameMismatch string string
  | DigestNotObject
  | DigestMissing
  | DigestMismatch string string

definition IN_TOTO_PAYLOAD_TYPE :: string where
  "IN_TOTO_PAYLOAD_TYPE = ''application/vnd.in-toto+json''"

definition IN_TOTO_STATEMENT_TYPE :: string where
  "IN_TOTO_STATEMENT_TYPE = ''https://in-toto.io/Statement/v1''"

definition AEP_PREDICATE_TYPE :: string where
  "AEP_PREDICATE_TYPE = ''https://wasmagent.dev/attestations/aep/v0.4''"

text \<open>The error strings of the source, with what they interpolate.\<close>

fun dsse_error_text :: "dsse_error \<Rightarrow> string" where
  "dsse_error_text FloorWithoutObserved = ''floor set but observed absent''"
| "dsse_error_text FloorObservedEmpty = ''floor set but observed is empty''"
| "dsse_error_text ObservedEmpty = ''observed is empty''"
| "dsse_error_text (FloorTooStrong flr weakest) =
     ''floor ('' @ flr @ '') is stronger than weakest observed ('' @ weakest @ '')''"
| "dsse_error_text ObservedWithoutFloor = ''observed set but floor absent''"
| "dsse_error_text EnvelopeMissing = ''dsse_envelope missing''"
| "dsse_error_text (UnexpectedPayloadType t) = ''unexpected payloadType: '' @ t"
| "dsse_error_text NoSignatures = ''no signatures in envelope''"
| "dsse_error_text (SignatureCount n) = ''AEP requires exactly one signature, got '' @ to_decimal n"
| "dsse_error_text (PayloadBase64 e) = ''payload base64 decode: '' @ e"
| "dsse_error_text (SigBase64 e) = ''sig base64 decode: '' @ e"
| "dsse_error_text SigLength = ''signature is not 64 bytes''"
| "dsse_error_text (SignatureInvalid e) = ''DSSE signature invalid: '' @ e"
| "dsse_error_text (StatementParse e) = ''statement JSON parse: '' @ e"
| "dsse_error_text StatementTypeMissing = ''statement._type missing or not a string''"
| "dsse_error_text (StatementTypeMismatch t) =
     ''statement._type mismatch: expected '' @ IN_TOTO_STATEMENT_TYPE @ '', got '' @ t"
| "dsse_error_text PredicateTypeMissing = ''statement.predicateType missing or not a string''"
| "dsse_error_text (PredicateTypeMismatch t) =
     ''predicateType mismatch: expected '' @ AEP_PREDICATE_TYPE @ '', got '' @ t"
| "dsse_error_text SubjectNotArray = ''statement.subject is not an array''"
| "dsse_error_text SubjectEmpty = ''statement.subject is empty''"
| "dsse_error_text SubjectNameMissing = ''subject[0].name missing or not a string''"
| "dsse_error_text (SubjectNameMismatch expected actual) =
     ''subject name mismatch: expected '' @ expected @ '', got '' @ actual"
| "dsse_error_text DigestNotObject = ''subject[0].digest is not an object''"
| "dsse_error_text DigestMissing = ''subject[0].digest.sha256 missing''"
| "dsse_error_text (DigestMismatch actual expected) =
     ''subject digest mismatch: envelope has '' @ actual @ '', record re-derives '' @ expected"

section \<open>Encodings\<close>

definition pae_encode :: "string \<Rightarrow> bytes \<Rightarrow> bytes" where
  "pae_encode ptype body =
     ''DSSEv1 '' @ to_decimal (length ptype) @ '' '' @ ptype @ '' '' @
     to_decimal (length body) @ '' '' @ body"

definition sha256_hex :: "('sk, 'vk) crates \<Rightarrow> bytes \<Rightarrow> string" where
  "sha256_hex X bs = hex_encode X (sha256 X bs)"

definition encode_signature :: "('sk, 'vk) crates \<Rightarrow> bytes \<Rightarrow> string" where
  "encode_signature X sig_bytes = b64_encode X sig_bytes"

text \<open>
  The source maps characters; the two it replaces and their replacements are ASCII, and in UTF-8
  an ASCII byte is never part of another character, so this is a map over the bytes.
\<close>

definition standard_char :: "char \<Rightarrow> char" where
  "standard_char c = (if c = CHR ''-'' then CHR ''+'' else if c = CHR ''_'' then CHR ''/'' else c)"

definition decode_base64_lenient :: "('sk, 'vk) crates \<Rightarrow> string \<Rightarrow> (string, bytes) outcome" where
  "decode_base64_lenient X input =
     (let normalized = map standard_char input;
          normalized = (if length normalized mod 4 = 2 then normalized @ ''==''
                        else if length normalized mod 4 = 3 then normalized @ ''=''
                        else normalized)
      in map_err (b64_decode X normalized) (\<lambda>_. ''dsse signature is not valid base64''))"

section \<open>The in-toto statement\<close>

definition run_urn :: "string \<Rightarrow> string" where
  "run_urn rid = ''urn:wasmagent:run:'' @ rid"

definition wrap_in_toto_statement :: "json \<Rightarrow> string \<Rightarrow> string \<Rightarrow> json" where
  "wrap_in_toto_statement predicate rid payload_digest_hex =
     JObject (map_collect
       [(''_type'', JString ''https://in-toto.io/Statement/v1''),
        (''subject'', JArray [JObject (map_collect
           [(''name'', JString (run_urn rid)),
            (''digest'', JObject (map_collect [(''sha256'', JString payload_digest_hex)]))])]),
        (''predicateType'', JString AEP_PREDICATE_TYPE),
        (''predicate'', predicate)])"

section \<open>Signing\<close>

fun grade_rank :: "string \<Rightarrow> nat" where
  "grade_rank g =
     (if g = ''none'' then 0
      else if g = ''operator_asserted'' then 1
      else if g = ''principal_key_signed'' then 2
      else if g = ''organization_attested'' then 3
      else if g = ''subject_consented'' then 4
      else 0)"

definition check_backing_floor :: "aep_record \<Rightarrow> (dsse_error, unit) outcome" where
  "check_backing_floor r =
     (case run_attribution_backing_floor r of
        Some flr \<Rightarrow>
          and_then (ok_or (run_attribution_backing_observed r) FloorWithoutObserved) (\<lambda>observed.
          and_then (fail_if (observed = []) FloorObservedEmpty) (\<lambda>_.
          and_then (ok_or (min_by_key grade_rank observed) ObservedEmpty) (\<lambda>weakest.
          fail_if (grade_rank flr > grade_rank weakest) (FloorTooStrong flr weakest))))
      | None \<Rightarrow> fail_if (run_attribution_backing_observed r \<noteq> None) ObservedWithoutFloor)"

definition strip_signing :: "aep_record \<Rightarrow> aep_record" where
  "strip_signing r = r\<lparr>signature := None, dsse_envelope := None\<rparr>"

definition record_predicate :: "aep_record \<Rightarrow> json" where
  "record_predicate r = aep_record_to_value (strip_signing r)"

definition record_digest :: "('sk, 'vk) crates \<Rightarrow> aep_record \<Rightarrow> string" where
  "record_digest X r = sha256_hex X (canonical_json X (record_predicate r))"

definition record_statement :: "('sk, 'vk) crates \<Rightarrow> aep_record \<Rightarrow> json" where
  "record_statement X r = wrap_in_toto_statement (record_predicate r) (run_id r) (record_digest X r)"

definition seal_statement :: "('sk, 'vk) crates \<Rightarrow> bytes \<Rightarrow> 'sk \<Rightarrow> string \<Rightarrow> dsse_envelope" where
  "seal_statement X statement_bytes key kid =
     (let payload_b64 = b64_encode X statement_bytes;
          pae = pae_encode IN_TOTO_PAYLOAD_TYPE statement_bytes;
          sig_b64 = encode_signature X (ed_sign X key pae)
      in \<lparr>payload_type = IN_TOTO_PAYLOAD_TYPE, payload = payload_b64,
          signatures = [\<lparr>keyid = kid, dsse_sig = sig_b64\<rparr>]\<rparr>)"

text \<open>The mutated record and the result; an early return leaves the record as it was.\<close>

definition sign_record_dsse ::
  "('sk, 'vk) crates \<Rightarrow> aep_record \<Rightarrow> 'sk \<Rightarrow> string \<Rightarrow> aep_record \<times> (dsse_error, unit) outcome" where
  "sign_record_dsse X r key kid =
     (case check_backing_floor r of
        Ok _ \<Rightarrow>
          (let r = strip_signing r;
               statement_bytes = canonical_json X (record_statement X r)
           in (r\<lparr>dsse_envelope := Some (seal_statement X statement_bytes key kid)\<rparr>, Ok ()))
      | Err e \<Rightarrow> (r, Err e)
      | Panic \<Rightarrow> (r, Panic))"

section \<open>Verification\<close>

text \<open>The envelope and its signature; the result is the payload the signature covers.\<close>

definition verify_envelope ::
  "('sk, 'vk) crates \<Rightarrow> aep_record \<Rightarrow> 'vk \<Rightarrow> (dsse_error, bytes) outcome" where
  "verify_envelope X r vk =
     and_then (ok_or (dsse_envelope r) EnvelopeMissing) (\<lambda>envelope.
     and_then (fail_if (payload_type envelope \<noteq> IN_TOTO_PAYLOAD_TYPE)
                 (UnexpectedPayloadType (payload_type envelope))) (\<lambda>_.
     and_then (fail_if (signatures envelope = []) NoSignatures) (\<lambda>_.
     and_then (fail_if (length (signatures envelope) \<noteq> 1) (SignatureCount (length (signatures envelope)))) (\<lambda>_.
     and_then (map_err (b64_decode X (payload envelope)) PayloadBase64) (\<lambda>statement_bytes.
     and_then (case decode_base64_lenient X (dsse_sig (signatures envelope ! 0)) of
                 Ok bs \<Rightarrow> Ok bs | Err e \<Rightarrow> Err (SigBase64 e) | Panic \<Rightarrow> Panic) (\<lambda>sig_bytes.
     and_then (fail_if (length sig_bytes \<noteq> 64) SigLength) (\<lambda>_.
     and_then (map_err (ed_verify X vk (pae_encode IN_TOTO_PAYLOAD_TYPE statement_bytes) sig_bytes)
                 SignatureInvalid) (\<lambda>_.
     Ok statement_bytes))))))))"

definition check_statement_types :: "json \<Rightarrow> (dsse_error, unit) outcome" where
  "check_statement_types statement =
     and_then (ok_or (as_str (json_index statement ''_type'')) StatementTypeMissing) (\<lambda>actual_type.
     and_then (fail_if (actual_type \<noteq> IN_TOTO_STATEMENT_TYPE) (StatementTypeMismatch actual_type)) (\<lambda>_.
     and_then (ok_or (as_str (json_index statement ''predicateType'')) PredicateTypeMissing) (\<lambda>actual_predicate.
     fail_if (actual_predicate \<noteq> AEP_PREDICATE_TYPE) (PredicateTypeMismatch actual_predicate))))"

definition check_subject :: "json \<Rightarrow> string \<Rightarrow> string \<Rightarrow> (dsse_error, unit) outcome" where
  "check_subject statement rid expected_digest =
     and_then (ok_or (as_array (json_index statement ''subject'')) SubjectNotArray) (\<lambda>subjects.
     and_then (fail_if (subjects = []) SubjectEmpty) (\<lambda>_.
     and_then (ok_or (as_str (json_index (subjects ! 0) ''name'')) SubjectNameMissing) (\<lambda>actual_name.
     and_then (fail_if (actual_name \<noteq> run_urn rid) (SubjectNameMismatch (run_urn rid) actual_name)) (\<lambda>_.
     and_then (ok_or (as_object (json_index (subjects ! 0) ''digest'')) DigestNotObject) (\<lambda>digest_map.
     and_then (map_index digest_map ''sha256'') (\<lambda>digest.
     and_then (ok_or (as_str digest) DigestMissing) (\<lambda>actual_digest.
     fail_if (actual_digest \<noteq> expected_digest) (DigestMismatch actual_digest expected_digest))))))))"

definition verify_record_dsse :: "('sk, 'vk) crates \<Rightarrow> aep_record \<Rightarrow> 'vk \<Rightarrow> (dsse_error, unit) outcome" where
  "verify_record_dsse X r vk =
     and_then (verify_envelope X r vk) (\<lambda>statement_bytes.
     and_then (map_err (json_from_slice X statement_bytes) StatementParse) (\<lambda>statement.
     and_then (check_statement_types statement) (\<lambda>_.
     check_subject statement (run_id r) (record_digest X r))))"

section \<open>Encoding lemmas\<close>

lemma space_not_digit [simp]: "\<not> is_digit CHR '' ''"
  by (simp add: is_digit_def)

text \<open>A decimal number followed by a space can be read off in one way only.\<close>

lemma decimal_prefix_inject:
  "to_decimal m @ CHR '' '' # x = to_decimal n @ CHR '' '' # y \<Longrightarrow> m = n \<and> x = y"
  using span_append_inject [of "to_decimal m" is_digit "to_decimal n" "CHR '' '' # x" "CHR '' '' # y"]
  by (simp add: to_decimal_digits)

lemma map_standard_char:
  "CHR ''-'' \<notin> set s \<Longrightarrow> CHR ''_'' \<notin> set s \<Longrightarrow> map standard_char s = s"
  by (induction s) (auto simp: standard_char_def)

lemma sig_roundtrip:
  assumes "b64_laws X"
  shows "decode_base64_lenient X (encode_signature X bs) = Ok bs"
proof -
  have "b64_decode X (b64_encode X bs) = Inr bs" "length (b64_encode X bs) mod 4 = 0"
    "CHR ''-'' \<notin> set (b64_encode X bs)" "CHR ''_'' \<notin> set (b64_encode X bs)"
    using assms by (simp_all add: b64_laws_def b64_text_def)
  then show ?thesis
    by (simp add: decode_base64_lenient_def encode_signature_def map_standard_char)
qed

text \<open>The two alphabets and the two padding conventions of one base64 text.\<close>

definition url_safe_char :: "char \<Rightarrow> char" where
  "url_safe_char c = (if c = CHR ''+'' then CHR ''-'' else if c = CHR ''/'' then CHR ''_'' else c)"

definition b64_variant :: "bool \<Rightarrow> bool \<Rightarrow> string \<Rightarrow> string" where
  "b64_variant url unpadded s =
     (let s = (if unpadded then filter (\<lambda>c. c \<noteq> CHR ''='') s else s)
      in if url then map url_safe_char s else s)"

lemma standard_url_safe:
  "CHR ''-'' \<notin> set s \<Longrightarrow> CHR ''_'' \<notin> set s \<Longrightarrow> map standard_char (map url_safe_char s) = s"
  by (induction s) (auto simp: standard_char_def url_safe_char_def)

lemma standard_variant:
  assumes "CHR ''-'' \<notin> set s" "CHR ''_'' \<notin> set s"
  shows "map standard_char (b64_variant url unpadded s) = (if unpadded then filter (\<lambda>c. c \<noteq> CHR ''='') s else s)"
  using assms standard_url_safe [of s] standard_url_safe [of "filter (\<lambda>c. c \<noteq> CHR ''='') s"]
  by (cases url; cases unpadded) (simp_all add: b64_variant_def map_standard_char del: map_map)

section \<open>The statement\<close>

lemma hex_text_valid: "set s \<subseteq> set ''0123456789abcdef'' \<Longrightarrow> utf8_valid s"
  by (rule utf8_valid_ascii) (auto simp: ascii_def dest!: subsetD)

lemma digest_valid: "hex_laws X \<Longrightarrow> utf8_valid (record_digest X r)"
  by (rule hex_text_valid) (simp add: hex_laws_def record_digest_def sha256_hex_def)

lemma run_urn_valid: "utf8_valid rid \<Longrightarrow> utf8_valid (run_urn rid)"
  unfolding run_urn_def by (intro utf8_valid_append) (simp_all add: utf8_valid_literal)

lemma statement_lookup [simp]:
  "json_index (wrap_in_toto_statement p rid d) ''_type'' = JString IN_TOTO_STATEMENT_TYPE"
  "json_index (wrap_in_toto_statement p rid d) ''predicateType'' = JString AEP_PREDICATE_TYPE"
  "json_index (wrap_in_toto_statement p rid d) ''predicate'' = p"
  "json_index (wrap_in_toto_statement p rid d) ''subject'' =
     JArray [JObject (map_collect [(''name'', JString (run_urn rid)),
                                   (''digest'', JObject (map_collect [(''sha256'', JString d)]))])]"
  by (simp_all add: wrap_in_toto_statement_def map_of_map_collect IN_TOTO_STATEMENT_TYPE_def)

lemma wrap_ok:
  assumes "json_ok p" "utf8_valid rid" "utf8_valid d"
  shows "json_ok (wrap_in_toto_statement p rid d)"
proof -
  have "json_ok (JObject (map_collect [(''sha256'', JString d)]))"
    by (rule json_ok_collect) (simp add: assms utf8_valid_literal)
  then have "json_ok (JObject (map_collect [(''name'', JString (run_urn rid)),
      (''digest'', JObject (map_collect [(''sha256'', JString d)]))]))"
    by (intro json_ok_collect)
      (simp add: assms run_urn_valid utf8_valid_literal del: json_ok.simps(4))
  then show ?thesis
    unfolding wrap_in_toto_statement_def
    by (intro json_ok_collect) (simp add: assms utf8_valid_literal AEP_PREDICATE_TYPE_def del: json_ok.simps(4))
qed

lemma wrap_plain:
  assumes "json_plain (n + 3) p"
  shows "json_plain (n + 4) (wrap_in_toto_statement p rid d)"
proof -
  have "json_plain (Suc (Suc n)) (JObject (map_collect [(''name'', JString (run_urn rid)),
      (''digest'', JObject (map_collect [(''sha256'', JString d)]))]))"
    by (intro json_plain_collect) (simp add: json_plain_collect)
  with assms have "json_plain (Suc (Suc (Suc (Suc n)))) (wrap_in_toto_statement p rid d)"
    unfolding wrap_in_toto_statement_def by (intro json_plain_collect) (simp add: numeral_eq_Suc)
  then show ?thesis by (simp add: numeral_eq_Suc)
qed

section \<open>The record without its signing fields\<close>

lemma strip_signing_simps [simp]:
  "signature (strip_signing r) = None" "dsse_envelope (strip_signing r) = None"
  "run_id (strip_signing r) = run_id r" "record_extras (strip_signing r) = record_extras r"
  "strip_signing (strip_signing r) = strip_signing r"
  "strip_signing (r\<lparr>dsse_envelope := e\<rparr>) = strip_signing r"
  "strip_signing (r\<lparr>signature := s\<rparr>) = strip_signing r"
  by (simp_all add: strip_signing_def record_extras_def)

lemma record_ok_strip [simp]: "record_ok (strip_signing r) = record_ok r"
  by (simp add: record_ok_def record_strings_def record_extras_def strip_signing_def)

lemma record_digest_cong: "strip_signing r = strip_signing r' \<Longrightarrow> record_digest X r = record_digest X r'"
  by (simp add: record_digest_def record_predicate_def)

lemma record_predicate_ok: "record_ok r \<Longrightarrow> json_ok (record_predicate r)"
  by (simp add: record_predicate_def record_to_value_ok)

lemma record_run_id_valid: "record_ok r \<Longrightarrow> utf8_valid (run_id r)"
  by (simp add: record_ok_def record_strings_def)

text \<open>Nesting the signer can put in a statement that \<open>serde_json\<close> still parses.\<close>

definition extras_nesting :: nat where
  "extras_nesting = 122"

definition dsse_signable :: "('sk, 'vk) crates \<Rightarrow> aep_record \<Rightarrow> bool" where
  "dsse_signable X r \<longleftrightarrow> crate_laws X \<and> record_ok r \<and> (\<forall>v \<in> set (record_extras r). json_plain extras_nesting v)"

lemma statement_ok:
  assumes "dsse_signable X r"
  shows "json_ok (record_statement X r)" and "json_plain json_depth_limit (record_statement X r)"
proof -
  show "json_ok (record_statement X r)"
    using assms by (simp add: record_statement_def dsse_signable_def crate_laws_def wrap_ok
        record_predicate_ok record_run_id_valid digest_valid)
  have "json_plain (extras_nesting + 4) (record_predicate r)"
    unfolding record_predicate_def
    by (rule record_to_value_plain) (use assms in \<open>simp_all add: dsse_signable_def\<close>)
  then have "json_plain (123 + 4) (record_statement X r)"
    unfolding record_statement_def by (intro wrap_plain) (simp add: extras_nesting_def)
  then show "json_plain json_depth_limit (record_statement X r)"
    by (simp add: json_depth_limit_def)
qed

lemma statement_parses:
  assumes "dsse_signable X r"
  shows "json_from_slice X (canonical_json X (record_statement X r)) = Inr (record_statement X r)"
  using statement_ok [OF assms] assms json_rebuild_canonical_order [of "record_statement X r"]
  by (simp add: dsse_signable_def crate_laws_def json_parses_value canonical_json_def canonical_json_render
      canonical_order_strings_ok canonical_order_integral canonical_order_depth json_plain_def)

text \<open>Up to a collision of SHA-256 on the two texts, the digest determines the predicate, and with
it the stripped record where no catch-all map shadows a declared member.\<close>

lemma record_digest_binds_predicate:
  assumes "json_lexical (json_to_string X)" "hex_laws X" "record_ok r" "record_ok r'"
    and "sha256 X (canonical_json X (record_predicate r)) = sha256 X (canonical_json X (record_predicate r'))
         \<Longrightarrow> canonical_json X (record_predicate r) = canonical_json X (record_predicate r')"
    and "record_digest X r = record_digest X r'"
  shows "record_predicate r = record_predicate r'"
proof -
  have "sha256 X (canonical_json X (record_predicate r)) = sha256 X (canonical_json X (record_predicate r'))"
    using assms(2,6) by (metis hex_laws_def record_digest_def sha256_hex_def sum.inject(2))
  then have "canonical_json X (record_predicate r) = canonical_json X (record_predicate r')"
    by (rule assms(5))
  then show ?thesis
    using canonical_json_value_inject [OF assms(1) record_predicate_ok [OF assms(3)] record_predicate_ok [OF assms(4)]]
    by (simp add: canonical_json_def)
qed

lemma predicate_binds_record:
  "record_predicate r = record_predicate r' \<Longrightarrow> record_flat r \<Longrightarrow> record_flat r' \<Longrightarrow>
   strip_signing r = strip_signing r'"
  by (rule record_to_value_inject) (simp_all add: record_predicate_def record_flat_def strip_signing_def)

lemma record_digest_binds:
  assumes "json_lexical (json_to_string X)" "hex_laws X" "record_ok r" "record_ok r'" "record_flat r" "record_flat r'"
    and "sha256 X (canonical_json X (record_predicate r)) = sha256 X (canonical_json X (record_predicate r'))
         \<Longrightarrow> canonical_json X (record_predicate r) = canonical_json X (record_predicate r')"
    and "record_digest X r = record_digest X r'"
  shows "strip_signing r = strip_signing r'"
  using assms by (intro predicate_binds_record record_digest_binds_predicate [of X r r'])

section \<open>What the two operations do\<close>

text \<open>The floor rule: a floor is anchored in a non-empty list of grades and exceeds none of them.\<close>

definition floor_sound :: "aep_record \<Rightarrow> bool" where
  "floor_sound r \<longleftrightarrow>
     (case (run_attribution_backing_floor r, run_attribution_backing_observed r) of
        (None, None) \<Rightarrow> True
      | (Some flr, Some observed) \<Rightarrow> observed \<noteq> [] \<and> (\<forall>g \<in> set observed. grade_rank flr \<le> grade_rank g)
      | _ \<Rightarrow> False)"

declare grade_rank.simps [simp del]

lemma check_floor_no_panic [simp]: "check_backing_floor r \<noteq> Panic"
  by (cases "run_attribution_backing_floor r") (simp_all add: check_backing_floor_def)

lemma check_floor_Ok_iff [check_iff]: "check_backing_floor r = Ok u \<longleftrightarrow> floor_sound r"
proof (cases "run_attribution_backing_floor r")
  case None
  then show ?thesis
    by (cases "run_attribution_backing_observed r") (simp_all add: check_backing_floor_def floor_sound_def)
next
  case flr: (Some flr)
  show ?thesis
  proof (cases "run_attribution_backing_observed r")
    case None
    with flr show ?thesis by (simp add: check_backing_floor_def floor_sound_def)
  next
    case (Some observed)
    have "(\<exists>w. min_by_key grade_rank observed = Some w \<and> grade_rank flr \<le> grade_rank w)
        \<longleftrightarrow> (\<forall>g \<in> set observed. grade_rank flr \<le> grade_rank g)" if "observed \<noteq> []"
      using that min_by_key_SomeD [of grade_rank observed] min_by_key_None_iff [of grade_rank observed]
      by (metis not_None_eq order_trans)
    with flr Some show ?thesis
      by (auto simp: check_backing_floor_def floor_sound_def not_less)
  qed
qed

text \<open>One equation for signing: the errors of the floor check, or the sealed record.\<close>

definition sealed :: "('sk, 'vk) crates \<Rightarrow> aep_record \<Rightarrow> 'sk \<Rightarrow> string \<Rightarrow> aep_record" where
  "sealed X r key kid =
     (strip_signing r)\<lparr>dsse_envelope :=
        Some (seal_statement X (canonical_json X (record_statement X r)) key kid)\<rparr>"

lemma record_statement_strip [simp]: "record_statement X (strip_signing r) = record_statement X r"
  by (simp add: record_statement_def record_predicate_def record_digest_def)

lemma sign_cases:
  "sign_record_dsse X r key kid =
     (if floor_sound r then (sealed X r key kid, Ok ()) else (r, check_backing_floor r))"
proof (cases "floor_sound r")
  case True
  then have "check_backing_floor r = Ok ()" by (simp add: check_floor_Ok_iff)
  with True show ?thesis by (simp add: sign_record_dsse_def sealed_def)
next
  case False
  then have "check_backing_floor r \<noteq> Ok ()" by (simp add: check_floor_Ok_iff)
  with False show ?thesis
    by (cases "check_backing_floor r") (simp_all add: sign_record_dsse_def check_floor_Ok_iff)
qed

lemma sign_OkD:
  "sign_record_dsse X r key kid = (r', Ok ()) \<Longrightarrow> floor_sound r \<and> r' = sealed X r key kid"
  by (auto simp: sign_cases check_iff split: if_splits)

lemma sealed_simps [simp]:
  "strip_signing (sealed X r key kid) = strip_signing r"
  "run_id (sealed X r key kid) = run_id r"
  "dsse_envelope (sealed X r key kid) =
     Some (seal_statement X (canonical_json X (record_statement X r)) key kid)"
  by (simp_all add: sealed_def)

text \<open>What a valid envelope is: exactly one signature, over the payload it carries.\<close>

definition envelope_covers :: "('sk, 'vk) crates \<Rightarrow> dsse_envelope option \<Rightarrow> 'vk \<Rightarrow> bytes \<Rightarrow> bool" where
  "envelope_covers X e vk body \<longleftrightarrow>
     (\<exists>env s sig_bytes. e = Some env \<and> payload_type env = IN_TOTO_PAYLOAD_TYPE \<and> signatures env = [s] \<and>
        b64_decode X (payload env) = Inr body \<and> decode_base64_lenient X (dsse_sig s) = Ok sig_bytes \<and>
        length sig_bytes = 64 \<and> ed_verify X vk (pae_encode IN_TOTO_PAYLOAD_TYPE body) sig_bytes = Inr ())"

lemma verify_envelope_Ok_iff [check_iff]: "verify_envelope X r vk = Ok body \<longleftrightarrow> envelope_covers X (dsse_envelope r) vk body"
proof -
  have one: "ss \<noteq> [] \<and> length ss = 1 \<and> P (ss ! 0) \<longleftrightarrow> (\<exists>s. ss = [s] \<and> P s)" for ss :: "dsse_signature list" and P
    by (auto simp: length_Suc_conv)
  have lenient: "(case r of Ok bs \<Rightarrow> Ok bs | Err e \<Rightarrow> Err (SigBase64 e) | Panic \<Rightarrow> Panic) = Ok bs \<longleftrightarrow> r = Ok bs"
    for r :: "(string, bytes) outcome" and bs
    by (cases r) auto
  show ?thesis
    unfolding verify_envelope_def envelope_covers_def
    by (simp add: lenient) (use one in \<open>auto simp: length_Suc_conv\<close>)
qed

lemma lenient_no_panic [simp]: "decode_base64_lenient X s \<noteq> Panic"
  by (simp add: decode_base64_lenient_def Let_def)

lemma verify_envelope_no_panic [simp]: "verify_envelope X r vk \<noteq> Panic"
proof -
  have "(case r of Ok bs \<Rightarrow> Ok bs | Err e \<Rightarrow> Err (SigBase64 e) | Panic \<Rightarrow> Panic) \<noteq> Panic" if "r \<noteq> Panic"
    for r :: "(string, bytes) outcome"
    using that by (cases r) simp_all
  then show ?thesis by (simp add: verify_envelope_def)
qed

lemma types_no_panic [simp]: "check_statement_types stmt \<noteq> Panic"
  by (simp add: check_statement_types_def)

definition statement_typed :: "json \<Rightarrow> bool" where
  "statement_typed stmt \<longleftrightarrow> json_index stmt ''_type'' = JString IN_TOTO_STATEMENT_TYPE \<and>
     json_index stmt ''predicateType'' = JString AEP_PREDICATE_TYPE"

lemma types_Ok_iff [check_iff]: "check_statement_types stmt = Ok u \<longleftrightarrow> statement_typed stmt"
  by (auto simp: check_statement_types_def statement_typed_def)

text \<open>The first subject names the run and has a digest object.\<close>

definition subject_digests :: "json \<Rightarrow> string \<Rightarrow> json_map \<Rightarrow> bool" where
  "subject_digests stmt rid dm \<longleftrightarrow>
     (\<exists>subj rest. json_index stmt ''subject'' = JArray (subj # rest) \<and>
        json_index subj ''name'' = JString (run_urn rid) \<and> json_index subj ''digest'' = JObject dm)"

lemma nonempty_nth0: "xs \<noteq> [] \<and> P (xs ! 0) \<longleftrightarrow> (\<exists>y ys. xs = y # ys \<and> P y)"
  by (cases xs) auto

lemma subject_Ok_iff [check_iff]:
  "check_subject stmt rid d = Ok u \<longleftrightarrow>
     (\<exists>dm. subject_digests stmt rid dm \<and> map_of dm ''sha256'' = Some (JString d))"
  unfolding check_subject_def subject_digests_def
  by (simp add: nonempty_nth0) (fastforce simp: neq_Nil_conv)

lemma subject_Panic_iff [check_iff]:
  "check_subject stmt rid d = Panic \<longleftrightarrow>
     (\<exists>dm. subject_digests stmt rid dm \<and> map_of dm ''sha256'' = None)"
  unfolding check_subject_def subject_digests_def
  by (simp add: nonempty_nth0) (fastforce simp: neq_Nil_conv)

text \<open>A sealed envelope is valid under the matching key and carries the statement.\<close>

lemma sealed_envelope_covers:
  assumes "crate_laws X"
  shows "envelope_covers X (Some (seal_statement X body key kid)) (ed_public X key) body"
proof -
  have "b64_laws X" using assms by (simp add: crate_laws_def)
  then show ?thesis
    using assms by (simp add: envelope_covers_def seal_statement_def Let_def sig_roundtrip)
      (simp add: crate_laws_def b64_laws_def ed_laws_def)
qed

lemma statement_subject_digests:
  "subject_digests (record_statement X r) rid dm \<longleftrightarrow>
     run_urn (run_id r) = run_urn rid \<and> dm = map_collect [(''sha256'', JString (record_digest X r))]"
  by (auto simp: subject_digests_def record_statement_def map_of_map_collect)

lemma run_urn_inject [simp]: "run_urn a = run_urn b \<longleftrightarrow> a = b"
  by (simp add: run_urn_def)

lemma check_subject_statement:
  "check_subject (record_statement X r) rid d =
     (if rid \<noteq> run_id r then Err (SubjectNameMismatch (run_urn rid) (run_urn (run_id r)))
      else if d \<noteq> record_digest X r then Err (DigestMismatch (record_digest X r) d)
      else Ok ())"
  by (simp add: check_subject_def record_statement_def map_of_map_collect ok_or_def fail_if_def map_index_def)

lemma verify_under_sealed_envelope:
  assumes "dsse_signable X r" "dsse_envelope r' = dsse_envelope (sealed X r key kid)"
  shows "verify_record_dsse X r' (ed_public X key) =
     (if run_id r' \<noteq> run_id r then Err (SubjectNameMismatch (run_urn (run_id r')) (run_urn (run_id r)))
      else if record_digest X r' \<noteq> record_digest X r
      then Err (DigestMismatch (record_digest X r) (record_digest X r'))
      else Ok ())"
proof -
  have "envelope_covers X (dsse_envelope r') (ed_public X key) (canonical_json X (record_statement X r))"
    using assms by (simp add: dsse_signable_def sealed_envelope_covers)
  then have "verify_envelope X r' (ed_public X key) = Ok (canonical_json X (record_statement X r))"
    by (simp add: verify_envelope_Ok_iff)
  moreover have "check_statement_types (record_statement X r) = Ok ()"
    by (simp add: types_Ok_iff statement_typed_def record_statement_def)
  ultimately show ?thesis
    by (simp add: verify_record_dsse_def statement_parses [OF assms(1)] map_err_def check_subject_statement)
qed

section \<open>The contract of attestation\<close>

text \<open>
  What the code that assembles records relies on: a record that was signed verifies, signing
  changes nothing of its content, and it never panics.
\<close>

locale attestation =
  fixes sign :: "'r \<Rightarrow> 'r \<times> ('e, unit) outcome"
    and verify :: "'r \<Rightarrow> ('e, unit) outcome"
    and content :: "'r \<Rightarrow> 'c"
    and signable :: "'r \<Rightarrow> bool"
  assumes sign_verifies: "signable r \<Longrightarrow> sign r = (r', Ok ()) \<Longrightarrow> verify r' = Ok ()"
    and sign_content: "content (fst (sign r)) = content r"
    and sign_no_panic: "snd (sign r) \<noteq> Panic"
    and content_signable: "content r = content r' \<Longrightarrow> signable r = signable r'"
begin

text \<open>Signing again gives a record that verifies again, whatever envelope it had.\<close>

lemma resigned_verifies:
  assumes "signable r" "sign r = (r', Ok ())" "sign r' = (r'', Ok ())"
  shows "verify r'' = Ok () \<and> content r'' = content r"
proof -
  have c: "content r' = content r" "content r'' = content r'"
    using sign_content [of r] sign_content [of r'] assms by simp_all
  then have "signable r'" using content_signable assms(1) by blast
  with assms(3) c show ?thesis using sign_verifies by simp
qed

text \<open>Signing has two outcomes: a record that verifies, or an error.\<close>

lemma sign_outcomes:
  assumes "signable r"
  obtains r' where "sign r = (r', Ok ())" "verify r' = Ok ()" "content r' = content r"
  | e where "snd (sign r) = Err e"
proof (cases "snd (sign r)")
  case (Ok u)
  then have "sign r = (fst (sign r), Ok ())" by (simp add: prod_eq_iff)
  then show ?thesis using that(1) sign_verifies [OF assms] sign_content [of r] by blast
next
  case (Err e)
  then show ?thesis by (rule that(2))
next
  case Panic
  then show ?thesis using sign_no_panic by blast
qed

end

interpretation dsse: attestation "\<lambda>r. sign_record_dsse X r key kid" "\<lambda>r. verify_record_dsse X r (ed_public X key)"
    strip_signing "dsse_signable X" for X :: "('sk, 'vk) crates" and key kid
proof
  fix r r' :: aep_record
  show "sign_record_dsse X r key kid = (r', Ok ()) \<Longrightarrow> verify_record_dsse X r' (ed_public X key) = Ok ()"
    if "dsse_signable X r"
    using verify_under_sealed_envelope [OF that, of r' key kid] record_digest_cong [of r' r X]
    by (auto dest!: sign_OkD)
  show "strip_signing (fst (sign_record_dsse X r key kid)) = strip_signing r"
    by (simp add: sign_cases)
  show "snd (sign_record_dsse X r key kid) \<noteq> Panic"
    by (simp add: sign_cases)
  show "dsse_signable X r = dsse_signable X r'" if "strip_signing r = strip_signing r'"
    using that record_ok_strip [of r] record_ok_strip [of r'] strip_signing_simps(4) [of r] strip_signing_simps(4) [of r']
    by (simp add: dsse_signable_def)
qed

section \<open>Properties\<close>

text \<open>C4: a record whose strings are UTF-8 and whose catch-all values hold no floating point
number and nest at most 122 containers verifies under the signer's public key whenever signing it
succeeded, given the documented laws of the crates.\<close>

theorem sign_then_verify:
  assumes "dsse_signable X r" "sign_record_dsse X r key kid = (r', Ok ())"
  shows "verify_record_dsse X r' (ed_public X key) = Ok ()"
  using assms by (rule dsse.sign_verifies)

text \<open>Verification has no floor check of its own: a record whose floor its signer would have to
refuse verifies if it is sealed all the same, so the check at signing is the only one.\<close>

lemma verification_ignores_floor:
  assumes "dsse_signable X r" "\<not> floor_sound r"
  shows "snd (sign_record_dsse X r key kid) \<noteq> Ok () \<and>
    verify_record_dsse X (sealed X r key kid) (ed_public X key) = Ok ()"
proof -
  have "record_digest X (sealed X r key kid) = record_digest X r"
    by (simp add: record_digest_def record_predicate_def)
  then show ?thesis
    using assms verify_under_sealed_envelope [OF assms(1) refl, of key kid]
    by (simp add: sign_cases check_floor_Ok_iff)
qed

text \<open>C5: what verification says of any record that carries the envelope signed for another:
a changed run id is reported as a subject mismatch, changed content as a digest mismatch with both
digests, and only a record with the same run id and digest is accepted.\<close>

theorem verify_moved_envelope:
  assumes "dsse_signable X r" "sign_record_dsse X r key kid = (sr, Ok ())"
    and "dsse_envelope r' = dsse_envelope sr"
  shows "verify_record_dsse X r' (ed_public X key) =
     (if run_id r' \<noteq> run_id r then Err (SubjectNameMismatch (run_urn (run_id r')) (run_urn (run_id r)))
      else if record_digest X r' \<noteq> record_digest X r
      then Err (DigestMismatch (record_digest X r) (record_digest X r'))
      else Ok ())"
  using assms by (intro verify_under_sealed_envelope) (auto dest!: sign_OkD)

text \<open>C9: signing succeeds exactly for records whose backing floor is consistent: no floor and
no grades, or a non-empty list of grades none of which is weaker than the floor. It never panics.
From the weakest, the ladder of grades is \<open>none\<close>, \<open>operator_asserted\<close>, \<open>principal_key_signed\<close>,
\<open>organization_attested\<close>, \<open>subject_consented\<close>; any other text ranks with \<open>none\<close>.\<close>

theorem sign_ok_iff_floor_sound:
  "(snd (sign_record_dsse X r key kid) = Ok () \<longleftrightarrow> floor_sound r) \<and>
   snd (sign_record_dsse X r key kid) \<noteq> Panic \<and>
   map grade_rank [''none'', ''operator_asserted'', ''principal_key_signed'', ''organization_attested'',
     ''subject_consented''] = [0, 1, 2, 3, 4] \<and>
   {g. grade_rank g \<noteq> 0} =
     {''operator_asserted'', ''principal_key_signed'', ''organization_attested'', ''subject_consented''}"
proof -
  have "{g. grade_rank g \<noteq> 0} =
     {''operator_asserted'', ''principal_key_signed'', ''organization_attested'', ''subject_consented''}"
    by (auto simp: grade_rank.simps)
  then show ?thesis
    by (simp add: sign_cases check_iff grade_rank.simps)
qed

text \<open>Signing touches nothing but the two signing fields: on success the legacy signature is
cleared and the envelope set, on failure the record is as it was.\<close>

lemma sign_frame:
  "sign_record_dsse X r key kid =
     (if floor_sound r
      then (r\<lparr>signature := None,
              dsse_envelope := Some (seal_statement X (canonical_json X (record_statement X r)) key kid)\<rparr>, Ok ())
      else (r, check_backing_floor r))"
  by (simp add: sign_cases sealed_def strip_signing_def)

text \<open>Signing does not depend on an envelope or signature the record already carries, so
signing a signed record gives the same record again.\<close>

lemma resign_idempotent:
  "sign_record_dsse X (fst (sign_record_dsse X r key kid)) key kid = sign_record_dsse X r key kid"
proof -
  have "floor_sound (sealed X r key kid) = floor_sound r"
    by (simp add: floor_sound_def sealed_def strip_signing_def)
  moreover have "record_statement X (sealed X r key kid) = record_statement X r"
    by (metis record_statement_strip sealed_simps(1))
  then have "sealed X (sealed X r key kid) key kid = sealed X r key kid"
    by (simp add: sealed_def)
  ultimately show ?thesis by (simp add: sign_cases)
qed

text \<open>C10: the payload of a signed envelope decodes to an in-toto statement with the statement
type, the predicate type, the run's URN as its only subject with the SHA-256 of the canonical
predicate, and the stripped record as predicate.\<close>

theorem signed_payload_statement:
  assumes "dsse_signable X r" "sign_record_dsse X r key kid = (sr, Ok ())"
  shows "\<exists>env body stmt. dsse_envelope sr = Some env \<and> payload_type env = IN_TOTO_PAYLOAD_TYPE \<and>
     b64_decode X (payload env) = Inr body \<and> json_from_slice X body = Inr stmt \<and>
     json_index stmt ''_type'' = JString IN_TOTO_STATEMENT_TYPE \<and>
     json_index stmt ''predicateType'' = JString AEP_PREDICATE_TYPE \<and>
     json_index stmt ''predicate'' = aep_record_to_value (r\<lparr>signature := None, dsse_envelope := None\<rparr>) \<and>
     json_index stmt ''subject'' = JArray [JObject (map_collect
        [(''name'', JString (''urn:wasmagent:run:'' @ run_id r)),
         (''digest'', JObject [(''sha256'', JString (sha256_hex X (canonical_json X (json_index stmt ''predicate''))))])])]"
proof -
  have "b64_laws X" using assms(1) by (simp add: dsse_signable_def crate_laws_def)
  then show ?thesis
    using sign_OkD [OF assms(2)] statement_parses [OF assms(1)]
    by (simp add: seal_statement_def Let_def b64_laws_def record_statement_def record_digest_def
        record_predicate_def strip_signing_def run_urn_def map_collect_def)
qed

text \<open>C7: verification accepts exactly the records whose envelope holds one signature, valid for
the payload, over a statement of the right types whose first subject names this run and carries
this record's digest.\<close>

theorem verify_accepts_iff:
  "verify_record_dsse X r vk = Ok () \<longleftrightarrow>
     (\<exists>body stmt dm. envelope_covers X (dsse_envelope r) vk body \<and> json_from_slice X body = Inr stmt \<and>
        statement_typed stmt \<and> subject_digests stmt (run_id r) dm \<and>
        map_of dm ''sha256'' = Some (JString (record_digest X r)))"
  by (auto simp: verify_record_dsse_def check_iff)

text \<open>C8: verification panics, instead of returning an error, exactly on a record whose validly
signed statement has a digest object without a \<open>sha256\<close> member.\<close>

theorem verify_panics_iff:
  "verify_record_dsse X r vk = Panic \<longleftrightarrow>
     (\<exists>body stmt dm. envelope_covers X (dsse_envelope r) vk body \<and> json_from_slice X body = Inr stmt \<and>
        statement_typed stmt \<and> subject_digests stmt (run_id r) dm \<and> map_of dm ''sha256'' = None)"
  by (auto simp: verify_record_dsse_def check_iff)

text \<open>C6: one envelope attests one content: if two records with the same envelope both verify,
under whatever keys, and SHA-256 does not collide on their two canonical predicates, they have the
same run id and the same JSON form apart from the signing fields. Records whose catch-all maps
declare no member of the struct, as all records read from text, then agree on every field but the
legacy signature. (The emitter's own records put \<open>identity_source\<close> in the catch-all map; they share
JSON form and envelope with the record read back from their text, which has it in the field.)\<close>

theorem envelope_binds_record:
  assumes "verify_record_dsse X r vk = Ok ()" "verify_record_dsse X r' vk' = Ok ()"
    and "dsse_envelope r = dsse_envelope r'"
    and "json_lexical (json_to_string X)" "hex_laws X" "record_ok r" "record_ok r'"
    and "sha256 X (canonical_json X (record_predicate r)) = sha256 X (canonical_json X (record_predicate r'))
         \<Longrightarrow> canonical_json X (record_predicate r) = canonical_json X (record_predicate r')"
  shows "run_id r = run_id r' \<and>
    aep_record_to_value (r\<lparr>signature := None, dsse_envelope := None\<rparr>) =
      aep_record_to_value (r'\<lparr>signature := None, dsse_envelope := None\<rparr>) \<and>
    (record_flat r \<and> record_flat r' \<longrightarrow> r\<lparr>signature := signature r'\<rparr> = r')"
proof -
  obtain body stmt dm where 1: "envelope_covers X (dsse_envelope r) vk body" "json_from_slice X body = Inr stmt"
    "subject_digests stmt (run_id r) dm" "map_of dm ''sha256'' = Some (JString (record_digest X r))"
    using assms(1) by (auto simp: verify_record_dsse_def check_iff)
  obtain body' stmt' dm' where 2: "envelope_covers X (dsse_envelope r') vk' body'" "json_from_slice X body' = Inr stmt'"
    "subject_digests stmt' (run_id r') dm'" "map_of dm' ''sha256'' = Some (JString (record_digest X r'))"
    using assms(2) by (auto simp: verify_record_dsse_def check_iff)
  have "body = body'" using 1(1) 2(1) assms(3) by (auto simp: envelope_covers_def)
  with 1(2) 2(2) have "stmt = stmt'" by simp
  with 1(3) 2(3) have dm: "dm = dm'" and run: "run_id r = run_id r'"
    by (auto simp: subject_digests_def run_urn_def)
  from dm 1(4) 2(4) have "record_digest X r = record_digest X r'" by simp
  then have same: "record_predicate r = record_predicate r'"
    using assms(4-8) by (intro record_digest_binds_predicate [of X r r'])
  have "r\<lparr>signature := signature r'\<rparr> = r'" if "record_flat r" "record_flat r'"
    using predicate_binds_record [OF same that] assms(3)
    by (cases r; cases r') (simp add: strip_signing_def)
  with run same show ?thesis
    by (simp add: record_predicate_def strip_signing_def)
qed

lemma pae_inject: "pae_encode t p = pae_encode t' p' \<longleftrightarrow> t = t' \<and> p = p'"
proof
  assume "pae_encode t p = pae_encode t' p'"
  then have eq: "to_decimal (length t) @ CHR '' '' # t @ '' '' @ to_decimal (length p) @ '' '' @ p
      = to_decimal (length t') @ CHR '' '' # t' @ '' '' @ to_decimal (length p') @ '' '' @ p'"
    by (simp add: pae_encode_def)
  have "t = t' \<and> to_decimal (length p) @ CHR '' '' # p = to_decimal (length p') @ CHR '' '' # p'"
    using decimal_prefix_inject [OF eq] by (auto simp: append_eq_append_conv)
  moreover from this have "p = p'" by (blast dest: decimal_prefix_inject)
  ultimately show "t = t' \<and> p = p'" by simp
qed simp

text \<open>C39: the pre-authentication encoding is unambiguous: it determines payload type and payload,
so a signature cannot be carried over to another type or another payload.\<close>

theorem pae_encode_injective:
  "pae_encode t p = pae_encode t' p' \<longleftrightarrow> t = t' \<and> p = p'"
  by (rule pae_inject)

text \<open>The lenient decoder accepts an encoded signature in the standard or the URL-safe
alphabet, with or without its padding, and gives back the signed bytes.\<close>

lemma lenient_decodes_variants:
  assumes "b64_laws X"
  shows "decode_base64_lenient X (b64_variant url unpadded (encode_signature X bs)) = Ok bs"
proof -
  let ?s = "b64_encode X bs"
  have laws: "b64_decode X ?s = Inr bs" "length ?s mod 4 = 0" "CHR ''-'' \<notin> set ?s" "CHR ''_'' \<notin> set ?s"
    using assms by (simp_all add: b64_laws_def b64_text_def)
  obtain body pad where s: "?s = body @ pad" "CHR ''='' \<notin> set body" "pad \<in> {[], ''='', ''==''}"
    using assms unfolding b64_laws_def b64_text_def by blast
  have strip: "filter (\<lambda>c. c \<noteq> CHR ''='') ?s = body"
  proof -
    have "filter (\<lambda>c. c \<noteq> CHR ''='') body = body" using s(2) by (intro filter_True) auto
    moreover have "filter (\<lambda>c. c \<noteq> CHR ''='') pad = []" using s(3) by auto
    ultimately show ?thesis using s(1) by simp
  qed
  have len: "(length body + length pad) mod 4 = 0" using s(1) laws(2) by simp
  consider "pad = []" | "pad = ''=''" | "pad = ''==''" using s(3) by blast
  then have pads: "pad = (if length body mod 4 = 2 then ''=='' else if length body mod 4 = 3 then ''='' else [])"
  proof cases
    case 1
    with len show ?thesis by simp
  next
    case 2
    with len have "length body mod 4 = 3" by (simp del: mod_Suc_eq) presburger
    with 2 show ?thesis by simp
  next
    case 3
    with len have "length body mod 4 = 2" by (simp del: mod_Suc_eq) presburger
    with 3 show ?thesis by simp
  qed
  note norm = standard_variant [OF laws(3,4), of url unpadded]
  show ?thesis
  proof (cases unpadded)
    case True
    have "(if length body mod 4 = 2 then body @ ''=='' else if length body mod 4 = 3 then body @ ''='' else body) = ?s"
      using s(1) pads by (simp split: if_splits)
    with norm strip True laws(1) show ?thesis
      by (simp add: decode_base64_lenient_def encode_signature_def)
  next
    case False
    with norm laws show ?thesis by (simp add: decode_base64_lenient_def encode_signature_def)
  qed
qed

text \<open>A floor outside the grade vocabulary, here \<open>qualified_signature\<close>, ranks as the weakest
grade, so a record claiming it is signed whatever non-empty grades were observed.\<close>

lemma unknown_floor_is_signed:
  "snd (sign_record_dsse X (r\<lparr>run_attribution_backing_floor := Some ''qualified_signature'',
     run_attribution_backing_observed := Some (g # gs)\<rparr>) key kid) = Ok ()"
  by (simp add: sign_cases check_iff floor_sound_def grade_rank.simps)

end
