(* ===== verification/Config.thy ===== *)
theory Config
  imports Wire_Round_Trip
begin

text \<open>
  \<open>crates/proxy-wasm-evidence/src/config.rs\<close>: the plugin configuration, its defaults, its
  derived serialization and deserialization, and the validation a configuration passes before it
  is used.
\<close>

section \<open>Configuration\<close>

record plugin_config =
  default_mode :: recording_mode
  cfg_key_id :: string
  signing_key_hex :: "string option"
  trace_id_header :: string
  agent_id_header :: string
  max_evidence_buffer :: nat

definition default_plugin_config :: plugin_config where
  "default_plugin_config =
     \<lparr>default_mode = Validation, cfg_key_id = ''default'', signing_key_hex = None,
      trace_id_header = ''x-b3-traceid'', agent_id_header = ''x-agent-id'', max_evidence_buffer = 1024\<rparr>"

datatype config_error =
    ZeroEvidenceBuffer
  | SigningKeyNotHex string
  | SigningKeyLength nat

fun config_error_text :: "config_error \<Rightarrow> string" where
  "config_error_text ZeroEvidenceBuffer = ''max_evidence_buffer must be greater than 0''"
| "config_error_text (SigningKeyNotHex err) = ''signing_key_hex is not valid hex: '' @ err"
| "config_error_text (SigningKeyLength n) =
     ''signing_key_hex must decode to 32 bytes (Ed25519 seed), got '' @ to_decimal n"

definition validate :: "('sk, 'vk) crates \<Rightarrow> plugin_config \<Rightarrow> (config_error, unit) outcome" where
  "validate X c =
     and_then (fail_if (max_evidence_buffer c = 0) ZeroEvidenceBuffer) (\<lambda>_.
     case signing_key_hex c of
       None \<Rightarrow> Ok ()
     | Some key_hex \<Rightarrow>
         and_then (map_err (hex_decode X key_hex) SigningKeyNotHex) (\<lambda>decoded.
         fail_if (length decoded \<noteq> 32) (SigningKeyLength (length decoded))))"

lemma validate_no_panic [simp]: "validate X c \<noteq> Panic"
  by (cases "signing_key_hex c") (simp_all add: validate_def)

lemma validate_default [simp]: "validate X default_plugin_config = Ok ()"
  by (simp add: validate_def default_plugin_config_def fail_if_def)

lemma validate_Ok_iff [check_iff]:
  "validate X c = Ok () \<longleftrightarrow>
     0 < max_evidence_buffer c \<and>
     (\<forall>key_hex. signing_key_hex c = Some key_hex \<longrightarrow> (\<exists>seed. hex_decode X key_hex = Inr seed \<and> length seed = 32))"
  by (cases "signing_key_hex c") (auto simp: validate_def)

section \<open>JSON\<close>

definition plugin_config_written :: "plugin_config \<Rightarrow> json" where
  "plugin_config_written c = JObject
     [(''default_mode'', JString (recording_mode_as_str (default_mode c))),
      (''key_id'', JString (cfg_key_id c)),
      (''signing_key_hex'', json_option JString (signing_key_hex c)),
      (''trace_id_header'', JString (trace_id_header c)),
      (''agent_id_header'', JString (agent_id_header c)),
      (''max_evidence_buffer'', json_u64 (of_nat (max_evidence_buffer c)))]"

text \<open>
  The container attribute \<open>default\<close> fills every missing field from \<open>PluginConfig::default()\<close>; an
  array may end early. A \<open>usize\<close> of the target \<open>wasm32\<close>, the only one the filter is compiled for,
  has 32 bits.
\<close>

fun struct_members_default :: "string list \<Rightarrow> json \<Rightarrow> (string \<times> json) list option" where
  "struct_members_default names (JObject m) = Some m"
| "struct_members_default names (JArray vs) = (if length vs \<le> length names then Some (zip names vs) else None)"
| "struct_members_default names _ = None"

definition usize_from_json :: "json \<Rightarrow> nat option" where
  "usize_from_json v = do {
     n \<leftarrow> u64_from_json v;
     if unat n < 2 ^ 32 then Some (unat n) else None }"

definition plugin_config_names :: "string list" where
  "plugin_config_names =
     [''default_mode'', ''key_id'', ''signing_key_hex'', ''trace_id_header'', ''agent_id_header'', ''max_evidence_buffer'']"

definition plugin_config_from_json :: "json \<Rightarrow> plugin_config option" where
  "plugin_config_from_json v = do {
     m \<leftarrow> struct_members_default plugin_config_names v;
     let d = default_plugin_config;
     dm \<leftarrow> field (Some (default_mode d)) recording_mode_from_json ''default_mode'' m;
     kid \<leftarrow> field (Some (cfg_key_id d)) string_from_json ''key_id'' m;
     key \<leftarrow> field (Some (signing_key_hex d)) (option_from string_from_json) ''signing_key_hex'' m;
     trace \<leftarrow> field (Some (trace_id_header d)) string_from_json ''trace_id_header'' m;
     agent \<leftarrow> field (Some (agent_id_header d)) string_from_json ''agent_id_header'' m;
     buf \<leftarrow> field (Some (max_evidence_buffer d)) usize_from_json ''max_evidence_buffer'' m;
     Some \<lparr>default_mode = dm, cfg_key_id = kid, signing_key_hex = key, trace_id_header = trace,
       agent_id_header = agent, max_evidence_buffer = buf\<rparr> }"

definition config_from_slice :: "('sk, 'vk) crates \<Rightarrow> bytes \<Rightarrow> string + plugin_config" where
  "config_from_slice = from_slice plugin_config_from_json"

definition plugin_config_to_string :: "('sk, 'vk) crates \<Rightarrow> plugin_config \<Rightarrow> string" where
  "plugin_config_to_string X c = json_render (json_to_string X) (plugin_config_written c)"

lemma plugin_config_back:
  assumes "max_evidence_buffer c < 2 ^ 32"
  shows "plugin_config_from_json (plugin_config_written c) = Some c"
proof -
  have n: "unat (of_nat (max_evidence_buffer c) :: u64) = max_evidence_buffer c"
    using assms by (simp add: unat_of_nat take_bit_nat_eq_self)
  show ?thesis
    using assms
    by (simp add: plugin_config_from_json_def plugin_config_written_def field_def members_def
        usize_from_json_def n)
qed

text \<open>What a configuration in memory holds.\<close>

definition config_ok :: "plugin_config \<Rightarrow> bool" where
  "config_ok c \<longleftrightarrow> max_evidence_buffer c < 2 ^ 32 \<and>
     (\<forall>s \<in> set ([cfg_key_id c, trace_id_header c, agent_id_header c] @ option_list (signing_key_hex c)). utf8_valid s)"

lemma plugin_config_text_ok:
  assumes "config_ok c"
  shows "json_strings_ok (plugin_config_written c)" "json_plain 1 (plugin_config_written c)"
proof -
  have "json_plain (Suc 0) (plugin_config_written c)"
    by (simp add: plugin_config_written_def json_plain_object)
  then show "json_plain 1 (plugin_config_written c)" by simp
  from assms show "json_strings_ok (plugin_config_written c)"
    by (simp add: plugin_config_written_def config_ok_def utf8_valid_literal)
qed

interpretation config_wire: wire_type plugin_config_written plugin_config_from_json config_ok
proof unfold_locales
  fix c assume c: "config_ok c"
  then show "plugin_config_from_json (plugin_config_written c) = Some c"
    by (intro plugin_config_back) (simp add: config_ok_def)
  show "json_strings_ok (plugin_config_written c)" using c by (rule plugin_config_text_ok)
  show "json_plain json_depth_limit (plugin_config_written c)"
    using plugin_config_text_ok(2) [OF c] by (rule json_plain_mono) (simp add: json_depth_limit_def)
qed

lemma config_from_slice_written:
  "json_parses X \<Longrightarrow> config_ok c \<Longrightarrow> config_from_slice X (plugin_config_to_string X c) = Inr c"
  unfolding config_from_slice_def plugin_config_to_string_def by (rule config_wire.text_back)

section \<open>Properties\<close>

text \<open>Validation accepts exactly the configurations that can be used: a buffer with room
for at least one entry and, if a signing key is given, the hex of a 32-byte seed. The
default configuration passes.\<close>

lemma validate_accepts_iff:
  "(validate X c = Ok () \<longleftrightarrow>
      max_evidence_buffer c \<noteq> 0 \<and>
      (signing_key_hex c = None \<or> (\<exists>seed. hex_decode X (the (signing_key_hex c)) = Inr seed \<and> length seed = 32))) \<and>
   validate X default_plugin_config = Ok ()"
  by (cases "signing_key_hex c") (simp_all add: validate_Ok_iff)

text \<open>The documented way to leave signing off, an empty \<open>signing_key_hex\<close>, is rejected:
the empty string decodes to no bytes, which is not a 32-byte seed.\<close>

lemma empty_signing_key_rejected:
  assumes "hex_decode X [] = Inr []" "max_evidence_buffer c \<noteq> 0"
  shows "validate X (c\<lparr>signing_key_hex := Some []\<rparr>) = Err (SigningKeyLength 0)"
  using assms by (simp add: validate_def fail_if_def map_err_def)

lemma field_Some_iff:
  "field (Some d) f k m = Some x \<longleftrightarrow> (case members k m of [] \<Rightarrow> x = d | [v] \<Rightarrow> f v = Some x | _ \<Rightarrow> False)"
  by (auto simp: field_def split: list.split)

lemma plugin_config_from_object_iff:
  "plugin_config_from_json (JObject m) = Some c \<longleftrightarrow>
     field (Some Validation) recording_mode_from_json ''default_mode'' m = Some (default_mode c) \<and>
     field (Some ''default'') string_from_json ''key_id'' m = Some (cfg_key_id c) \<and>
     field (Some None) (option_from string_from_json) ''signing_key_hex'' m = Some (signing_key_hex c) \<and>
     field (Some ''x-b3-traceid'') string_from_json ''trace_id_header'' m = Some (trace_id_header c) \<and>
     field (Some ''x-agent-id'') string_from_json ''agent_id_header'' m = Some (agent_id_header c) \<and>
     field (Some 1024) usize_from_json ''max_evidence_buffer'' m = Some (max_evidence_buffer c)"
  by (cases c) (auto simp: plugin_config_from_json_def default_plugin_config_def Let_def bind_eq_Some_conv)

text \<open>C31: what a configuration text says. An object only has to name what differs from the
defaults: a member it does not list keeps the default, a listed one decides its field, a repeated or
mistyped one makes the object unreadable, and members the struct does not declare are ignored. An
array lists the fields in their order, may stop early and must not go on. The empty object is the
default configuration.\<close>

theorem config_defaults_filled_in:
  "(plugin_config_from_json (JObject m) = Some c \<longleftrightarrow>
      (case members ''default_mode'' m of [] \<Rightarrow> default_mode c = Validation
         | [v] \<Rightarrow> recording_mode_from_json v = Some (default_mode c) | _ \<Rightarrow> False) \<and>
      (case members ''key_id'' m of [] \<Rightarrow> cfg_key_id c = ''default''
         | [v] \<Rightarrow> v = JString (cfg_key_id c) | _ \<Rightarrow> False) \<and>
      (case members ''signing_key_hex'' m of [] \<Rightarrow> signing_key_hex c = None
         | [v] \<Rightarrow> v = (case signing_key_hex c of None \<Rightarrow> JNull | Some s \<Rightarrow> JString s) | _ \<Rightarrow> False) \<and>
      (case members ''trace_id_header'' m of [] \<Rightarrow> trace_id_header c = ''x-b3-traceid''
         | [v] \<Rightarrow> v = JString (trace_id_header c) | _ \<Rightarrow> False) \<and>
      (case members ''agent_id_header'' m of [] \<Rightarrow> agent_id_header c = ''x-agent-id''
         | [v] \<Rightarrow> v = JString (agent_id_header c) | _ \<Rightarrow> False) \<and>
      (case members ''max_evidence_buffer'' m of [] \<Rightarrow> max_evidence_buffer c = 1024
         | [v] \<Rightarrow> v = json_u64 (of_nat (max_evidence_buffer c)) \<and> max_evidence_buffer c < 2 ^ 32 | _ \<Rightarrow> False)) \<and>
   plugin_config_from_json (JArray vs) =
     (if length vs \<le> 6
      then plugin_config_from_json (JObject (zip [''default_mode'', ''key_id'', ''signing_key_hex'',
        ''trace_id_header'', ''agent_id_header'', ''max_evidence_buffer''] vs))
      else None) \<and>
   plugin_config_from_json (JObject []) = Some default_plugin_config"
  (is "(_ \<longleftrightarrow> ?fields) \<and> _")
proof (intro conjI)
  have s: "string_from_json v = Some x \<longleftrightarrow> v = JString x" for v x
    by (cases v) (auto simp: string_from_json_def)
  have o: "option_from string_from_json v = Some x \<longleftrightarrow> v = (case x of None \<Rightarrow> JNull | Some s \<Rightarrow> JString s)" for v x
    by (cases v) (auto simp: option_from_def string_from_json_def split: option.split)
  have u: "usize_from_json v = Some n \<longleftrightarrow> v = json_u64 (of_nat n) \<and> n < 2 ^ 32" for v n
  proof -
    have fits: "unat (of_nat n :: u64) = n" if "n < 2 ^ 32"
      using that by (simp add: unat_of_nat take_bit_nat_eq_self)
    have "u64_from_json v = Some w \<longleftrightarrow> v = json_u64 w" for w
      unfolding json_u64_def by (cases v rule: u64_from_json.cases) auto
    then have "usize_from_json v = Some n \<longleftrightarrow> (\<exists>w. v = json_u64 w \<and> unat w < 2 ^ 32 \<and> unat w = n)"
      unfolding usize_from_json_def bind_eq_Some_conv by (auto split: if_split_asm)
    also have "\<dots> \<longleftrightarrow> v = json_u64 (of_nat n) \<and> n < 2 ^ 32"
      using fits by auto
    finally show ?thesis .
  qed
  show "plugin_config_from_json (JObject m) = Some c \<longleftrightarrow> ?fields"
    unfolding plugin_config_from_object_iff field_Some_iff s o u by (rule refl)
qed (simp_all add: plugin_config_from_json_def plugin_config_names_def field_def default_plugin_config_def members_def Let_def)

end
