(* ===== verification/Http_Filter.thy ===== *)
theory Http_Filter
  imports Config Recorder Mcp_Headers Wire_Form
begin

text \<open>
  \<open>crates/proxy-wasm-evidence/src/filter.rs\<close>: the root context, the HTTP filter and their
  callbacks. The Proxy-Wasm host is a record of its answers to the calls a callback makes; what a
  callback does to the host is the list of the calls it makes, in order. The calls are answered: the
  SDK panics when the host refuses to read or set a header, which is not modelled. Both HTTP
  callbacks always return \<open>Action::Continue\<close>, which is left out. \<open>proxy_step\<close> is the
  life cycle the host drives: configure the root, create contexts, run their callbacks.
\<close>

section \<open>The host\<close>

text \<open>The answers the host gives during one callback, and the calls that change the host.\<close>

record host =
  host_plugin_configuration :: "bytes option"
  host_define_metric :: "string \<Rightarrow> u32 option"
  host_current_time :: "system_time option"
  host_request_header :: "string \<Rightarrow> string option"

datatype host_call =
    DefineMetric string
  | LogInvalidConfig config_error
  | LogConfigParse string
  | IncrementMetric u32 nat
  | SetResponseHeader string string

section \<open>Metrics\<close>

definition METRIC_BASE :: string where
  "METRIC_BASE = ''aep.evidence.recorded_total''"

record evidence_metrics =
  metric_validation :: u32
  metric_delta :: u32
  metric_full :: u32
  metric_clock_failure :: u32

definition default_metrics :: evidence_metrics where
  "default_metrics =
     \<lparr>metric_validation = 0, metric_delta = 0, metric_full = 0, metric_clock_failure = 0\<rparr>"

definition unwrap_or :: "'a option \<Rightarrow> 'a \<Rightarrow> 'a" where
  "unwrap_or x d = (case x of None \<Rightarrow> d | Some y \<Rightarrow> y)"

definition metrics_define :: "host \<Rightarrow> evidence_metrics \<times> host_call list" where
  "metrics_define h =
     (\<lparr>metric_validation = unwrap_or (host_define_metric h (METRIC_BASE @ ''.validation'')) 0,
       metric_delta = unwrap_or (host_define_metric h (METRIC_BASE @ ''.delta'')) 0,
       metric_full = unwrap_or (host_define_metric h (METRIC_BASE @ ''.full'')) 0,
       metric_clock_failure = unwrap_or (host_define_metric h (METRIC_BASE @ ''.clock_failure_total'')) 0\<rparr>,
      map DefineMetric [METRIC_BASE @ ''.validation'', METRIC_BASE @ ''.delta'', METRIC_BASE @ ''.full'',
        METRIC_BASE @ ''.clock_failure_total''])"

fun id_for :: "evidence_metrics \<Rightarrow> recording_mode \<Rightarrow> u32" where
  "id_for m Validation = metric_validation m"
| "id_for m Delta = metric_delta m"
| "id_for m Full = metric_full m"

section \<open>The root context\<close>

record evidence_root =
  root_config :: plugin_config
  root_metrics :: evidence_metrics

definition root_new :: evidence_root where
  "root_new = \<lparr>root_config = default_plugin_config, root_metrics = default_metrics\<rparr>"

text \<open>
  The new state, the boolean the callback returns and the calls it makes; \<open>validate\<close> never panics.
\<close>

definition on_configure ::
  "('sk, 'vk) crates \<Rightarrow> host \<Rightarrow> nat \<Rightarrow> evidence_root \<Rightarrow>
     evidence_root \<times> bool \<times> host_call list" where
  "on_configure X h plugin_configuration_size r =
     (let (ms, calls) = metrics_define h; r = r\<lparr>root_metrics := ms\<rparr> in
      if plugin_configuration_size = 0 then (r\<lparr>root_config := default_plugin_config\<rparr>, True, calls)
      else case host_plugin_configuration h of
        None \<Rightarrow> (r, False, calls)
      | Some config_bytes \<Rightarrow>
          (case config_from_slice X config_bytes of
             Inr c \<Rightarrow>
               (case validate X c of
                  Err err \<Rightarrow> (r, False, calls @ [LogInvalidConfig err])
                | _ \<Rightarrow> (r\<lparr>root_config := c\<rparr>, True, calls))
           | Inl err \<Rightarrow> (r, False, calls @ [LogConfigParse err])))"

section \<open>The HTTP filter\<close>

record evidence_filter =
  context_id :: u32
  flt_config :: plugin_config
  flt_buffer :: evidence_buffer
  flt_method :: string
  flt_path :: string
  flt_trace_id :: "string option"
  flt_agent_id :: "string option"
  flt_mcp_method :: "string option"
  flt_mcp_name :: "string option"
  flt_metrics :: evidence_metrics

text \<open>The buffer of a new filter is reserved at once, in the room the host has left.\<close>

definition filter_new ::
  "nat \<Rightarrow> u32 \<Rightarrow> plugin_config \<Rightarrow> evidence_metrics \<Rightarrow> ('e, evidence_filter) outcome" where
  "filter_new room ctx c ms =
     and_then (buffer_new room (max_evidence_buffer c)) (\<lambda>b.
     Ok \<lparr>context_id = ctx, flt_config = c, flt_buffer = b, flt_method = [], flt_path = [],
        flt_trace_id = None, flt_agent_id = None, flt_mcp_method = None, flt_mcp_name = None,
        flt_metrics = ms\<rparr>)"

definition create_http_context :: "nat \<Rightarrow> evidence_root \<Rightarrow> u32 \<Rightarrow> ('e, evidence_filter) outcome" where
  "create_http_context room r ctx = filter_new room ctx (root_config r) (root_metrics r)"

definition current_time_ms :: "host \<Rightarrow> evidence_filter \<Rightarrow> u64 \<times> host_call list" where
  "current_time_ms h f =
     (case map_option unix_millis (host_current_time h) of
        Some ts \<Rightarrow> (ts, [])
      | None \<Rightarrow> (0, [IncrementMetric (metric_clock_failure (flt_metrics f)) 1]))"

definition on_http_request_headers :: "host \<Rightarrow> evidence_filter \<Rightarrow> evidence_filter" where
  "on_http_request_headers h f =
     f\<lparr>flt_method := unwrap_or (host_request_header h '':method'') [],
       flt_path := unwrap_or (host_request_header h '':path'') [],
       flt_trace_id := host_request_header h (trace_id_header (flt_config f)),
       flt_agent_id := host_request_header h (agent_id_header (flt_config f)),
       flt_mcp_method := or_else (host_request_header h ''x-mcp-method'') (host_request_header h ''mcp-method''),
       flt_mcp_name := or_else (host_request_header h ''mcp-name'') (host_request_header h ''x-mcp-name'')\<rparr>"

definition on_http_response_headers ::
  "unicode_tables \<Rightarrow> host \<Rightarrow> evidence_filter \<Rightarrow> evidence_filter \<times> host_call list" where
  "on_http_response_headers U h f =
     (let class = infer_side_effect_class_with_mcp U (flt_method f) (flt_path f) (flt_mcp_method f);
          risk_ctx = \<lparr>was_vetted = False, has_consent_anomaly = False, taint_chain_length = 0, risk_class = class\<rparr>;
          act_id = ''ctx-'' @ to_decimal (unat (context_id f));
          tool = flt_method f @ '' '' @ flt_path f;
          header_risk = classify_mcp_headers U (flt_mcp_method f) (flt_mcp_name f);
          (now, clock_calls) = current_time_ms h f;
          evidence = build_evidence act_id tool risk_ctx now None header_risk;
          evidence = evidence\<lparr>act_recording_mode :=
            max_recording_mode (act_recording_mode evidence) (default_mode (flt_config f))\<rparr>;
          mode_calls =
            [SetResponseHeader ''x-aep-recording-mode'' (recording_mode_as_str (act_recording_mode evidence)),
             IncrementMetric (id_for (flt_metrics f) (act_recording_mode evidence)) 1];
          risk_calls =
            (case act_mcp_header_risk evidence of
               Some risk_str \<Rightarrow> [SetResponseHeader ''x-aep-mcp-header-risk'' risk_str]
             | None \<Rightarrow> [])
      in (f\<lparr>flt_buffer := fst (buffer_push evidence (flt_buffer f))\<rparr>, clock_calls @ mode_calls @ risk_calls))"

section \<open>What one callback does\<close>

text \<open>The entry a response records, and the calls that report it.\<close>

definition captured_evidence :: "unicode_tables \<Rightarrow> host \<Rightarrow> evidence_filter \<Rightarrow> action_evidence" where
  "captured_evidence U h f =
     (let class = infer_side_effect_class_with_mcp U (flt_method f) (flt_path f) (flt_mcp_method f) in
      \<lparr>action_id = ''ctx-'' @ to_decimal (unat (context_id f)), tool_name = flt_method f @ '' '' @ flt_path f,
       state_changing = (class \<noteq> Read), precondition_digest = None, result_digest = None,
       timestamp_ms = fst (current_time_ms h f), parent_action_id = None, causal_chain_id = None,
       act_recording_mode = max (class_mode class) (default_mode (flt_config f)),
       act_capability_decision = None,
       act_mcp_header_risk = map_option mcp_header_risk_as_str (classify_mcp_headers U (flt_mcp_method f) (flt_mcp_name f)),
       act_side_effect_class = Some (canonical_str class), act_extra = []\<rparr>)"

definition reporting_calls :: "evidence_filter \<Rightarrow> action_evidence \<Rightarrow> host_call list" where
  "reporting_calls f e =
     SetResponseHeader ''x-aep-recording-mode'' (recording_mode_as_str (act_recording_mode e)) #
     IncrementMetric (id_for (flt_metrics f) (act_recording_mode e)) 1 #
     map (SetResponseHeader ''x-aep-mcp-header-risk'') (case act_mcp_header_risk e of None \<Rightarrow> [] | Some r \<Rightarrow> [r])"

lemma clean_policy_mode:
  "mode (compile_recording_policy
     \<lparr>was_vetted = False, has_consent_anomaly = False, taint_chain_length = 0, risk_class = c\<rparr>) = class_mode c"
  by (cases c) (simp_all add: policy_mode)

lemma response_eq:
  "on_http_response_headers U h f =
     (f\<lparr>flt_buffer := fst (buffer_push (captured_evidence U h f) (flt_buffer f))\<rparr>,
      snd (current_time_ms h f) @ reporting_calls f (captured_evidence U h f))"
  by (simp add: on_http_response_headers_def Let_def split_beta captured_evidence_def reporting_calls_def
      build_evidence_def clean_policy_mode max_recording_mode_max split: option.split)

text \<open>A callback only reads the clock and the configuration of its filter, which no response changes.\<close>

definition same_request :: "evidence_filter \<Rightarrow> evidence_filter \<Rightarrow> bool" where
  "same_request f g \<longleftrightarrow> (\<exists>b. g = f\<lparr>flt_buffer := b\<rparr>)"

lemma captured_buffer_irrelevant [simp]: "captured_evidence U h (f\<lparr>flt_buffer := b\<rparr>) = captured_evidence U h f"
  by (simp add: captured_evidence_def current_time_ms_def Let_def split: option.split)

definition handle_responses :: "unicode_tables \<Rightarrow> host list \<Rightarrow> evidence_filter \<Rightarrow> evidence_filter" where
  "handle_responses U hs f = foldl (\<lambda>f h. fst (on_http_response_headers U h f)) f hs"

lemma handle_responses_eq:
  "handle_responses U hs f =
     f\<lparr>flt_buffer := evidence_fifo.push_all (flt_buffer f) (map (\<lambda>h. captured_evidence U h f) hs)\<rparr>"
proof (induction hs arbitrary: f)
  case Nil
  then show ?case by (simp add: handle_responses_def evidence_fifo.push_all_simps)
next
  case (Cons h hs)
  then show ?case by (simp add: handle_responses_def response_eq evidence_fifo.push_all_simps)
qed

section \<open>The life cycle\<close>

record proxy =
  proxy_root :: evidence_root
  contexts :: "u32 \<rightharpoonup> evidence_filter"

datatype proxy_event =
    Configure host nat
  | CreateContext u32 nat
  | RequestHeaders u32 host
  | ResponseHeaders u32 host
  | DeleteContext u32

text \<open>
  What the entry point of the module (\<open>proxy_wasm::main!\<close> in \<open>lib.rs\<close>) registers: the level from
  which on log messages reach the host, and the constructor of the root context, which ignores the
  id the host gives it. The host makes its root context with it.
\<close>

datatype log_level = LevelTrace | LevelDebug | LevelInfo | LevelWarn | LevelError | LevelCritical

record module_start =
  start_log_level :: log_level
  start_root_context :: "u32 \<Rightarrow> evidence_root"

definition module_main :: module_start where
  "module_main = \<lparr>start_log_level = LevelInfo, start_root_context = (\<lambda>_. root_new)\<rparr>"

definition proxy_init :: proxy where
  "proxy_init = \<lparr>proxy_root = start_root_context module_main 1, contexts = Map.empty\<rparr>"

lemma proxy_init_eq: "proxy_init = \<lparr>proxy_root = root_new, contexts = Map.empty\<rparr>"
  by (simp add: proxy_init_def module_main_def)

text \<open>The id the host picks for the root context does not matter.\<close>

lemma any_root_id: "start_root_context module_main i = proxy_root proxy_init"
  by (simp add: proxy_init_def module_main_def)

text \<open>
  One callback of the Proxy-Wasm ABI: an event, the host calls it makes, the state after it. The
  host creates a context under a fresh id and only calls back into live contexts; with the creation
  comes the room that is left for its buffer. A callback that panics takes no step.
\<close>

inductive proxy_step ::
  "('sk, 'vk) crates \<Rightarrow> unicode_tables \<Rightarrow>
     proxy \<Rightarrow> proxy_event \<Rightarrow> host_call list \<Rightarrow> proxy \<Rightarrow> bool"
  for X U where
  configure:
    "on_configure X h n (proxy_root s) = (r, ok, calls) \<Longrightarrow>
     proxy_step X U s (Configure h n) calls (s\<lparr>proxy_root := r\<rparr>)"
| create:
    "contexts s ctx = None \<Longrightarrow>
     (create_http_context room (proxy_root s) ctx :: (unit, evidence_filter) outcome) = Ok f \<Longrightarrow>
     proxy_step X U s (CreateContext ctx room) [] (s\<lparr>contexts := (contexts s)(ctx \<mapsto> f)\<rparr>)"
| request:
    "contexts s ctx = Some f \<Longrightarrow>
     proxy_step X U s (RequestHeaders ctx h) []
       (s\<lparr>contexts := (contexts s)(ctx \<mapsto> on_http_request_headers h f)\<rparr>)"
| response:
    "contexts s ctx = Some f \<Longrightarrow> on_http_response_headers U h f = (f', calls) \<Longrightarrow>
     proxy_step X U s (ResponseHeaders ctx h) calls
       (s\<lparr>contexts := (contexts s)(ctx \<mapsto> f')\<rparr>)"
| delete:
    "contexts s ctx = Some f \<Longrightarrow>
     proxy_step X U s (DeleteContext ctx) [] (s\<lparr>contexts := (contexts s)(ctx := None)\<rparr>)"

inductive_cases configure_stepE: "proxy_step X U s (Configure h n) calls s'"
inductive_cases create_stepE: "proxy_step X U s (CreateContext ctx room) calls s'"
inductive_cases request_stepE: "proxy_step X U s (RequestHeaders ctx h) calls s'"
inductive_cases response_stepE: "proxy_step X U s (ResponseHeaders ctx h) calls s'"
inductive_cases delete_stepE: "proxy_step X U s (DeleteContext ctx) calls s'"

text \<open>The host hands the module strings, which Rust only holds as valid UTF-8.\<close>

definition host_ok :: "host \<Rightarrow> bool" where
  "host_ok h \<longleftrightarrow> (\<forall>k v. host_request_header h k = Some v \<longrightarrow> utf8_valid v)"

fun event_ok :: "proxy_event \<Rightarrow> bool" where
  "event_ok (RequestHeaders ctx h) = host_ok h"
| "event_ok _ = True"

inductive proxy_reachable ::
  "('sk, 'vk) crates \<Rightarrow> unicode_tables \<Rightarrow> proxy \<Rightarrow> bool"
  for X U where
  start: "proxy_reachable X U proxy_init"
| step: "proxy_reachable X U s \<Longrightarrow> event_ok ev \<Longrightarrow>
     proxy_step X U s ev calls s' \<Longrightarrow> proxy_reachable X U s'"

section \<open>The invariant\<close>

text \<open>What every entry of a filter's buffer is like.\<close>

definition entry_of :: "evidence_filter \<Rightarrow> action_evidence \<Rightarrow> bool" where
  "entry_of f e \<longleftrightarrow>
     action_id e = ''ctx-'' @ to_decimal (unat (context_id f)) \<and>
     default_mode (flt_config f) \<le> act_recording_mode e \<and>
     (state_changing e \<longrightarrow> act_recording_mode e = Full) \<and>
     act_extra e = [] \<and> act_capability_decision e = None \<and> utf8_valid (tool_name e) \<and>
     (\<forall>s \<in> set_option (precondition_digest e) \<union> set_option (result_digest e) \<union>
        set_option (parent_action_id e) \<union> set_option (causal_chain_id e) \<union>
        set_option (act_mcp_header_risk e) \<union> set_option (act_side_effect_class e). utf8_valid s)"

definition filter_ok :: "('sk, 'vk) crates \<Rightarrow> evidence_filter \<Rightarrow> bool" where
  "filter_ok X f \<longleftrightarrow>
     validate X (flt_config f) = Ok () \<and> buffer_ok (flt_buffer f) \<and>
     capacity (flt_buffer f) = max_evidence_buffer (flt_config f) \<and>
     utf8_valid (flt_method f) \<and> utf8_valid (flt_path f) \<and>
     (\<forall>e \<in> set (entries (flt_buffer f)). entry_of f e)"

definition proxy_ok :: "('sk, 'vk) crates \<Rightarrow> proxy \<Rightarrow> bool" where
  "proxy_ok X s \<longleftrightarrow>
     validate X (root_config (proxy_root s)) = Ok () \<and>
     (\<forall>ctx f. contexts s ctx = Some f \<longrightarrow> context_id f = ctx \<and> filter_ok X f)"

lemma on_configure_config_valid:
  assumes "validate X (root_config r) = Ok ()" "on_configure X h n r = (r', ok, calls)"
  shows "validate X (root_config r') = Ok ()"
  using assms
  by (auto simp: on_configure_def Let_def split_beta split: if_splits option.splits sum.splits outcome.splits)

lemma create_http_context_Ok_iff:
  "create_http_context room r ctx = Ok f \<longleftrightarrow>
     0 < max_evidence_buffer (root_config r) \<and> max_evidence_buffer (root_config r) \<le> room \<and>
     f = \<lparr>context_id = ctx, flt_config = root_config r,
        flt_buffer = \<lparr>entries = [], capacity = max_evidence_buffer (root_config r), dropped_total = 0\<rparr>,
        flt_method = [], flt_path = [], flt_trace_id = None, flt_agent_id = None,
        flt_mcp_method = None, flt_mcp_name = None, flt_metrics = root_metrics r\<rparr>"
  by (auto simp: create_http_context_def filter_new_def buffer_new_def)

lemma create_http_context_Panic_iff:
  "create_http_context room r ctx = Panic \<longleftrightarrow>
     max_evidence_buffer (root_config r) = 0 \<or> room < max_evidence_buffer (root_config r)"
  by (simp add: create_http_context_def filter_new_def buffer_new_def)

lemma create_http_context_filter_ok:
  assumes "validate X (root_config r) = Ok ()" "create_http_context room r ctx = Ok f"
  shows "filter_ok X f \<and> context_id f = ctx"
  using assms by (simp add: create_http_context_Ok_iff filter_ok_def buffer_ok_def utf8_valid_literal)

lemma host_header_valid [simp]:
  "host_ok h \<Longrightarrow> utf8_valid (unwrap_or (host_request_header h k) [])"
  by (cases "host_request_header h k") (auto simp: host_ok_def unwrap_or_def utf8_valid_literal)

lemma request_filter_ok: "host_ok h \<Longrightarrow> filter_ok X f \<Longrightarrow> filter_ok X (on_http_request_headers h f)"
  by (simp add: filter_ok_def on_http_request_headers_def entry_of_def)

lemma canonical_str_valid [simp]: "utf8_valid (canonical_str c)"
  by (cases c) (simp_all add: utf8_valid_literal)

lemma risk_name_valid [simp]: "utf8_valid (mcp_header_risk_as_str r)"
  by (cases r) (simp_all add: utf8_valid_literal)

lemma captured_entry_of:
  assumes "filter_ok X f"
  shows "entry_of f (captured_evidence U h f)"
proof -
  let ?c = "infer_side_effect_class_with_mcp U (flt_method f) (flt_path f) (flt_mcp_method f)"
  have "class_mode ?c = Full" if "?c \<noteq> Read"
    using that infer_never_MutateLocal [of U "flt_method f" "flt_path f" "flt_mcp_method f"] by (cases ?c) simp_all
  moreover have "utf8_valid (flt_method f @ '' '' @ flt_path f)"
    using assms by (intro utf8_valid_append) (simp_all add: filter_ok_def utf8_valid_literal)
  ultimately show ?thesis
    by (auto simp: entry_of_def captured_evidence_def Let_def max_def)
qed

lemma push_entries_subset: "set (entries (fst (buffer_push e b))) \<subseteq> insert e (set (entries b))"
  by (cases "entries b") (auto simp: buffer_push_def Let_def)

lemma response_filter_ok:
  assumes "filter_ok X f"
  shows "filter_ok X (fst (on_http_response_headers U h f))"
proof -
  have "entry_of (f\<lparr>flt_buffer := b\<rparr>) e = entry_of f e" for b e by (simp add: entry_of_def)
  with assms captured_entry_of [OF assms, of U h] buffer_push_ok [of "flt_buffer f" "captured_evidence U h f"]
    push_entries_subset [of "captured_evidence U h f" "flt_buffer f"]
  show ?thesis by (auto simp: response_eq filter_ok_def)
qed

lemma proxy_step_ok:
  assumes "proxy_step X U s ev calls s'" "event_ok ev" "proxy_ok X s"
  shows "proxy_ok X s'"
  using assms
proof (induction rule: proxy_step.induct)
  case (configure h n s r ok calls)
  then show ?case by (auto simp: proxy_ok_def dest: on_configure_config_valid)
next
  case (create s ctx room f)
  then show ?case using create_http_context_filter_ok [of X "proxy_root s" room ctx f] by (auto simp: proxy_ok_def)
next
  case (request s ctx f h)
  then show ?case
    using request_filter_ok [of h X f] by (auto simp: proxy_ok_def) (simp add: on_http_request_headers_def)
next
  case (response s ctx f h f' calls)
  then have "f' = fst (on_http_response_headers U h f)" by simp
  with response show ?case
    using response_filter_ok [of X f U h] by (auto simp: proxy_ok_def response_eq)
qed (auto simp: proxy_ok_def)

lemma proxy_reachable_ok: "proxy_reachable X U s \<Longrightarrow> proxy_ok X s"
proof (induction rule: proxy_reachable.induct)
  case start
  then show ?case by (simp add: proxy_ok_def proxy_init_eq root_new_def)
next
  case (step s ev calls s')
  then show ?case using proxy_step_ok by blast
qed

lemma reachable_filter_ok:
  "proxy_reachable X U s \<Longrightarrow> contexts s ctx = Some f \<Longrightarrow> context_id f = ctx \<and> filter_ok X f"
  by (drule proxy_reachable_ok) (simp add: proxy_ok_def)

lemma reachable_entries:
  "proxy_reachable X U s \<Longrightarrow> contexts s ctx = Some f \<Longrightarrow> \<forall>e \<in> set (entries (flt_buffer f)). entry_of f e"
  by (drule reachable_filter_ok) (auto simp: filter_ok_def)

section \<open>Properties\<close>

text \<open>C23: in every reachable state the root holds a validated configuration with a positive buffer
capacity, and every live filter is filed under its own context id, holds a buffer of the capacity it
was configured with and no more entries than that; each entry in it carries the filter's context id,
is recorded at least at the operator's default mode, and in full if its class changes state.\<close>

theorem proxy_invariant:
  assumes "proxy_reachable X U s"
  shows "validate X (root_config (proxy_root s)) = Ok () \<and>
    0 < max_evidence_buffer (root_config (proxy_root s)) \<and>
    (\<forall>ctx f. contexts s ctx = Some f \<longrightarrow>
       context_id f = ctx \<and> validate X (flt_config f) = Ok () \<and>
       capacity (flt_buffer f) = max_evidence_buffer (flt_config f) \<and>
       length (entries (flt_buffer f)) \<le> max_evidence_buffer (flt_config f) \<and>
       (\<forall>e \<in> set (entries (flt_buffer f)).
          action_id e = ''ctx-'' @ to_decimal (unat ctx) \<and>
          default_mode (flt_config f) \<le> act_recording_mode e \<and>
          (state_changing e \<longrightarrow> act_recording_mode e = Full)))"
proof (intro conjI allI impI)
  from proxy_reachable_ok [OF assms] show v: "validate X (root_config (proxy_root s)) = Ok ()"
    by (simp add: proxy_ok_def)
  then show "0 < max_evidence_buffer (root_config (proxy_root s))" by (simp add: validate_Ok_iff)
  fix ctx f
  assume "contexts s ctx = Some f"
  from reachable_filter_ok [OF assms this] have id: "context_id f = ctx" and f: "filter_ok X f" by simp_all
  from id show "context_id f = ctx" .
  from f show "validate X (flt_config f) = Ok ()" "capacity (flt_buffer f) = max_evidence_buffer (flt_config f)"
    "length (entries (flt_buffer f)) \<le> max_evidence_buffer (flt_config f)"
    by (simp_all add: filter_ok_def buffer_ok_def)
  from f id show "\<forall>e \<in> set (entries (flt_buffer f)). action_id e = ''ctx-'' @ to_decimal (unat ctx) \<and>
      default_mode (flt_config f) \<le> act_recording_mode e \<and> (state_changing e \<longrightarrow> act_recording_mode e = Full)"
    by (simp add: filter_ok_def entry_of_def)
qed

text \<open>Whatever was configured before, the creation of an HTTP context traps exactly if there is no
room for its buffer: the assertion on the way, a positive buffer capacity, always holds.\<close>

lemma create_context_traps_iff:
  assumes "proxy_reachable X U s"
  shows "(create_http_context room (proxy_root s) ctx :: (unit, evidence_filter) outcome) = Panic \<longleftrightarrow>
    room < max_evidence_buffer (root_config (proxy_root s))"
  using proxy_reachable_ok [OF assms]
  by (simp add: create_http_context_Panic_iff proxy_ok_def validate_Ok_iff)

text \<open>A configuration that is written out as JSON and handed to the module takes effect as it
is, and the callback reports success, provided it is one the module accepts.\<close>

lemma configured_text_takes_effect:
  assumes "json_parses X" "config_ok c" "validate X c = Ok ()" "n \<noteq> 0"
    and "host_plugin_configuration h = Some (plugin_config_to_string X c)"
  shows "on_configure X h n r =
    (\<lparr>root_config = c, root_metrics = fst (metrics_define h)\<rparr>, True, snd (metrics_define h))"
  using assms config_from_slice_written [OF assms(1,2)]
  by (cases r) (simp add: on_configure_def Let_def split_beta)

text \<open>C32: an accepted configuration is not yet one the module can run with: the configuration
callback reports success and loads it, and from then on the creation of a context traps
exactly when there is no room for the configured buffer. Where there is, the context starts with an
empty buffer of that capacity.\<close>

theorem configured_capacity_decides_creation:
  assumes "json_parses X" "config_ok c" "validate X c = Ok ()" "n \<noteq> 0"
    and "host_plugin_configuration h = Some (plugin_config_to_string X c)"
    and "on_configure X h n r = (r', ok, calls)"
  shows "ok \<and> root_config r' = c \<and>
    (case (create_http_context room r' ctx :: (unit, evidence_filter) outcome) of
       Panic \<Rightarrow> room < max_evidence_buffer c
     | Err _ \<Rightarrow> False
     | Ok f \<Rightarrow> max_evidence_buffer c \<le> room \<and> flt_config f = c \<and>
         entries (flt_buffer f) = [] \<and> capacity (flt_buffer f) = max_evidence_buffer c)"
proof -
  have r': "ok" "root_config r' = c"
    using configured_text_takes_effect [OF assms(1-5), of r] assms(6) by simp_all
  moreover from assms(3) have "0 < max_evidence_buffer c" by (simp add: validate_Ok_iff)
  ultimately show ?thesis by (simp add: create_http_context_def filter_new_def buffer_new_def)
qed

text \<open>The largest capacity a 32 bit module can be given is accepted, and no module has room for it.\<close>

lemma accepted_capacity_can_trap:
  assumes "room < 4294967295"
  shows "validate X (default_plugin_config\<lparr>max_evidence_buffer := 4294967295\<rparr>) = Ok () \<and>
    (create_http_context room (root_new\<lparr>root_config := default_plugin_config\<lparr>max_evidence_buffer := 4294967295\<rparr>\<rparr>) ctx
       :: (unit, evidence_filter) outcome) = Panic"
  using assms by (simp add: create_http_context_Panic_iff validate_Ok_iff default_plugin_config_def)

lemma mutating_mode:
  assumes "host_request_header h '':method'' = Some m" "m \<in> {''POST'', ''PUT'', ''PATCH'', ''DELETE''}"
  shows "act_recording_mode (captured_evidence U h' (on_http_request_headers h f)) = Full"
    "state_changing (captured_evidence U h' (on_http_request_headers h f))"
proof -
  let ?f = "on_http_request_headers h f"
  let ?c = "infer_side_effect_class_with_mcp U (flt_method ?f) (flt_path ?f) (flt_mcp_method ?f)"
  have "http_side_effect_class U (flt_method ?f) (flt_path ?f) \<noteq> Read"
    using assms by (auto simp: on_http_request_headers_def unwrap_or_def http_side_effect_class_def
        to_uppercase_ascii ascii_def)
  then have "?c \<noteq> Read" by (simp add: infer_Read_iff)
  moreover from this have "class_mode ?c = Full"
    using infer_never_MutateLocal [of U "flt_method ?f" "flt_path ?f" "flt_mcp_method ?f"] by (cases ?c) simp_all
  ultimately show "act_recording_mode (captured_evidence U h' ?f) = Full"
    "state_changing (captured_evidence U h' ?f)"
    by (simp_all add: captured_evidence_def Let_def max_def)
qed

text \<open>C24: a request with a mutating HTTP method is recorded and reported in full, whatever the path,
the MCP headers, the configured default, the host clock and the buffer are: after the response the
newest entry of the filter's buffer is that request's, in full and as state changing, and the mode
header of the response says \<open>full\<close> and nothing else.\<close>

theorem mutating_request_recorded_in_full:
  assumes "host_request_header h '':method'' = Some m" "m \<in> {''POST'', ''PUT'', ''PATCH'', ''DELETE''}"
    and "on_http_response_headers U h' (on_http_request_headers h f) = (f', calls)"
  shows "entries (flt_buffer f') \<noteq> [] \<and>
    action_id (last (entries (flt_buffer f'))) = ''ctx-'' @ to_decimal (unat (context_id f)) \<and>
    tool_name (last (entries (flt_buffer f'))) = m @ '' '' @ unwrap_or (host_request_header h '':path'') [] \<and>
    act_recording_mode (last (entries (flt_buffer f'))) = Full \<and>
    state_changing (last (entries (flt_buffer f'))) \<and>
    {v. SetResponseHeader ''x-aep-recording-mode'' v \<in> set calls} = {''full''}"
proof -
  let ?f = "on_http_request_headers h f"
  let ?e = "captured_evidence U h' ?f"
  have f': "f' = ?f\<lparr>flt_buffer := fst (buffer_push ?e (flt_buffer ?f))\<rparr>"
    and calls: "calls = snd (current_time_ms h' ?f) @ reporting_calls ?f ?e"
    using assms(3) by (simp_all add: response_eq)
  have e: "tool_name ?e = m @ '' '' @ unwrap_or (host_request_header h '':path'') []"
    "action_id ?e = ''ctx-'' @ to_decimal (unat (context_id f))"
    using assms(1) by (simp_all add: captured_evidence_def Let_def on_http_request_headers_def unwrap_or_def)
  have last: "entries (flt_buffer f') \<noteq> []" "last (entries (flt_buffer f')) = ?e"
    using push_last [of ?e "flt_buffer ?f"] by (simp_all add: f')
  have "{v. SetResponseHeader ''x-aep-recording-mode'' v \<in> set calls} = {''full''}"
    using mutating_mode(1) [OF assms(1,2), of U h' f]
    by (auto simp: calls current_time_ms_def reporting_calls_def split: option.splits)
  with last e mutating_mode [OF assms(1,2), of U h' f] show ?thesis by simp
qed

text \<open>
  A dropped entry is counted in the buffer, but nobody outside can tell: what a response does to the
  host does not depend on what the buffer holds, how long it is or how much it dropped.
\<close>

lemma drops_are_silent:
  "snd (on_http_response_headers U h (f\<lparr>flt_buffer := b\<rparr>)) = snd (on_http_response_headers U h f)"
  by (simp add: response_eq reporting_calls_def current_time_ms_def split: option.split)

text \<open>The trace id and the agent id are taken from the request, but no evidence carries them.\<close>

lemma identity_headers_not_recorded:
  "captured_evidence U h (f\<lparr>flt_trace_id := t, flt_agent_id := a\<rparr>) = captured_evidence U h f \<and>
   snd (on_http_response_headers U h (f\<lparr>flt_trace_id := t, flt_agent_id := a\<rparr>)) = snd (on_http_response_headers U h f)"
proof -
  have "captured_evidence U h (f\<lparr>flt_trace_id := t, flt_agent_id := a\<rparr>) = captured_evidence U h f"
    by (simp add: captured_evidence_def current_time_ms_def Let_def split: option.split)
  then show ?thesis
    by (simp add: response_eq reporting_calls_def current_time_ms_def split: option.split)
qed

text \<open>Over any run of responses a filter keeps the newest entries, each built from the
request it saw and the clock of its response, and counts the others as dropped.\<close>

lemma handle_responses_keeps_newest:
  assumes "buffer_ok (flt_buffer f)"
  shows "entries (flt_buffer (handle_responses U hs f)) =
      keep_last (capacity (flt_buffer f)) (entries (flt_buffer f) @ map (\<lambda>h. captured_evidence U h f) hs) \<and>
    dropped_total (flt_buffer (handle_responses U hs f)) =
      dropped_total (flt_buffer f) + of_nat (length (entries (flt_buffer f)) + length hs - capacity (flt_buffer f))"
  using evidence_fifo.push_all_items [OF assms] evidence_fifo.push_all_drops [OF assms]
  by (simp add: handle_responses_eq)

end
