(* ===== verification/Simulation.thy ===== *)
theory Simulation
  imports Main
begin

text \<open>
  Runs of a step relation whose steps consume an event and produce an output, and the contract
  under which a run is simulated by a deterministic specification.
\<close>

inductive run :: "('s \<Rightarrow> 'e \<Rightarrow> 'o \<Rightarrow> 's \<Rightarrow> bool) \<Rightarrow> 's \<Rightarrow> ('e \<times> 'o) list \<Rightarrow> 's \<Rightarrow> bool" for step where
  stop: "run step s [] s"
| go: "step s e c s' \<Longrightarrow> run step s' tr s'' \<Longrightarrow> run step s ((e, c) # tr) s''"

inductive_simps run_Nil [simp]: "run step s [] s'"
inductive_simps run_Cons: "run step s ((e, c) # tr) s'"

lemma run_append: "run step s (tr @ ur) t \<longleftrightarrow> (\<exists>s'. run step s tr s' \<and> run step s' ur t)"
proof (induction tr arbitrary: s)
  case Nil
  then show ?case by simp
next
  case (Cons p tr)
  then show ?case by (cases p) (simp add: run_Cons, blast)
qed

text \<open>
  \<open>advance\<close> is the specification's step, \<open>expect\<close> what the specification has to say about the
  output, \<open>related\<close> the simulation relation between the states.
\<close>

locale simulation =
  fixes step :: "'s \<Rightarrow> 'e \<Rightarrow> 'o \<Rightarrow> 's \<Rightarrow> bool"
    and advance :: "'e \<Rightarrow> 'a \<Rightarrow> 'a"
    and expect :: "'a \<Rightarrow> 'e \<Rightarrow> 'o \<Rightarrow> bool"
    and related :: "'s \<Rightarrow> 'a \<Rightarrow> bool"
  assumes simulates: "related s a \<Longrightarrow> step s e c s' \<Longrightarrow> related s' (advance e a) \<and> expect a e c"
begin

definition replay :: "'a \<Rightarrow> 'e list \<Rightarrow> 'a" where
  "replay a es = foldl (\<lambda>a e. advance e a) a es"

lemma replay_simps: "replay a [] = a" "replay a (e # es) = replay (advance e a) es"
  by (simp_all add: replay_def)

lemma run_related: "run step s tr s' \<Longrightarrow> related s a \<Longrightarrow> related s' (replay a (map fst tr))"
  by (induction arbitrary: a rule: run.induct) (auto simp: replay_simps dest: simulates)

text \<open>Every output of a run is the one the specification expects at its place.\<close>

lemma run_expected:
  "run step s tr s' \<Longrightarrow> related s a \<Longrightarrow> i < length tr \<Longrightarrow>
     expect (replay a (map fst (take i tr))) (fst (tr ! i)) (snd (tr ! i))"
proof (induction arbitrary: a i rule: run.induct)
  case (stop s)
  then show ?case by simp
next
  case (go s e c s' tr s'')
  then show ?case using simulates [OF go.prems(1) go.hyps(1)] by (cases i) (simp_all add: replay_simps)
qed

end

text \<open>A system that always has an answer to what the environment may do, and only one.\<close>

locale responsive =
  fixes step :: "'s \<Rightarrow> 'e \<Rightarrow> 'o \<Rightarrow> 's \<Rightarrow> bool"
    and invar :: "'s \<Rightarrow> bool"
    and allowed :: "'s \<Rightarrow> 'e \<Rightarrow> bool"
  assumes responds: "invar s \<Longrightarrow> allowed s e \<Longrightarrow> \<exists>c s'. step s e c s' \<and> invar s'"
    and responds_once: "step s e c s' \<Longrightarrow> step s e d t \<Longrightarrow> c = d \<and> s' = t"
begin

lemma run_once: "run step s tr s' \<Longrightarrow> run step s ur t' \<Longrightarrow> map fst tr = map fst ur \<Longrightarrow> tr = ur \<and> s' = t'"
proof (induction arbitrary: ur rule: run.induct)
  case (stop s)
  then show ?case by simp
next
  case (go s e c s' tr s'')
  then obtain d ur' where ur: "ur = (e, d) # ur'" "map fst tr = map fst ur'" by (cases ur) auto
  with go.prems(1) obtain t where "step s e d t" "run step t ur' t'" by (auto simp: run_Cons)
  with go ur responds_once [OF go.hyps(1)] show ?case by blast
qed

end

end
