(* ===== verification/Proxy_Spec.thy ===== *)
theory Proxy_Spec
  imports Http_Filter Simulation
begin

text \<open>
  What the module of \<open>crates/proxy-wasm-evidence/src/filter.rs\<close> promises its host, as an
  abstract machine without buffers: a ledger that keeps everything a stream ever recorded. The
  filter refines it: its bounded buffers are the newest part of the ledger, and every call it makes
  into the host is the one the ledger prescribes.
\<close>

section \<open>The ledger\<close>

record request =
  rq_method :: string
  rq_path :: string
  rq_mcp_method :: "string option"
  rq_mcp_name :: "string option"

text \<open>A counter is named by the mode it counts; \<open>None\<close> is the counter of clock failures.\<close>

type_synonym counters = "recording_mode option \<Rightarrow> u32"

record stream =
  st_config :: plugin_config
  st_counters :: counters
  st_request :: request
  st_history :: "action_evidence list"

record ledger =
  led_config :: plugin_config
  led_counters :: counters
  led_streams :: "u32 \<rightharpoonup> stream"

definition no_request :: request where
  "no_request = \<lparr>rq_method = [], rq_path = [], rq_mcp_method = None, rq_mcp_name = None\<rparr>"

definition request_of :: "host \<Rightarrow> request" where
  "request_of h =
     \<lparr>rq_method = unwrap_or (host_request_header h '':method'') [],
      rq_path = unwrap_or (host_request_header h '':path'') [],
      rq_mcp_method = or_else (host_request_header h ''x-mcp-method'') (host_request_header h ''mcp-method''),
      rq_mcp_name = or_else (host_request_header h ''mcp-name'') (host_request_header h ''x-mcp-name'')\<rparr>"

fun counter_stat :: "recording_mode option \<Rightarrow> string" where
  "counter_stat (Some m) = ''aep.evidence.recorded_total.'' @ recording_mode_as_str m"
| "counter_stat None = ''aep.evidence.recorded_total.clock_failure_total''"

text \<open>The ids under which the host defined the counters; an id of 0 stands for a refusal.\<close>

definition defined_counters :: "host \<Rightarrow> counters" where
  "defined_counters h k = (case host_define_metric h (counter_stat k) of None \<Rightarrow> 0 | Some i \<Rightarrow> i)"

text \<open>The configuration in force after the host configured the module, and what is logged about it.\<close>

definition accepted_config :: "('sk, 'vk) crates \<Rightarrow> host \<Rightarrow> nat \<Rightarrow> plugin_config \<Rightarrow> plugin_config" where
  "accepted_config X h n old =
     (if n = 0 then default_plugin_config
      else case map_option (config_from_slice X) (host_plugin_configuration h) of
        Some (Inr c) \<Rightarrow> if validate X c = Ok () then c else old
      | _ \<Rightarrow> old)"

definition configuration_log :: "('sk, 'vk) crates \<Rightarrow> host \<Rightarrow> nat \<Rightarrow> host_call list" where
  "configuration_log X h n =
     (if n = 0 then []
      else case map_option (config_from_slice X) (host_plugin_configuration h) of
        None \<Rightarrow> []
      | Some (Inl e) \<Rightarrow> [LogConfigParse e]
      | Some (Inr c) \<Rightarrow> (case validate X c of Err e \<Rightarrow> [LogInvalidConfig e] | _ \<Rightarrow> []))"

text \<open>
  The entry an exchange is worth. Its class is the worse of what the HTTP request and the MCP
  operation, if there is one, say.
\<close>

definition ledger_entry ::
  "unicode_tables \<Rightarrow> u32 \<Rightarrow> plugin_config \<Rightarrow> request \<Rightarrow> system_time option \<Rightarrow> action_evidence" where
  "ledger_entry U ctx cfg q now =
     (let http = http_side_effect_class U (rq_method q) (rq_path q);
          class = (case map_option mcp_side_effect_class (rq_mcp_method q) of
              Some mcp \<Rightarrow> if severity_rank http < severity_rank mcp then mcp else http
            | None \<Rightarrow> http)
      in \<lparr>action_id = ''ctx-'' @ to_decimal (unat ctx),
          tool_name = rq_method q @ '' '' @ rq_path q,
          state_changing = (class \<noteq> Read),
          precondition_digest = None,
          result_digest = None,
          timestamp_ms = (case now of None \<Rightarrow> 0 | Some t \<Rightarrow> unix_millis t),
          parent_action_id = None,
          causal_chain_id = None,
          act_recording_mode = max (class_mode class) (default_mode cfg),
          act_capability_decision = None,
          act_mcp_header_risk =
            map_option mcp_header_risk_as_str (classify_mcp_headers U (rq_mcp_method q) (rq_mcp_name q)),
          act_side_effect_class = Some (canonical_str class),
          act_extra = []\<rparr>)"

definition stream_entry :: "unicode_tables \<Rightarrow> u32 \<Rightarrow> stream \<Rightarrow> host \<Rightarrow> action_evidence" where
  "stream_entry U ctx st h = ledger_entry U ctx (st_config st) (st_request st) (host_current_time h)"

fun ledger_next :: "('sk, 'vk) crates \<Rightarrow> unicode_tables \<Rightarrow> proxy_event \<Rightarrow> ledger \<Rightarrow> ledger" where
  "ledger_next X U (Configure h n) l =
     l\<lparr>led_config := accepted_config X h n (led_config l), led_counters := defined_counters h\<rparr>"
| "ledger_next X U (CreateContext ctx room) l =
     l\<lparr>led_streams := (led_streams l)(ctx \<mapsto>
         \<lparr>st_config = led_config l, st_counters = led_counters l, st_request = no_request, st_history = []\<rparr>)\<rparr>"
| "ledger_next X U (RequestHeaders ctx h) l =
     l\<lparr>led_streams := (led_streams l)(ctx := map_option (st_request_update (\<lambda>_. request_of h)) (led_streams l ctx))\<rparr>"
| "ledger_next X U (ResponseHeaders ctx h) l =
     l\<lparr>led_streams := (led_streams l)(ctx := map_option
         (\<lambda>st. st\<lparr>st_history := st_history st @ [stream_entry U ctx st h]\<rparr>) (led_streams l ctx))\<rparr>"
| "ledger_next X U (DeleteContext ctx) l = l\<lparr>led_streams := (led_streams l)(ctx := None)\<rparr>"

definition ledger_init :: ledger where
  "ledger_init = \<lparr>led_config = default_plugin_config, led_counters = (\<lambda>_. 0), led_streams = Map.empty\<rparr>"

text \<open>
  The calls an exchange is worth: a failed clock is counted, the mode of the entry is announced and
  counted, and its risk, if it has one, is announced.
\<close>

definition exchange_calls :: "counters \<Rightarrow> system_time option \<Rightarrow> action_evidence \<Rightarrow> host_call list" where
  "exchange_calls counter now e =
     (if now = None then [IncrementMetric (counter None) 1] else []) @
     [SetResponseHeader ''x-aep-recording-mode'' (recording_mode_as_str (act_recording_mode e)),
      IncrementMetric (counter (Some (act_recording_mode e))) 1] @
     (case act_mcp_header_risk e of
        None \<Rightarrow> []
      | Some r \<Rightarrow> [SetResponseHeader ''x-aep-mcp-header-risk'' r])"

text \<open>The calls into the host: configuring defines the counters, and a response reports its entry.\<close>

fun ledger_calls :: "('sk, 'vk) crates \<Rightarrow> unicode_tables \<Rightarrow> ledger \<Rightarrow> proxy_event \<Rightarrow> host_call list" where
  "ledger_calls X U l (Configure h n) =
     map (DefineMetric \<circ> counter_stat) [Some Validation, Some Delta, Some Full, None] @ configuration_log X h n"
| "ledger_calls X U l (ResponseHeaders ctx h) =
     (case led_streams l ctx of
        None \<Rightarrow> []
      | Some st \<Rightarrow> exchange_calls (st_counters st) (host_current_time h) (stream_entry U ctx st h))"
| "ledger_calls X U l _ = []"

text \<open>What of this the client sees: the response headers.\<close>

fun ledger_announces :: "unicode_tables \<Rightarrow> ledger \<Rightarrow> proxy_event \<Rightarrow> (string \<times> string) list" where
  "ledger_announces U l (ResponseHeaders ctx h) =
     (case led_streams l ctx of
        None \<Rightarrow> []
      | Some st \<Rightarrow>
          (let e = stream_entry U ctx st h in
           (''x-aep-recording-mode'', recording_mode_as_str (act_recording_mode e)) #
           map (Pair ''x-aep-mcp-header-risk'') (case act_mcp_header_risk e of None \<Rightarrow> [] | Some r \<Rightarrow> [r])))"
| "ledger_announces U l _ = []"

fun response_header :: "host_call \<Rightarrow> (string \<times> string) list" where
  "response_header (SetResponseHeader k v) = [(k, v)]"
| "response_header _ = []"

definition response_headers :: "host_call list \<Rightarrow> (string \<times> string) list" where
  "response_headers calls = concat (map response_header calls)"

lemma response_headers_append [simp]: "response_headers (cs @ ds) = response_headers cs @ response_headers ds"
  by (simp add: response_headers_def)

lemma configuration_log_unannounced: "response_headers (configuration_log X h n) = []"
proof -
  have "configuration_log X h n = [] \<or> (\<exists>e. configuration_log X h n = [LogConfigParse e]) \<or>
      (\<exists>e. configuration_log X h n = [LogInvalidConfig e])"
    by (auto simp: configuration_log_def split: option.split sum.split outcome.split)
  then show ?thesis by (auto simp: response_headers_def)
qed

lemma exchange_calls_announced:
  "response_headers (exchange_calls counter now e) =
     (''x-aep-recording-mode'', recording_mode_as_str (act_recording_mode e)) #
     map (Pair ''x-aep-mcp-header-risk'') (case act_mcp_header_risk e of None \<Rightarrow> [] | Some r \<Rightarrow> [r])"
  by (simp add: exchange_calls_def response_headers_def split: option.split)

lemma announced_calls: "response_headers (ledger_calls X U l ev) = ledger_announces U l ev"
proof (cases ev)
  case (Configure h n)
  have "response_headers (map (DefineMetric \<circ> counter_stat) ks) = []" for ks
    by (induction ks) (simp_all add: response_headers_def)
  with Configure show ?thesis
    by (simp only: ledger_calls.simps ledger_announces.simps response_headers_append configuration_log_unannounced append.simps)
next
  case (ResponseHeaders ctx h)
  then show ?thesis
    by (cases "led_streams l ctx") (simp_all add: exchange_calls_announced Let_def, simp add: response_headers_def)
qed (simp_all add: response_headers_def)

section \<open>The simulation\<close>

definition counters_of :: "evidence_metrics \<Rightarrow> counters" where
  "counters_of ms k = (case k of None \<Rightarrow> metric_clock_failure ms | Some m \<Rightarrow> id_for ms m)"

definition stream_of :: "evidence_filter \<Rightarrow> action_evidence list \<Rightarrow> stream" where
  "stream_of f es =
     \<lparr>st_config = flt_config f,
      st_counters = counters_of (flt_metrics f),
      st_request = \<lparr>rq_method = flt_method f, rq_path = flt_path f, rq_mcp_method = flt_mcp_method f,
        rq_mcp_name = flt_mcp_name f\<rparr>,
      st_history = es\<rparr>"

text \<open>A filter holds the newest part of its stream's history, and counts the rest.\<close>

definition filter_of :: "u32 \<Rightarrow> evidence_filter \<Rightarrow> stream \<Rightarrow> bool" where
  "filter_of ctx f st \<longleftrightarrow>
     context_id f = ctx \<and> st = stream_of f (st_history st) \<and> buffer_ok (flt_buffer f) \<and>
     capacity (flt_buffer f) = max_evidence_buffer (flt_config f) \<and>
     entries (flt_buffer f) = keep_last (max_evidence_buffer (flt_config f)) (st_history st) \<and>
     dropped_total (flt_buffer f) = of_nat (length (st_history st) - max_evidence_buffer (flt_config f))"

definition refines_ledger :: "proxy \<Rightarrow> ledger \<Rightarrow> bool" where
  "refines_ledger s l \<longleftrightarrow>
     root_config (proxy_root s) = led_config l \<and> counters_of (root_metrics (proxy_root s)) = led_counters l \<and>
     (\<forall>ctx. rel_option (filter_of ctx) (contexts s ctx) (led_streams l ctx))"

lemma stream_of_simps [simp]:
  "st_config (stream_of f es) = flt_config f" "st_history (stream_of f es) = es"
  "st_counters (stream_of f es) = counters_of (flt_metrics f)"
  by (simp_all add: stream_of_def)

lemma captured_is_ledger_entry:
  assumes "context_id f = ctx"
  shows "captured_evidence U h f = stream_entry U ctx (stream_of f es) h"
  using assms
  by (cases "flt_mcp_method f"; cases "host_current_time h")
    (simp_all add: captured_evidence_def stream_entry_def ledger_entry_def stream_of_def current_time_ms_def
      infer_side_effect_class_with_mcp_def max_severity_def Let_def)

lemma new_filter_of:
  assumes "create_http_context room r ctx = Ok f"
  shows "filter_of ctx f
    \<lparr>st_config = root_config r, st_counters = counters_of (root_metrics r), st_request = no_request, st_history = []\<rparr>"
  using assms
  by (simp add: create_http_context_Ok_iff filter_of_def stream_of_def no_request_def buffer_ok_def)

lemma request_filter_of:
  "filter_of ctx f st \<Longrightarrow> filter_of ctx (on_http_request_headers h f) (st\<lparr>st_request := request_of h\<rparr>)"
  by (cases st) (simp add: filter_of_def on_http_request_headers_def stream_of_def request_of_def)

lemma response_filter_of:
  assumes "filter_of ctx f st"
  shows "filter_of ctx (fst (on_http_response_headers U h f))
    (st\<lparr>st_history := st_history st @ [stream_entry U ctx st h]\<rparr>)"
proof -
  define e where "e = captured_evidence U h f"
  let ?n = "max_evidence_buffer (flt_config f)"
  from assms have st: "st = stream_of f (st_history st)" and b: "buffer_ok (flt_buffer f)"
    and ctx: "context_id f = ctx" and cap: "capacity (flt_buffer f) = ?n"
    and items: "entries (flt_buffer f) = keep_last ?n (st_history st)"
    and drops: "dropped_total (flt_buffer f) = of_nat (length (st_history st) - ?n)"
    by (simp_all add: filter_of_def)
  have e_led: "stream_entry U ctx st h = e"
    using captured_is_ledger_entry [OF ctx, of U h "st_history st"] st by (simp add: e_def)
  have "entries (fst (buffer_push e (flt_buffer f))) = keep_last ?n (st_history st @ [e])"
    using evidence_fifo.push_items [OF b, of e] by (simp add: cap items keep_last_append)
  moreover have "dropped_total (fst (buffer_push e (flt_buffer f))) = of_nat (length (st_history st @ [e]) - ?n)"
    using evidence_fifo.push_drops [OF b, of e] by (simp add: cap items drops flip: of_nat_add) (simp add: min_def)
  moreover have "buffer_ok (fst (buffer_push e (flt_buffer f)))" "capacity (fst (buffer_push e (flt_buffer f))) = ?n"
    using evidence_fifo.push_invar [OF b] evidence_fifo.push_cap [OF b] cap by simp_all
  moreover have "st\<lparr>st_history := es\<rparr> = stream_of (f\<lparr>flt_buffer := b'\<rparr>) es" for es b'
    by (subst st) (simp add: stream_of_def)
  ultimately show ?thesis
    by (simp add: filter_of_def response_eq e_led ctx flip: e_def)
qed

lemma configure_accepted: "on_configure X h n r = (r', ok, calls) \<Longrightarrow> root_config r' = accepted_config X h n (root_config r)"
  using validate_no_panic
  by (auto simp: on_configure_def accepted_config_def Let_def split_beta
      split: if_splits option.splits sum.splits outcome.splits)

lemma defined_counters_of: "counters_of (fst (metrics_define h)) = defined_counters h"
proof
  fix k
  show "counters_of (fst (metrics_define h)) k = defined_counters h k"
  proof (cases k)
    case (Some m)
    then show ?thesis
      by (cases m) (simp_all add: counters_of_def defined_counters_def metrics_define_def METRIC_BASE_def unwrap_or_def)
  qed (simp add: counters_of_def defined_counters_def metrics_define_def METRIC_BASE_def unwrap_or_def)
qed

lemma configure_counters: "on_configure X h n r = (r', ok, calls) \<Longrightarrow> counters_of (root_metrics r') = defined_counters h"
  unfolding defined_counters_of [symmetric]
  by (auto simp: on_configure_def Let_def split_beta split: if_splits option.splits sum.splits outcome.splits)

lemma configure_calls:
  assumes "on_configure X h n r = (r', ok, calls)"
  shows "calls = ledger_calls X U l (Configure h n)"
proof -
  have defs: "snd (metrics_define h) =
      map (DefineMetric \<circ> counter_stat) [Some Validation, Some Delta, Some Full, None]"
    by (simp add: metrics_define_def METRIC_BASE_def)
  from assms have "calls = snd (metrics_define h) @ configuration_log X h n"
    using validate_no_panic
    by (auto simp: on_configure_def configuration_log_def Let_def split_beta
        split: if_splits option.splits sum.splits outcome.splits)
  then show ?thesis by (simp only: defs ledger_calls.simps)
qed

lemma response_calls:
  assumes "filter_of ctx f st"
  shows "snd (on_http_response_headers U h f) =
    exchange_calls (st_counters st) (host_current_time h) (stream_entry U ctx st h)"
proof -
  from assms have "stream_entry U ctx st h = captured_evidence U h f" "st_counters st = counters_of (flt_metrics f)"
    using captured_is_ledger_entry [of f ctx U h "st_history st"] stream_of_simps(3) [of f "st_history st"]
    by (simp_all add: filter_of_def)
  then show ?thesis
    by (simp add: response_eq reporting_calls_def exchange_calls_def counters_of_def current_time_ms_def
        split: option.split)
qed

lemma rel_at: "refines_ledger s l \<Longrightarrow> rel_option (filter_of ctx) (contexts s ctx) (led_streams l ctx)"
  by (simp add: refines_ledger_def)

lemma rel_live:
  assumes "refines_ledger s l" "contexts s ctx = Some f"
  obtains st where "led_streams l ctx = Some st" "filter_of ctx f st"
  using rel_at [OF assms(1), of ctx] assms(2) by (auto simp: option_rel_Some1)

lemma ledger_simulates:
  assumes "refines_ledger s l" "proxy_step X U s ev calls s'"
  shows "refines_ledger s' (ledger_next X U ev l) \<and> calls = ledger_calls X U l ev"
  using assms(2,1)
proof cases
  case (configure h n r ok)
  with assms(1) show ?thesis
    using configure_accepted [OF configure(3)] configure_counters [OF configure(3)]
      configure_calls [OF configure(3), of U l]
    by (simp add: refines_ledger_def)
next
  case (create ctx room f)
  with assms(1) show ?thesis
    using new_filter_of [OF create(5)] by (auto simp: refines_ledger_def)
next
  case (request ctx f h)
  with assms(1) obtain st where "led_streams l ctx = Some st" "filter_of ctx f st" by (blast elim: rel_live)
  with request assms(1) show ?thesis
    using request_filter_of [of ctx f st h] by (auto simp: refines_ledger_def)
next
  case (response ctx f h f')
  with assms(1) obtain st where st: "led_streams l ctx = Some st" "filter_of ctx f st" by (blast elim: rel_live)
  with response assms(1) show ?thesis
    using response_filter_of [OF st(2), of U h] response_calls [OF st(2), of U h]
    by (auto simp: refines_ledger_def)
next
  case (delete ctx f)
  with assms(1) show ?thesis by (auto simp: refines_ledger_def)
qed

interpretation ledger_spec: simulation "proxy_step X U" "ledger_next X U"
  "\<lambda>l ev calls. calls = ledger_calls X U l ev" refines_ledger
  for X :: "('sk, 'vk) crates" and U
  by unfold_locales (rule ledger_simulates)

lemma init_refines: "refines_ledger proxy_init ledger_init"
proof -
  have "id_for default_metrics m = 0" for m by (cases m) (simp_all add: default_metrics_def)
  then have "counters_of default_metrics = (\<lambda>_. 0)"
    by (simp add: counters_of_def fun_eq_iff default_metrics_def split: option.split)
  then show ?thesis by (simp add: refines_ledger_def proxy_init_eq ledger_init_def root_new_def)
qed

section \<open>Progress\<close>

text \<open>
  What the Proxy-Wasm host may do: create a context under a fresh id while there is room for the
  buffer the module is configured with, call back into live ones.
\<close>

fun host_allows :: "proxy \<Rightarrow> proxy_event \<Rightarrow> bool" where
  "host_allows s (Configure h n) = True"
| "host_allows s (CreateContext ctx room) =
     (contexts s ctx = None \<and> max_evidence_buffer (root_config (proxy_root s)) \<le> room)"
| "host_allows s (RequestHeaders ctx h) = (contexts s ctx \<noteq> None \<and> host_ok h)"
| "host_allows s (ResponseHeaders ctx h) = (contexts s ctx \<noteq> None)"
| "host_allows s (DeleteContext ctx) = (contexts s ctx \<noteq> None)"

lemma host_allows_event_ok: "host_allows s ev \<Longrightarrow> event_ok ev"
  by (cases ev) simp_all

lemma proxy_responds:
  assumes "proxy_ok X s" "host_allows s ev"
  shows "\<exists>calls s'. proxy_step X U s ev calls s' \<and> proxy_ok X s'"
proof -
  have "\<exists>calls s'. proxy_step X U s ev calls s'"
  proof (cases ev)
    case (Configure h n)
    then show ?thesis by (metis proxy_step.configure prod_cases3)
  next
    case (CreateContext ctx room)
    with assms obtain f where
      "(create_http_context room (proxy_root s) ctx :: (unit, evidence_filter) outcome) = Ok f"
      by (auto simp: create_http_context_Ok_iff proxy_ok_def validate_Ok_iff)
    with CreateContext assms(2) show ?thesis by (auto intro: proxy_step.create)
  next
    case (RequestHeaders ctx h)
    with assms(2) show ?thesis by (auto intro: proxy_step.request)
  next
    case (ResponseHeaders ctx h)
    with assms(2) show ?thesis by (metis host_allows.simps(4) not_None_eq proxy_step.response surj_pair)
  next
    case (DeleteContext ctx)
    with assms(2) show ?thesis by (auto intro: proxy_step.delete)
  qed
  with assms show ?thesis using host_allows_event_ok proxy_step_ok by metis
qed

lemma proxy_responds_once:
  assumes "proxy_step X U s ev calls s'" "proxy_step X U s ev calls' t"
  shows "calls = calls' \<and> s' = t"
  using assms(1)
proof cases
  case configure
  with assms(2) show ?thesis by (auto elim!: configure_stepE)
next
  case create
  with assms(2) show ?thesis by (auto elim!: create_stepE)
next
  case request
  with assms(2) show ?thesis by (auto elim!: request_stepE)
next
  case response
  with assms(2) show ?thesis by (auto elim!: response_stepE)
next
  case delete
  with assms(2) show ?thesis by (auto elim!: delete_stepE)
qed

interpretation proxy_live: responsive "proxy_step X U" "proxy_ok X" host_allows
  for X :: "('sk, 'vk) crates" and U
  by unfold_locales (use proxy_responds proxy_responds_once in blast)+

text \<open>The histories a host may produce, from the configuration in force and the ids that are live.\<close>

fun legal_history :: "('sk, 'vk) crates \<Rightarrow> plugin_config \<Rightarrow> u32 set \<Rightarrow> proxy_event list \<Rightarrow> bool" where
  "legal_history X cfg live [] = True"
| "legal_history X cfg live (Configure h n # evs) = legal_history X (accepted_config X h n cfg) live evs"
| "legal_history X cfg live (CreateContext ctx room # evs) =
     (ctx \<notin> live \<and> max_evidence_buffer cfg \<le> room \<and> legal_history X cfg (insert ctx live) evs)"
| "legal_history X cfg live (RequestHeaders ctx h # evs) =
     (ctx \<in> live \<and> host_ok h \<and> legal_history X cfg live evs)"
| "legal_history X cfg live (ResponseHeaders ctx h # evs) = (ctx \<in> live \<and> legal_history X cfg live evs)"
| "legal_history X cfg live (DeleteContext ctx # evs) = (ctx \<in> live \<and> legal_history X cfg (live - {ctx}) evs)"

fun config_after :: "('sk, 'vk) crates \<Rightarrow> proxy_event \<Rightarrow> plugin_config \<Rightarrow> plugin_config" where
  "config_after X (Configure h n) cfg = accepted_config X h n cfg"
| "config_after X _ cfg = cfg"

fun live_after :: "proxy_event \<Rightarrow> u32 set \<Rightarrow> u32 set" where
  "live_after (CreateContext ctx room) live = insert ctx live"
| "live_after (DeleteContext ctx) live = live - {ctx}"
| "live_after _ live = live"

lemma legal_history_Cons:
  "legal_history X (root_config (proxy_root s)) (dom (contexts s)) (ev # evs) \<longleftrightarrow>
     host_allows s ev \<and>
     legal_history X (config_after X ev (root_config (proxy_root s))) (live_after ev (dom (contexts s))) evs"
  by (cases ev) (auto simp: dom_def)

lemma step_dom: "proxy_step X U s ev calls s' \<Longrightarrow> dom (contexts s') = live_after ev (dom (contexts s))"
  by (cases rule: proxy_step.cases) (auto split: if_splits)

lemma step_config:
  "proxy_step X U s ev calls s' \<Longrightarrow> root_config (proxy_root s') = config_after X ev (root_config (proxy_root s))"
  by (cases rule: proxy_step.cases) (auto simp: configure_accepted)

lemma legal_history_runs:
  "proxy_ok X s \<Longrightarrow> legal_history X (root_config (proxy_root s)) (dom (contexts s)) evs \<Longrightarrow>
     \<exists>tr s'. run (proxy_step X U) s tr s' \<and> map fst tr = evs \<and> proxy_ok X s'"
proof (induction evs arbitrary: s)
  case Nil
  then show ?case by auto
next
  case (Cons ev evs)
  then obtain calls s1 where s1: "proxy_step X U s ev calls s1" "proxy_ok X s1"
    using proxy_live.responds by (metis legal_history_Cons)
  moreover from this Cons.prems(2) have "legal_history X (root_config (proxy_root s1)) (dom (contexts s1)) evs"
    by (simp add: legal_history_Cons step_dom step_config)
  ultimately obtain tr s' where "run (proxy_step X U) s1 tr s'" "map fst tr = evs" "proxy_ok X s'"
    using Cons.IH by blast
  with s1 have "run (proxy_step X U) s ((ev, calls) # tr) s' \<and> map fst ((ev, calls) # tr) = ev # evs \<and> proxy_ok X s'"
    by (auto simp: run_Cons)
  then show ?case by (intro exI)
qed

lemma proxy_ok_init: "proxy_ok X proxy_init"
  by (simp add: proxy_ok_def proxy_init_eq root_new_def)

lemma legal_event_ok: "legal_history X cfg live evs \<Longrightarrow> ev \<in> set evs \<Longrightarrow> event_ok ev"
  by (induction X cfg live evs rule: legal_history.induct) auto

lemma init_is_default: "dom (contexts proxy_init) = {}" "root_config (proxy_root proxy_init) = default_plugin_config"
  by (simp_all add: proxy_init_eq root_new_def)

lemma run_reachable:
  "run (proxy_step X U) s tr s' \<Longrightarrow> proxy_reachable X U s \<Longrightarrow> \<forall>e \<in> fst ` set tr. event_ok e \<Longrightarrow> proxy_reachable X U s'"
  by (induction rule: run.induct) (auto intro: proxy_reachable.step)

lemma flt_simps: "flt_buffer (f\<lparr>flt_buffer := b\<rparr>) = b" "flt_config (f\<lparr>flt_buffer := b\<rparr>) = flt_config f"
  by simp_all

section \<open>Properties\<close>

text \<open>C3: the module refines the ledger: after any run the live contexts are the ledger's
streams, the loaded configuration is the ledger's, each buffer is the newest part of everything its
stream ever recorded, as long as the capacity it was configured with, and the drop counter is the
number of entries that are missing.\<close>

theorem proxy_refines_ledger:
  assumes "run (proxy_step X U) proxy_init tr s"
    and "l = foldl (\<lambda>l ev. ledger_next X U ev l) ledger_init (map fst tr)"
  shows "root_config (proxy_root s) = led_config l \<and> dom (contexts s) = dom (led_streams l) \<and>
    (\<forall>ctx f st. contexts s ctx = Some f \<and> led_streams l ctx = Some st \<longrightarrow>
       flt_config f = st_config st \<and>
       entries (flt_buffer f) = keep_last (max_evidence_buffer (st_config st)) (st_history st) \<and>
       dropped_total (flt_buffer f) = of_nat (length (st_history st) - max_evidence_buffer (st_config st)))"
proof -
  have r: "refines_ledger s l"
    using ledger_spec.run_related [OF assms(1) init_refines] by (simp add: assms(2) ledger_spec.replay_def)
  have "dom (contexts s) = dom (led_streams l)"
  proof (rule set_eqI)
    fix ctx show "ctx \<in> dom (contexts s) \<longleftrightarrow> ctx \<in> dom (led_streams l)"
      using rel_at [OF r, of ctx] by (cases rule: option.rel_cases) (auto simp: dom_def)
  qed
  moreover have "filter_of ctx f st" if "contexts s ctx = Some f" "led_streams l ctx = Some st" for ctx f st
    using rel_at [OF r, of ctx] that by simp
  ultimately show ?thesis
    using r by (auto simp: refines_ledger_def filter_of_def) (metis stream_of_simps(1))+
qed

text \<open>C17: at every point of every run the calls the module makes into the host are those the
ledger prescribes, in its order: configuring defines the four counters and logs why a configuration
is refused; a response counts a failed clock, announces and counts the mode of the entry that is
recorded at that moment and announces its risk; no other callback calls the host. The ledger has
no buffers, so nothing the host sees depends on what a buffer holds or dropped.\<close>

theorem host_calls_match_ledger:
  assumes "run (proxy_step X U) proxy_init tr s" "i < length tr"
  shows "snd (tr ! i) =
    ledger_calls X U (foldl (\<lambda>l ev. ledger_next X U ev l) ledger_init (map fst (take i tr))) (fst (tr ! i))"
  using ledger_spec.run_expected [OF assms(1) init_refines assms(2)] by (simp add: ledger_spec.replay_def)

text \<open>In particular the response headers are those the ledger announces.\<close>

lemma announcements_match_ledger:
  assumes "run (proxy_step X U) proxy_init tr s" "i < length tr"
  shows "response_headers (snd (tr ! i)) =
    ledger_announces U (foldl (\<lambda>l ev. ledger_next X U ev l) ledger_init (map fst (take i tr))) (fst (tr ! i))"
  using ledger_spec.run_expected [OF assms(1) init_refines assms(2)]
  by (simp add: ledger_spec.replay_def announced_calls)

text \<open>C18: the module answers every history the host may produce, and in exactly one way: as long as
each context is created with room for the buffer that is configured at that moment, no sequence of
configurations, contexts, requests and responses makes a callback trap or get stuck.\<close>

theorem legal_history_answered:
  assumes "legal_history X default_plugin_config {} evs"
  shows "\<exists>!p. run (proxy_step X U) proxy_init (fst p) (snd p) \<and> map fst (fst p) = evs"
proof -
  from assms legal_history_runs [OF proxy_ok_init, of X evs U]
  obtain tr s where "run (proxy_step X U) proxy_init tr s" "map fst tr = evs" by (auto simp: init_is_default)
  then show ?thesis
    by (intro ex1I [of _ "(tr, s)"]) (auto dest: proxy_live.run_once)
qed

lemma exchange_recorded:
  assumes "legal_history X default_plugin_config {} (evs @ [RequestHeaders ctx h, ResponseHeaders ctx h'])"
  shows "\<exists>tr s f. run (proxy_step X U) proxy_init tr s \<and>
    map fst tr = evs @ [RequestHeaders ctx h, ResponseHeaders ctx h'] \<and> proxy_reachable X U s \<and>
    contexts s ctx = Some f \<and> entries (flt_buffer f) \<noteq> [] \<and>
    last (entries (flt_buffer f)) =
      ledger_entry U ctx (flt_config f) (request_of h) (host_current_time h')"
proof -
  let ?evs = "evs @ [RequestHeaders ctx h, ResponseHeaders ctx h']"
  from assms legal_history_runs [OF proxy_ok_init, of X ?evs U]
  obtain tr s where tr: "run (proxy_step X U) proxy_init tr s" "map fst tr = ?evs" by (auto simp: init_is_default)
  then obtain tr' c c' where split: "tr = tr' @ [(RequestHeaders ctx h, c), (ResponseHeaders ctx h', c')]"
    by (auto simp: map_eq_append_conv map_eq_Cons_conv)
  from tr(1) obtain s1 s2 where s1: "proxy_step X U s1 (RequestHeaders ctx h) c s2"
    and s2: "proxy_step X U s2 (ResponseHeaders ctx h') c' s"
    unfolding split by (auto simp: run_append run_Cons)
  from s1 obtain f where f: "contexts s2 ctx = Some (on_http_request_headers h f)"
    by (auto elim: request_stepE)
  let ?f = "on_http_request_headers h f"
  from s2 f have s: "contexts s ctx = Some (fst (on_http_response_headers U h' ?f))"
    by (auto elim!: response_stepE)
  have "\<forall>e \<in> fst ` set tr. event_ok e"
    using legal_event_ok [OF assms] by (simp flip: tr(2))
  then have reach: "proxy_reachable X U s" by (rule run_reachable [OF tr(1) proxy_reachable.start])
  have "context_id ?f = ctx"
    using reachable_filter_ok [OF reach s] by (simp add: response_eq)
  moreover have "st_request (stream_of ?f []) = request_of h"
    by (simp add: stream_of_def request_of_def on_http_request_headers_def)
  ultimately have "captured_evidence U h' ?f =
      ledger_entry U ctx (flt_config ?f) (request_of h) (host_current_time h')"
    using captured_is_ledger_entry [of ?f ctx U h' "[]"] by (simp add: stream_entry_def)
  then have "entries (flt_buffer (fst (on_http_response_headers U h' ?f))) \<noteq> [] \<and>
      last (entries (flt_buffer (fst (on_http_response_headers U h' ?f)))) =
      ledger_entry U ctx (flt_config ?f) (request_of h) (host_current_time h')"
    using push_last [of "captured_evidence U h' ?f" "flt_buffer ?f"] by (simp only: response_eq fst_conv flt_simps simp_thms)
  moreover have "flt_config (fst (on_http_response_headers U h' ?f)) = flt_config ?f"
    by (simp only: response_eq fst_conv flt_simps simp_thms)
  ultimately show ?thesis
    using tr reach s by (intro exI [of _ tr] exI [of _ s] exI [of _ "fst (on_http_response_headers U h' ?f)"]) simp
qed

end
