(* ===== verification/Emitter.thy ===== *)
theory Emitter
  imports Dsse Proxy_Spec
begin

text \<open>
  \<open>crates/proxy-wasm-evidence/src/emitter.rs\<close>: assembling captured evidence into a signed
  record. The proofs about signing go through the contract \<open>attestation\<close>; the last property runs
  the whole pipeline, from the host's callbacks to a record that verifies.
\<close>

section \<open>Assembly\<close>

record emitter_identity =
  id_trace_id :: string
  id_agent_id :: string
  id_key_id :: string

datatype emit_error =
    NoEvidence
  | EmptyTraceId
  | SignError dsse_error

text \<open>The error strings; the dash of the first is U+2014 in UTF-8.\<close>

fun emit_error_text :: "emit_error \<Rightarrow> string" where
  "emit_error_text NoEvidence =
     ''no evidence captured '' @ [CHR 0xE2, CHR 0x80, CHR 0x94] @ '' refusing to emit an empty signed record''"
| "emit_error_text EmptyTraceId =
     ''trace_id is empty '' @ [CHR 0xE2, CHR 0x80, CHR 0x94] @ '' cannot bind evidence to a run''"
| "emit_error_text (SignError e) = dsse_error_text e"

text \<open>The unsigned record; the third insertion repeats the first, as the source does.\<close>

definition assembled_record :: "action_evidence list \<Rightarrow> emitter_identity \<Rightarrow> u64 \<Rightarrow> aep_record" where
  "assembled_record evidence identity created_at =
     (let r = default_aep_record\<lparr>
            schema_version := AEP_SCHEMA_VERSION,
            run_id := ''gw-'' @ id_trace_id identity,
            trace_id := Some (id_trace_id identity),
            actions := evidence,
            created_at_ms := created_at\<rparr>;
          r = r\<lparr>extra := map_insert ''claimed_agent_id'' (JString (id_agent_id identity)) (extra r)\<rparr>;
          r = r\<lparr>extra := map_insert ''identity_source'' (JString ''self_asserted'') (extra r)\<rparr>
      in r\<lparr>extra := map_insert ''claimed_agent_id'' (JString (id_agent_id identity)) (extra r)\<rparr>)"

definition assemble_and_sign ::
  "('sk, 'vk) crates \<Rightarrow> action_evidence list \<Rightarrow> emitter_identity \<Rightarrow> u64 \<Rightarrow> 'sk \<Rightarrow> (emit_error, aep_record) outcome" where
  "assemble_and_sign X evidence identity created_at key =
     and_then (fail_if (evidence = []) NoEvidence) (\<lambda>_.
     and_then (fail_if (trim (id_trace_id identity) = []) EmptyTraceId) (\<lambda>_.
     case sign_record_dsse X (assembled_record evidence identity created_at) key (id_key_id identity) of
       (r, Ok _) \<Rightarrow> Ok r
     | (r, Err e) \<Rightarrow> Err (SignError e)
     | (r, Panic) \<Rightarrow> Panic))"

section \<open>The assembled record\<close>

lemma assembled_simps [simp]:
  "schema_version (assembled_record es i t) = AEP_SCHEMA_VERSION"
  "run_id (assembled_record es i t) = ''gw-'' @ id_trace_id i"
  "trace_id (assembled_record es i t) = Some (id_trace_id i)"
  "actions (assembled_record es i t) = es"
  "created_at_ms (assembled_record es i t) = t"
  "user_id (assembled_record es i t) = None"
  "identity_source (assembled_record es i t) = None"
  "run_attribution_backing_floor (assembled_record es i t) = None"
  "run_attribution_backing_observed (assembled_record es i t) = None"
  "extra (assembled_record es i t) =
     [(''claimed_agent_id'', JString (id_agent_id i)), (''identity_source'', JString ''self_asserted'')]"
  by (simp_all add: assembled_record_def default_aep_record_def Let_def)

lemma assembled_floor_sound [simp]: "floor_sound (assembled_record es i t)"
  by (simp add: floor_sound_def)

lemma assemble_cases:
  "assemble_and_sign X es i t key =
     (if es = [] then Err NoEvidence
      else if trim (id_trace_id i) = [] then Err EmptyTraceId
      else Ok (sealed X (assembled_record es i t) key (id_key_id i)))"
  by (simp add: assemble_and_sign_def fail_if_def sign_cases)

text \<open>Captured entries have plain contents, so the record built from them can be signed.\<close>

definition evidence_plain :: "action_evidence \<Rightarrow> bool" where
  "evidence_plain e \<longleftrightarrow> (\<forall>s \<in> set (action_strings e). utf8_valid s) \<and> action_extras e = []"

definition identity_ok :: "emitter_identity \<Rightarrow> bool" where
  "identity_ok i \<longleftrightarrow> utf8_valid (id_trace_id i) \<and> utf8_valid (id_agent_id i)"

lemma decimal_valid [simp]: "utf8_valid (to_decimal n)"
  by (rule utf8_valid_literal) (auto simp: list_all_iff is_digit_def dest!: to_decimal_digits)

lemma entry_of_plain: "entry_of f e \<Longrightarrow> evidence_plain e"
proof -
  assume e: "entry_of f e"
  have set_opt: "set (option_list x) = set_option x" for x :: "string option" by (cases x) simp_all
  have "utf8_valid (''ctx-'' @ to_decimal (unat (context_id f)))"
    by (intro utf8_valid_append) (simp_all add: utf8_valid_literal)
  with e show ?thesis
    by (simp add: evidence_plain_def entry_of_def action_strings_def action_extras_def set_opt ball_Un)
qed

lemma assembled_signable:
  assumes "crate_laws X" "\<forall>e \<in> set es. evidence_plain e" "identity_ok i"
  shows "dsse_signable X (assembled_record es i t)"
proof -
  have "utf8_valid (''gw-'' @ id_trace_id i)"
    using assms(3) by (intro utf8_valid_append) (simp_all add: identity_ok_def utf8_valid_literal)
  moreover have "action_extras e = []" "\<forall>s \<in> set (action_strings e). utf8_valid s" if "e \<in> set es" for e
    using assms(2) that by (simp_all add: evidence_plain_def)
  moreover have "authorized_by (assembled_record es i t) = None" "authority_origin (assembled_record es i t) = None"
    "attribution_backing (assembled_record es i t) = None" "session_id (assembled_record es i t) = None"
    "rec_side_effect_class_max (assembled_record es i t) = None" "rec_recording_mode (assembled_record es i t) = None"
    by (simp_all add: assembled_record_def default_aep_record_def Let_def)
  ultimately show ?thesis
    using assms(1,3)
    by (auto simp: dsse_signable_def record_ok_def record_strings_def record_extras_def identity_ok_def
        AEP_SCHEMA_VERSION_def utf8_valid_literal)
qed

text \<open>The outcome of assembly, through the contract of attestation.\<close>

lemma assemble_verifies:
  assumes "dsse_signable X (assembled_record es i t)" "assemble_and_sign X es i t key = Ok r"
  shows "verify_record_dsse X r (ed_public X key) = Ok () \<and> strip_signing r = strip_signing (assembled_record es i t)"
proof -
  from assms(2) have "sign_record_dsse X (assembled_record es i t) key (id_key_id i) = (r, Ok ())"
    by (simp add: assemble_cases sign_cases split: if_splits)
  then show ?thesis
    using dsse.sign_verifies [OF assms(1), of key "id_key_id i" r]
      dsse.sign_content [of X "assembled_record es i t" key "id_key_id i"] by simp
qed

section \<open>Properties\<close>

text \<open>C27: assembly fails closed: no evidence and a blank trace id are errors, and in every other
case it returns a record, never a panic. The record keeps the evidence in order, is bound to the
trace, has no \<open>user_id\<close>, and records the agent only as a self-asserted claim.\<close>

theorem assemble_fails_closed:
  "case assemble_and_sign X es i t key of
     Ok r \<Rightarrow> es \<noteq> [] \<and> trim (id_trace_id i) \<noteq> [] \<and> actions r = es \<and>
       run_id r = ''gw-'' @ id_trace_id i \<and> trace_id r = Some (id_trace_id i) \<and>
       schema_version r = ''aep/v0.5'' \<and> created_at_ms r = t \<and> user_id r = None \<and>
       extra r = [(''claimed_agent_id'', JString (id_agent_id i)), (''identity_source'', JString ''self_asserted'')] \<and>
       dsse_envelope r \<noteq> None \<and> signature r = None
   | Err NoEvidence \<Rightarrow> es = []
   | Err EmptyTraceId \<Rightarrow> es \<noteq> [] \<and> trim (id_trace_id i) = []
   | _ \<Rightarrow> False"
proof -
  have "strip_signing r = strip_signing r' \<Longrightarrow> actions r = actions r' \<and> run_id r = run_id r' \<and> trace_id r = trace_id r' \<and>
      schema_version r = schema_version r' \<and> created_at_ms r = created_at_ms r' \<and> user_id r = user_id r' \<and>
      extra r = extra r'" for r r'
    by (cases r; cases r') (simp add: strip_signing_def)
  from this [OF sealed_simps(1) [of X "assembled_record es i t" key "id_key_id i"]]
  show ?thesis
    by (simp add: assemble_cases AEP_SCHEMA_VERSION_def) (simp add: sealed_def strip_signing_def)
qed

text \<open>End to end: in any reachable state of the filter's life cycle, whatever entries a
context has captured can be assembled into a record that holds exactly those entries and verifies
under the gateway's key, provided there is at least one and the trace id is not blank.\<close>

lemma captured_evidence_verifies:
  assumes "proxy_reachable X U s" "contexts s ctx = Some f" "crate_laws X" "identity_ok i"
    and "entries (flt_buffer f) \<noteq> []" "trim (id_trace_id i) \<noteq> []"
  shows "\<exists>r. assemble_and_sign X (entries (flt_buffer f)) i t key = Ok r \<and>
    verify_record_dsse X r (ed_public X key) = Ok () \<and> actions r = entries (flt_buffer f)"
proof -
  have "\<forall>e \<in> set (entries (flt_buffer f)). evidence_plain e"
    using reachable_entries [OF assms(1,2)] entry_of_plain by blast
  then have "dsse_signable X (assembled_record (entries (flt_buffer f)) i t)"
    using assms(3,4) by (intro assembled_signable)
  then show ?thesis
    using assemble_verifies [of X "entries (flt_buffer f)" i t key] assms(5,6)
    by (simp add: assemble_cases) (simp add: sealed_def strip_signing_def)
qed

text \<open>Records of two traces cannot stand in for each other: the envelope of a record
assembled for one trace is rejected on any record of another run.\<close>

lemma envelope_bound_to_trace:
  assumes "dsse_signable X (assembled_record es i t)" "assemble_and_sign X es i t key = Ok r"
    and "dsse_envelope r' = dsse_envelope r" "run_id r' \<noteq> ''gw-'' @ id_trace_id i"
  shows "verify_record_dsse X r' (ed_public X key) =
    Err (SubjectNameMismatch (run_urn (run_id r')) (run_urn (''gw-'' @ id_trace_id i)))"
proof -
  from assms(2) have "r = sealed X (assembled_record es i t) key (id_key_id i)"
    by (simp add: assemble_cases split: if_splits)
  with verify_under_sealed_envelope [OF assms(1), of r' key "id_key_id i"] assms(3,4)
  show ?thesis by simp
qed

end
