(* ===== verification/Transport.thy ===== *)
theory Transport
  imports Emitter
begin

text \<open>
  Records on the way to their consumer: the port of \<open>crates/proxy-wasm-evidence/src/emitter.rs\<close>
  they leave through, and what a consumer verifies that reads them back from their JSON text.
\<close>

section \<open>The sink\<close>

text \<open>
  The trait \<open>EvidenceSink\<close>: a sink takes a record and returns its next state. What its comment
  promises is that a record is persisted or forwarded, or an error returned.
\<close>

locale evidence_sink =
  fixes emit :: "aep_record \<Rightarrow> 's \<Rightarrow> 's \<times> (string + unit)"
    and persisted :: "'s \<Rightarrow> aep_record list"
  assumes emit_persists: "emit r s = (s', Inr ()) \<Longrightarrow> persisted s' = persisted s @ [r]"
    and emit_fails: "emit r s = (s', Inl e) \<Longrightarrow> persisted s' = persisted s"
begin

text \<open>Records handed over one after the other: those acknowledged are persisted in that order.\<close>

fun emit_each :: "aep_record list \<Rightarrow> 's \<Rightarrow> 's \<times> (string + unit) list" where
  "emit_each [] s = (s, [])"
| "emit_each (r # rs) s =
     (let (s', x) = emit r s; (s'', xs) = emit_each rs s' in (s'', x # xs))"

lemma emit_each_persisted:
  "emit_each rs s = (s', xs) \<Longrightarrow>
     persisted s' = persisted s @ map fst (filter (\<lambda>(r, x). x = Inr ()) (zip rs xs)) \<and> length xs = length rs"
proof (induction rs arbitrary: s s' xs)
  case Nil
  then show ?case by simp
next
  case (Cons r rs)
  obtain s1 x where s1: "emit r s = (s1, x)" by fastforce
  obtain s2 ys where "emit_each rs s1 = (s2, ys)" by fastforce
  with s1 Cons.prems have ys: "emit_each rs s1 = (s', ys)" "xs = x # ys" by simp_all
  have "persisted s1 = persisted s @ (if x = Inr () then [r] else [])"
    using emit_persists [of r s s1] emit_fails [of r s s1] s1 by (cases x) auto
  with Cons.IH [OF ys(1)] ys(2) show ?case by simp
qed

end

text \<open>The in-memory sink of the unit tests.\<close>

record in_memory_sink =
  records :: "aep_record list"

definition in_memory_emit :: "aep_record \<Rightarrow> in_memory_sink \<Rightarrow> in_memory_sink \<times> (string + unit)" where
  "in_memory_emit r s = (s\<lparr>records := records s @ [r]\<rparr>, Inr ())"

interpretation in_memory: evidence_sink in_memory_emit records
  by unfold_locales (auto simp: in_memory_emit_def)

lemma in_memory_keeps_all: "records (fst (in_memory.emit_each rs s)) = records s @ rs"
proof -
  have all: "set (snd (in_memory.emit_each rs s)) \<subseteq> {Inr ()}" for s
    by (induction rs arbitrary: s) (auto simp: in_memory_emit_def split_beta Let_def)
  obtain s' xs where e: "in_memory.emit_each rs s = (s', xs)" by fastforce
  from in_memory.emit_each_persisted [OF e] all [of s] e
  have "filter (\<lambda>(r, x). x = Inr ()) (zip rs xs) = zip rs xs" "length xs = length rs"
    "records s' = records s @ map fst (filter (\<lambda>(r, x). x = Inr ()) (zip rs xs))"
    by (auto simp: filter_id_conv dest!: set_zip_rightD)
  with e show ?thesis by simp
qed

section \<open>Reading a record from its text\<close>

text \<open>The verdict depends on the envelope, the run id and the serialized contents only.\<close>

lemma verify_cong:
  assumes "dsse_envelope r' = dsse_envelope r" "run_id r' = run_id r" "record_predicate r' = record_predicate r"
  shows "verify_record_dsse X r' vk = verify_record_dsse X r vk"
  using assms by (simp add: verify_record_dsse_def verify_envelope_def record_digest_def)

abbreviation written_members :: "aep_record \<Rightarrow> (string \<times> json) list" where
  "written_members r \<equiv>
     aep_record_fields dsse_envelope_written action_evidence_written aep_signature_written r @ extra r"

text \<open>A record is read as any well-shaped record with the same serialized value.\<close>

lemma read_as:
  assumes "wire_ok r" "distinct (map fst (written_members r))" "\<forall>a \<in> set (actions r). action_flat a"
    and "record_flat r'" "wire_ok r'" "aep_record_to_value r' = aep_record_to_value r"
  shows "aep_record_from_json (aep_record_written r) = Some r'"
proof -
  have "aep_record_from_json (json_rebuild (aep_record_written r)) = aep_record_from_json (aep_record_written r)"
    using record_order_free record_text_ok [OF assms(1-3)] unfolding order_free_def by blast
  moreover have "json_rebuild (aep_record_written r) = aep_record_to_value r"
    using assms(1) by (intro rebuild_record) (simp add: wire_ok_def record_ok_def)
  ultimately show ?thesis using record_value_back [OF assms(4,5)] assms(6) by simp
qed

lemma envelope_valid:
  assumes "b64_laws X" "utf8_valid kid"
  shows "\<forall>s \<in> set (envelope_strings (seal_statement X body key kid)). utf8_valid s"
proof -
  have "utf8_valid (b64_encode X bs)" for bs
    using assms(1) by (intro utf8_valid_ascii) (simp add: b64_laws_def b64_text_def)
  with assms(2) show ?thesis
    by (simp add: envelope_strings_def seal_statement_def encode_signature_def IN_TOTO_PAYLOAD_TYPE_def
        utf8_valid_literal Let_def)
qed

lemma sealed_wire_ok:
  assumes "crate_laws X" "record_ok r" "utf8_valid kid"
  shows "wire_ok (sealed X r key kid)"
proof -
  have "record_ok (sealed X r key kid)"
    using assms(2) by (simp add: sealed_def strip_signing_def record_ok_def record_strings_def record_extras_def)
  moreover have "signature (sealed X r key kid) = None"
    "dsse_envelope (sealed X r key kid) = Some (seal_statement X (canonical_json X (record_statement X r)) key kid)"
    by (simp_all add: sealed_def)
  moreover from assms(1) have "b64_laws X" by (simp add: crate_laws_def)
  ultimately show ?thesis
    using envelope_valid [OF _ assms(3), of X "canonical_json X (record_statement X r)" key]
    by (simp only: wire_ok_def option_list_simps list.set) simp
qed

lemma sealed_text_back:
  assumes "dsse_signable X r" "record_flat r" "utf8_valid kid"
  shows "aep_record_from_slice X (aep_record_to_string X (sealed X r key kid)) = Inr (sealed X r key kid)"
proof (rule record_text_back)
  show "json_parses X" using assms(1) by (simp add: dsse_signable_def crate_laws_def)
  show "record_flat (sealed X r key kid)"
    using assms(2) by (simp add: sealed_def strip_signing_def record_flat_def)
  show "wire_ok (sealed X r key kid)"
    by (rule sealed_wire_ok) (use assms(1,3) in \<open>simp_all add: dsse_signable_def\<close>)
  have "record_extras (sealed X r key kid) = record_extras r"
    by (simp add: sealed_def record_extras_def strip_signing_def)
  then show "\<forall>v \<in> set (record_extras (sealed X r key kid)). json_plain 123 v"
    using assms(1) by (auto simp: dsse_signable_def extras_nesting_def intro: json_plain_mono)
qed

text \<open>A signed record survives its transport as text: a consumer that parses what was
printed has the very record that was signed, envelope included, and it verifies.\<close>

lemma signed_record_survives_transport:
  assumes "dsse_signable X r" "record_flat r" "utf8_valid kid" "sign_record_dsse X r key kid = (r', Ok ())"
  shows "aep_record_from_slice X (aep_record_to_string X r') = Inr r' \<and>
    verify_record_dsse X r' (ed_public X key) = Ok ()"
  using sealed_text_back [OF assms(1-3)] dsse.sign_verifies [OF assms(1,4)] sign_OkD [OF assms(4)] by simp

section \<open>Emitted records\<close>

text \<open>
  The emitter puts \<open>identity_source\<close> into the catch-all map although the record declares it; a
  consumer reads it into the declared field.
\<close>

definition as_read :: "aep_record \<Rightarrow> aep_record" where
  "as_read r = r\<lparr>identity_source := Some ''self_asserted'',
     extra := filter (\<lambda>(k, v). k \<noteq> ''identity_source'') (extra r)\<rparr>"

lemma emitted_fields:
  fixes X es i t key kid
  defines "r \<equiv> sealed X (assembled_record es i t) key kid"
  shows "trace_id r = Some (id_trace_id i)" "session_id r = None" "user_id r = None" "authorized_by r = None"
    "authority_origin r = None" "identity_source r = None" "attribution_backing r = None"
    "run_attribution_backing_floor r = None" "run_attribution_backing_observed r = None"
    "authorization_evidence_count r = None" "rec_side_effect_class_max r = None" "rec_recording_mode r = None"
    "signature r = None" "actions r = es" "run_id r = ''gw-'' @ id_trace_id i"
    "extra r = [(''claimed_agent_id'', JString (id_agent_id i)), (''identity_source'', JString ''self_asserted'')]"
    "dsse_envelope r \<noteq> None"
  by (simp_all add: r_def sealed_def strip_signing_def assembled_record_def default_aep_record_def Let_def)

lemma as_read_value:
  assumes "identity_source r = None"
    and "extra r = [(''claimed_agent_id'', JString a), (''identity_source'', JString ''self_asserted'')]"
  shows "aep_record_to_value (as_read r) = aep_record_to_value r"
proof -
  have d: "map_of (rev (aep_record_declared q)) = map_of (aep_record_declared q)" for q
    by (intro map_of_rev record_declared_ok)
  have "map_of (aep_record_declared (as_read r)) k =
      (if k = ''identity_source'' then Some (JString ''self_asserted'') else map_of (aep_record_declared r) k)" for k
    by (simp add: aep_record_declared_def aep_record_fields_def as_read_def field_lookup del: map_of_append)
  then have "map_of (map_collect (aep_record_declared (as_read r) @ extra (as_read r))) k =
      map_of (map_collect (aep_record_declared r @ extra r)) k" for k
    using assms(2) by (simp add: map_of_map_collect d map_add_def as_read_def)
  then show ?thesis
    unfolding aep_record_to_value_def json.inject by (intro map_ok_eqI) (simp_all add: fun_eq_iff)
qed

lemma emitted_read_back:
  assumes "crate_laws X" "\<forall>e \<in> set es. evidence_plain e \<and> action_flat e" "identity_ok i" "utf8_valid (id_key_id i)"
    and "assemble_and_sign X es i t key = Ok r"
  shows "aep_record_from_slice X (aep_record_to_string X r) = Inr (as_read r)"
    and "verify_record_dsse X (as_read r) (ed_public X key) = Ok ()"
proof -
  from assms(5) have r: "r = sealed X (assembled_record es i t) key (id_key_id i)"
    by (simp add: assemble_cases split: if_splits)
  note fields = emitted_fields [of X es i t key "id_key_id i", folded r]
  have signable: "dsse_signable X (assembled_record es i t)"
    using assms(1-3) by (intro assembled_signable) simp_all
  then have "wire_ok r"
    unfolding r using assms(4) by (intro sealed_wire_ok) (simp_all add: dsse_signable_def)
  moreover from this have "wire_ok (as_read r)"
    by (simp add: wire_ok_def as_read_def record_ok_def record_strings_def record_extras_def fields
        utf8_valid_literal ball_Un)
  moreover have "record_flat (as_read r)"
    using assms(2) by (simp add: record_flat_def as_read_def fields aep_record_names_def map_ok_Cons)
  moreover have "distinct (map fst (written_members r))"
    by (simp add: aep_record_fields_def fields opt_field_def split: option.split)
  ultimately have read: "aep_record_from_json (aep_record_written r) = Some (as_read r)"
    using assms(2) by (intro read_as) (simp_all add: fields as_read_value)
  have "json_strings_ok (aep_record_written r)"
    using \<open>wire_ok r\<close> \<open>distinct _\<close> assms(2) by (intro record_text_ok) (simp_all add: fields)
  moreover have "\<forall>v \<in> set (record_extras r). json_plain 123 v"
    using assms(2) by (auto simp: record_extras_def fields evidence_plain_def)
  ultimately show "aep_record_from_slice X (aep_record_to_string X r) = Inr (as_read r)"
    using assms(1) read by (subst aep_record_from_slice_written) (simp_all add: crate_laws_def)
  have "record_predicate (as_read r) = record_predicate r"
  proof -
    have "strip_signing (as_read r) = as_read (strip_signing r)" by (simp add: strip_signing_def as_read_def)
    then show ?thesis
      unfolding record_predicate_def by (simp add: as_read_value strip_signing_def fields)
  qed
  then have "verify_record_dsse X (as_read r) (ed_public X key) = verify_record_dsse X r (ed_public X key)"
    by (intro verify_cong) (simp_all add: as_read_def)
  with assemble_verifies [OF signable assms(5)] show "verify_record_dsse X (as_read r) (ed_public X key) = Ok ()"
    by simp
qed

lemma entry_of_flat: "entry_of f e \<Longrightarrow> action_flat e"
  by (simp add: entry_of_def action_flat_def)

text \<open>C1: end to end over the wire: what a context captured is assembled, signed, printed as
JSON text, parsed by a consumer and verified. The consumer's record holds exactly the captured
entries, names no user, and carries the agent as a claim whose source is self-asserted.\<close>

theorem transported_evidence_verifies:
  assumes "proxy_reachable X U s" "contexts s ctx = Some f" "crate_laws X" "identity_ok i" "utf8_valid (id_key_id i)"
    and "entries (flt_buffer f) \<noteq> []" "trim (id_trace_id i) \<noteq> []"
  shows "\<exists>r r'. assemble_and_sign X (entries (flt_buffer f)) i t key = Ok r \<and>
    aep_record_from_slice X (aep_record_to_string X r) = Inr r' \<and>
    verify_record_dsse X r' (ed_public X key) = Ok () \<and> actions r' = entries (flt_buffer f) \<and>
    user_id r' = None \<and> identity_source r' = Some ''self_asserted'' \<and>
    extra r' = [(''claimed_agent_id'', JString (id_agent_id i))]"
proof -
  let ?es = "entries (flt_buffer f)"
  have es: "\<forall>e \<in> set ?es. evidence_plain e \<and> action_flat e"
    using reachable_entries [OF assms(1,2)] entry_of_plain entry_of_flat by blast
  let ?r = "sealed X (assembled_record ?es i t) key (id_key_id i)"
  have r: "assemble_and_sign X ?es i t key = Ok ?r" using assms(6,7) by (simp add: assemble_cases)
  from emitted_read_back [OF assms(3) es assms(4,5) r] r show ?thesis
    by (intro exI [of _ ?r] exI [of _ "as_read ?r"]) (simp add: as_read_def emitted_fields)
qed

text \<open>C2: no exchange is lost on the way to the record: after any history the host may produce
that ends with a request and its response on a live context, the context's evidence can be signed
into a record that verifies and whose last action is the one the ledger prescribes for that
exchange.\<close>

theorem every_exchange_attested:
  assumes "legal_history X default_plugin_config {} (evs @ [RequestHeaders ctx h, ResponseHeaders ctx h'])"
    and "crate_laws X" "identity_ok i" "trim (id_trace_id i) \<noteq> []"
  shows "\<exists>tr s f r. run (proxy_step X U) proxy_init tr s \<and>
    map fst tr = evs @ [RequestHeaders ctx h, ResponseHeaders ctx h'] \<and> contexts s ctx = Some f \<and>
    assemble_and_sign X (entries (flt_buffer f)) i t key = Ok r \<and> verify_record_dsse X r (ed_public X key) = Ok () \<and>
    last (actions r) =
      ledger_entry U ctx (flt_config f) (request_of h) (host_current_time h')"
proof -
  obtain tr s f where run: "run (proxy_step X U) proxy_init tr s"
      "map fst tr = evs @ [RequestHeaders ctx h, ResponseHeaders ctx h']"
    and f: "proxy_reachable X U s" "contexts s ctx = Some f" "entries (flt_buffer f) \<noteq> []"
    and e: "last (entries (flt_buffer f)) =
      ledger_entry U ctx (flt_config f) (request_of h) (host_current_time h')"
    using exchange_recorded [OF assms(1), of U] by blast
  let ?r = "sealed X (assembled_record (entries (flt_buffer f)) i t) key (id_key_id i)"
  have "\<forall>e \<in> set (entries (flt_buffer f)). evidence_plain e"
    using reachable_entries [OF f(1,2)] entry_of_plain by blast
  then have signable: "dsse_signable X (assembled_record (entries (flt_buffer f)) i t)"
    using assms(2,3) by (intro assembled_signable)
  have r: "assemble_and_sign X (entries (flt_buffer f)) i t key = Ok ?r"
    using f(3) assms(4) by (simp add: assemble_cases)
  from assemble_verifies [OF signable r] r run f(2) e show ?thesis
    by (intro exI [of _ tr] exI [of _ s] exI [of _ f] exI [of _ ?r]) (simp add: emitted_fields)
qed

end
