(* ===== verification/Chain.thy ===== *)
theory Chain
  imports Dsse
begin

text \<open>
  \<open>chain_status\<close> of \<open>crates/aep-core/tests/protocol_corpus.rs\<close>, the Rust mirror of the JavaScript
  \<open>verifyAEPChain\<close>: a record links to its predecessor by carrying its digest in the catch-all
  member \<open>prev_record_hash\<close>. An intact chain is determined by its last record.
\<close>

section \<open>The status of a chain\<close>

definition prev_link :: "aep_record \<Rightarrow> string option" where
  "prev_link r = (case map_of (extra r) ''prev_record_hash'' of None \<Rightarrow> None | Some v \<Rightarrow> as_str v)"

text \<open>The loop over the records after the first; \<open>Inl\<close> is its early return.\<close>

fun chain_scan :: "('sk, 'vk) crates \<Rightarrow> aep_record \<Rightarrow> aep_record list \<Rightarrow> nat \<Rightarrow> nat \<Rightarrow> string + nat \<times> nat" where
  "chain_scan X prev [] linked missing = Inr (linked, missing)"
| "chain_scan X prev (current # rest) linked missing =
     (case prev_link current of
        None \<Rightarrow> chain_scan X current rest linked (missing + 1)
      | Some claimed \<Rightarrow>
          if claimed \<noteq> sha256_hex X (canonical_json X (record_predicate prev)) then Inl ''broken''
          else chain_scan X current rest (linked + 1) missing)"

definition chain_status :: "('sk, 'vk) crates \<Rightarrow> aep_record list \<Rightarrow> string" where
  "chain_status X records =
     (case records of
        [] \<Rightarrow> ''not-present''
      | [r] \<Rightarrow> if prev_link r \<noteq> None then ''orphaned'' else ''not-present''
      | r # rest \<Rightarrow>
          (case chain_scan X r rest 0 0 of
             Inl status \<Rightarrow> status
           | Inr (linked, missing) \<Rightarrow>
               if linked = 0 then ''not-present''
               else if 0 < missing then ''partial''
               else if prev_link r \<noteq> None then ''orphaned''
               else ''intact''))"

section \<open>What the scan finds\<close>

definition links_to :: "('sk, 'vk) crates \<Rightarrow> aep_record \<Rightarrow> aep_record \<Rightarrow> bool" where
  "links_to X prev current \<longleftrightarrow> prev_link current = Some (record_digest X prev)"

lemma scan_no_gap:
  "chain_scan X prev rest l m = Inr (l', m) \<longleftrightarrow> successively (links_to X) (prev # rest) \<and> l' = l + length rest"
proof (induction rest arbitrary: prev l)
  case Nil
  then show ?case by auto
next
  case (Cons r rest)
  have more: "chain_scan X p rs a b = Inr (a', b') \<Longrightarrow> b \<le> b'" for p rs a b a' b'
    by (induction rs arbitrary: p a b) (fastforce split: option.splits if_splits dest: Suc_leD)+
  show ?case
  proof (cases "prev_link r")
    case None
    then show ?thesis using more [of r rest l "m + 1" l' m] by (auto simp: links_to_def)
  next
    case (Some claimed)
    then show ?thesis using Cons.IH [of r "l + 1"] by (auto simp: links_to_def record_digest_def)
  qed
qed

lemma scan_more: "chain_scan X p rs a b = Inr (a', b') \<Longrightarrow> b \<le> b'"
  by (induction rs arbitrary: p a b) (fastforce split: option.splits if_splits dest: Suc_leD)+

lemma intact_iff:
  "chain_status X rs = ''intact'' \<longleftrightarrow>
     2 \<le> length rs \<and> prev_link (hd rs) = None \<and> successively (links_to X) rs"
proof (cases rs)
  case Nil
  then show ?thesis by (simp add: chain_status_def)
next
  case r: (Cons r rest)
  show ?thesis
  proof (cases rest)
    case Nil
    with r show ?thesis by (simp add: chain_status_def)
  next
    case rest: (Cons s ss)
    have broken: "chain_scan X p us a b = Inl e \<Longrightarrow> e = ''broken''" for p us a b e
      by (induction us arbitrary: p a b) (auto split: option.splits if_splits)
    have "chain_status X rs = ''intact'' \<longleftrightarrow>
        prev_link r = None \<and> (\<exists>l. chain_scan X r rest 0 0 = Inr (l, 0) \<and> l \<noteq> 0)"
      using broken [of r rest 0 0] unfolding r rest
      by (auto simp: chain_status_def simp del: chain_scan.simps split: sum.splits prod.splits)
    with r rest show ?thesis
      by (auto simp del: chain_scan.simps simp: scan_no_gap)
  qed
qed

text \<open>The whole result of the scan, from what each record is and what the next one claims.\<close>

definition claimed_links :: "('sk, 'vk) crates \<Rightarrow> aep_record list \<Rightarrow> (string \<times> string option) list" where
  "claimed_links X rs = zip (map (record_digest X) rs) (map prev_link (tl rs))"

lemma claimed_links_simps [simp]:
  "claimed_links X [] = []" "claimed_links X [r] = []"
  "claimed_links X (r # s # rs) = (record_digest X r, prev_link s) # claimed_links X (s # rs)"
  by (simp_all add: claimed_links_def)

lemma scan_eq:
  "chain_scan X prev rest linked missing =
     (let links = claimed_links X (prev # rest)
      in if list_ex (\<lambda>(d, claim). claim \<noteq> None \<and> claim \<noteq> Some d) links then Inl ''broken''
         else Inr (linked + length (filter (\<lambda>(d, claim). claim \<noteq> None) links),
                   missing + length (filter (\<lambda>(d, claim). claim = None) links)))"
proof (induction rest arbitrary: prev linked missing)
  case (Cons r rest)
  then show ?case
    by (cases "prev_link r") (simp_all add: Let_def, auto simp: record_digest_def)
qed simp

lemma prev_link_strip: "strip_signing r = strip_signing r' \<Longrightarrow> prev_link r = prev_link r'"
proof -
  have "prev_link (strip_signing r) = prev_link r" for r by (simp add: prev_link_def strip_signing_def)
  then show "strip_signing r = strip_signing r' \<Longrightarrow> prev_link r = prev_link r'" by metis
qed

text \<open>Following the links backwards, equal ends have equal beginnings.\<close>

lemma linked_backwards:
  assumes "\<And>x y. x \<in> A \<Longrightarrow> y \<in> A \<Longrightarrow> record_digest X x = record_digest X y \<Longrightarrow> strip_signing x = strip_signing y"
    and "set xs \<union> set ys \<subseteq> A"
    and "successively (links_to X) (xs @ [r])" "successively (links_to X) (ys @ [r'])"
    and "strip_signing r = strip_signing r'"
    and "prev_link (hd (xs @ [r])) = None" "prev_link (hd (ys @ [r'])) = None"
  shows "map strip_signing xs = map strip_signing ys"
  using assms(2-)
proof (induction xs arbitrary: ys r r' rule: rev_induct)
  case Nil
  then have "prev_link r = None" by simp
  with Nil.prems(4) have none: "prev_link r' = None" using prev_link_strip by metis
  show ?case
  proof (cases ys rule: rev_cases)
    case (snoc zs y)
    with Nil.prems(3) have "links_to X y r'" by (simp add: successively_append_iff)
    with none show ?thesis by (simp add: links_to_def)
  qed simp
next
  case (snoc x xs)
  from snoc.prems(2) have x: "links_to X x r" "successively (links_to X) (xs @ [x])"
    by (simp_all add: successively_append_iff)
  then have link: "prev_link r' = Some (record_digest X x)"
    using prev_link_strip [OF snoc.prems(4)] by (simp add: links_to_def)
  obtain zs y where ys: "ys = zs @ [y]"
  proof (cases ys rule: rev_cases)
    case Nil
    with snoc.prems(6) link show ?thesis by simp
  qed (rule that)
  from snoc.prems(3) have y: "links_to X y r'" "successively (links_to X) (zs @ [y])"
    by (simp_all add: ys successively_append_iff)
  with link have d: "record_digest X x = record_digest X y" by (simp add: links_to_def)
  have "x \<in> A" "y \<in> A" using snoc.prems(1) ys by auto
  from assms(1) [OF this d] have xy: "strip_signing x = strip_signing y" .
  have h: "prev_link (hd (xs @ [x])) = None" "prev_link (hd (zs @ [y])) = None"
    using snoc.prems(5,6) ys by (simp_all add: hd_append split: if_splits)
  have "set xs \<union> set zs \<subseteq> A" using snoc.prems(1) ys by auto
  from snoc.IH [OF this x(2) y(2) xy h] xy ys show ?case by simp
qed

section \<open>Properties\<close>

text \<open>C22: the verdict on a list of records, from the links between neighbours, each the digest of a
record (SHA-256 of its canonical JSON without the signing fields) and what its successor claims in
\<open>prev_record_hash\<close>: one claim that is not the digest makes the chain broken; a single record with a
claim is orphaned; without claims there is no chain; with some of them missing it is partial; with
all of them right it is orphaned if the first record claims a predecessor too, and intact otherwise.\<close>

theorem chain_status_verdicts:
  "chain_status X rs =
     (let claim = (\<lambda>r. case map_of (extra r) ''prev_record_hash'' of Some (JString h) \<Rightarrow> Some h | _ \<Rightarrow> None);
          links = zip (map (record_digest X) rs) (map claim (tl rs))
      in if list_ex (\<lambda>(d, c). c \<noteq> None \<and> c \<noteq> Some d) links then ''broken''
         else if length rs = 1 \<and> claim (hd rs) \<noteq> None then ''orphaned''
         else if list_all (\<lambda>(d, c). c = None) links then ''not-present''
         else if list_ex (\<lambda>(d, c). c = None) links then ''partial''
         else if claim (hd rs) \<noteq> None then ''orphaned''
         else ''intact'')"
proof -
  have claim: "(\<lambda>r. case map_of (extra r) ''prev_record_hash'' of Some (JString h) \<Rightarrow> Some h | _ \<Rightarrow> None) = prev_link"
    by (auto simp: prev_link_def fun_eq_iff split: option.split json.split)
  have none: "length (filter (\<lambda>(d, c). c \<noteq> None) ls) = 0 \<longleftrightarrow> list_all (\<lambda>(d, c). c = None) ls"
    and some: "0 < length (filter (\<lambda>(d, c). c = None) ls) \<longleftrightarrow> list_ex (\<lambda>(d, c). c = None) ls"
    for ls :: "(string \<times> string option) list"
    by (induction ls) auto
  consider "rs = []" | r where "rs = [r]" | r s ss where "rs = r # s # ss"
    by (metis list.exhaust)
  then show ?thesis
  proof cases
    case 3
    define links where "links = claimed_links X rs"
    have scan: "chain_scan X r (s # ss) 0 0 =
        (if list_ex (\<lambda>(d, c). c \<noteq> None \<and> c \<noteq> Some d) links then Inl ''broken''
         else Inr (length (filter (\<lambda>(d, c). c \<noteq> None) links), length (filter (\<lambda>(d, c). c = None) links)))"
      unfolding scan_eq Let_def links_def 3 by simp
    have "chain_status X rs =
        (case chain_scan X r (s # ss) 0 0 of
           Inl status \<Rightarrow> status
         | Inr (linked, missing) \<Rightarrow>
             if linked = 0 then ''not-present'' else if 0 < missing then ''partial''
             else if prev_link r \<noteq> None then ''orphaned'' else ''intact'')"
      unfolding 3 chain_status_def by (simp only: list.case)
    also have "\<dots> =
        (if list_ex (\<lambda>(d, c). c \<noteq> None \<and> c \<noteq> Some d) links then ''broken''
         else if list_all (\<lambda>(d, c). c = None) links then ''not-present''
         else if list_ex (\<lambda>(d, c). c = None) links then ''partial''
         else if prev_link r \<noteq> None then ''orphaned'' else ''intact'')"
      unfolding scan none [symmetric] some [symmetric] by (simp only: if_distrib [of "case_sum _ _"] sum.case prod.case)
    finally show ?thesis
      unfolding claim Let_def claimed_links_def [symmetric] links_def [symmetric] by (simp add: 3)
  qed (auto simp: claim chain_status_def)
qed

text \<open>C21: tamper evidence of a chain: two intact chains that end in records of the same content
have the same length and the same contents throughout, provided SHA-256 does not collide on the
canonical predicates of their records.\<close>

theorem intact_chain_determined_by_last:
  assumes "chain_status X rs = ''intact''" "chain_status X rs' = ''intact''"
    and "strip_signing (last rs) = strip_signing (last rs')"
    and "json_lexical (json_to_string X)" "hex_laws X"
    and "\<forall>r \<in> set rs \<union> set rs'. record_ok r \<and> record_flat r"
    and "inj_on (sha256 X) ((\<lambda>r. canonical_json X (record_predicate r)) ` (set rs \<union> set rs'))"
  shows "map strip_signing rs = map strip_signing rs'"
proof -
  have binds: "strip_signing x = strip_signing y"
    if "x \<in> set rs \<union> set rs'" "y \<in> set rs \<union> set rs'" "record_digest X x = record_digest X y" for x y
    using that assms(4-7) by (intro record_digest_binds [of X x y]) (auto dest: inj_onD)
  have intact: "successively (links_to X) rs" "prev_link (hd rs) = None" "rs \<noteq> []"
    "successively (links_to X) rs'" "prev_link (hd rs') = None" "rs' \<noteq> []"
    using assms(1,2) by (auto simp: intact_iff)
  then obtain xs r ys r' where split: "rs = xs @ [r]" "rs' = ys @ [r']"
    by (metis rev_exhaust)
  have "map strip_signing xs = map strip_signing ys"
    by (rule linked_backwards [where A = "set rs \<union> set rs'" and r = r and r' = r', OF binds])
      (use assms(3) intact in \<open>auto simp: split\<close>)
  with assms(3) split show ?thesis by simp
qed

end
