(* ===== verification/Samples.thy ===== *)
theory Samples
  imports Transport
begin

text \<open>
  The sample records of \<open>crates/aep-core/examples/emit_aep_samples.rs\<close>, which the schema
  conformance job of the repository validates, and the program that writes them to files. They can
  be signed, and the \<open>expect\<close> in \<open>signed_record\<close> never fires.
\<close>

section \<open>The samples\<close>

definition default_capability_decision :: capability_decision where
  "default_capability_decision =
     \<lparr>capability = [], subject = [], resource = [], decision = [], reason_code = None,
      deny_reason_class = None, cap_extra = []\<rparr>"

definition default_action_evidence :: action_evidence where
  "default_action_evidence =
     \<lparr>action_id = [], tool_name = [], state_changing = False, precondition_digest = None,
      result_digest = None, timestamp_ms = 0, parent_action_id = None, causal_chain_id = None,
      act_recording_mode = default_recording_mode, act_capability_decision = None,
      act_mcp_header_risk = None, act_side_effect_class = None, act_extra = []\<rparr>"

definition minimal_record :: aep_record where
  "minimal_record = default_aep_record\<lparr>
     schema_version := AEP_SCHEMA_VERSION,
     run_id := ''run-minimal'',
     actions := [],
     created_at_ms := 1700000000000\<rparr>"

definition annotated_record :: aep_record where
  "annotated_record = default_aep_record\<lparr>
     schema_version := AEP_SCHEMA_VERSION,
     run_id := ''run-annotated'',
     trace_id := Some ''b3f1c2d3e4f5a6b7'',
     session_id := Some ''session-77'',
     user_id := Some ''user-dana@acme.example'',
     authorized_by := Some ''manager-ade@acme.example'',
     authority_origin := Some ''subject_consented'',
     identity_source := Some ''organization_attested'',
     attribution_backing := Some ''principal_key_signed'',
     run_attribution_backing_floor := Some ''operator_asserted'',
     run_attribution_backing_observed := Some [''operator_asserted'', ''principal_key_signed''],
     rec_side_effect_class_max := Some ''network-egress'',
     rec_recording_mode := Some ''full'',
     actions := [default_action_evidence\<lparr>
       action_id := ''ctx-42'',
       tool_name := ''POST /api/payments'',
       state_changing := True,
       precondition_digest := Some ''sha256:aa11'',
       result_digest := Some ''sha256:bb22'',
       timestamp_ms := 1700000000001,
       causal_chain_id := Some ''chain-9'',
       act_recording_mode := Full,
       act_capability_decision := Some (default_capability_decision\<lparr>
         capability := ''payments.charge'',
         subject := ''agent-1'',
         resource := ''acct-42'',
         decision := ''allow'',
         reason_code := Some ''policy-match''\<rparr>),
       act_mcp_header_risk := Some ''credential_leak'',
       act_side_effect_class := Some (canonical_str NetworkEgress)\<rparr>],
     created_at_ms := 1700000000001\<rparr>"

definition unsigned_sample :: aep_record where
  "unsigned_sample = default_aep_record\<lparr>
     schema_version := AEP_SCHEMA_VERSION,
     run_id := ''run-signed'',
     trace_id := Some ''0a1b2c3d4e5f6071'',
     actions := [default_action_evidence\<lparr>
       action_id := ''ctx-7'',
       tool_name := ''GET /mcp/resources'',
       state_changing := False,
       timestamp_ms := 1700000000002,
       act_recording_mode := Validation,
       act_side_effect_class := Some (canonical_str Read)\<rparr>],
     created_at_ms := 1700000000002\<rparr>"

text \<open>\<open>expect\<close> turns an error of the signer into a panic.\<close>

definition signed_record :: "('sk, 'vk) crates \<Rightarrow> 'sk \<Rightarrow> (unit, aep_record) outcome" where
  "signed_record X key =
     (case sign_record_dsse X unsigned_sample key ''ci-sample-key'' of
        (r, Ok _) \<Rightarrow> Ok r
      | _ \<Rightarrow> Panic)"

section \<open>The samples can be signed\<close>

lemmas sample_defs = minimal_record_def annotated_record_def unsigned_sample_def default_aep_record_def
  default_action_evidence_def default_capability_decision_def AEP_SCHEMA_VERSION_def

lemma samples_floor_sound: "floor_sound minimal_record" "floor_sound annotated_record" "floor_sound unsigned_sample"
  by (simp_all add: floor_sound_def sample_defs grade_rank.simps)

lemma samples_flat: "record_flat minimal_record" "record_flat annotated_record" "record_flat unsigned_sample"
  by (simp_all add: record_flat_def action_flat_def capability_flat_def sample_defs)

lemma samples_ok: "record_ok minimal_record" "record_ok annotated_record" "record_ok unsigned_sample"
  by (simp_all add: record_ok_def record_strings_def record_extras_def action_strings_def action_extras_def
      capability_strings_def sample_defs utf8_valid_literal)

lemma samples_extras: "record_extras minimal_record = []" "record_extras annotated_record = []"
  "record_extras unsigned_sample = []"
  by (simp_all add: record_extras_def action_extras_def sample_defs)

lemma samples_signable:
  assumes "crate_laws X"
  shows "dsse_signable X minimal_record" "dsse_signable X annotated_record" "dsse_signable X unsigned_sample"
  using assms by (simp_all add: dsse_signable_def samples_ok samples_extras)

lemma signed_record_Ok: "signed_record X key = Ok (sealed X unsigned_sample key ''ci-sample-key'')"
  by (simp add: signed_record_def sign_cases samples_floor_sound)

lemma signed_record_verifies:
  "crate_laws X \<Longrightarrow> signed_record X key = Ok r \<Longrightarrow> verify_record_dsse X r (ed_public X key) = Ok ()"
  using dsse.sign_verifies [OF samples_signable(3), of X key "''ci-sample-key''"]
  by (simp add: signed_record_Ok sign_cases samples_floor_sound)

section \<open>The program\<close>

text \<open>What \<open>main\<close> does to the file system and the terminal, in order.\<close>

datatype fs_effect =
    CreateDirAll string
  | WriteFile string string
  | PrintLine string

text \<open>\<open>Path::join\<close> on a Unix system; an absolute name replaces the path.\<close>

definition path_join :: "string \<Rightarrow> string \<Rightarrow> string" where
  "path_join dir name =
     (if starts_with name ''/'' then name
      else if dir = [] \<or> last dir = CHR ''/'' then dir @ name
      else dir @ ''/'' @ name)"

text \<open>
  An effect that fails trips its \<open>expect\<close> (\<open>io\<close> says which succeed); nothing after it happens. The
  result is what was done and whether the program ran to its end.
\<close>

fun perform :: "(fs_effect \<Rightarrow> bool) \<Rightarrow> fs_effect list \<Rightarrow> fs_effect list \<times> (unit, unit) outcome" where
  "perform io [] = ([], Ok ())"
| "perform io (e # es) =
     (if io e then (let (performed, result) = perform io es in (e # performed, result)) else ([], Panic))"

text \<open>
  \<open>pretty\<close> is \<open>serde_json::to_string_pretty\<close>, \<open>key\<close> the fixed signing key and \<open>key_bytes\<close> the 32 bytes
  of a verifying key; \<open>args\<close> are the arguments after the name of the program.
\<close>

definition write_sample :: "(json \<Rightarrow> string) \<Rightarrow> string \<Rightarrow> string \<times> aep_record \<Rightarrow> fs_effect list" where
  "write_sample pretty dir sample =
     (let (name, r) = sample; path = path_join dir name
      in [WriteFile path (pretty (aep_record_written r)), PrintLine path])"

definition emit_samples_main ::
  "('sk, 'vk) crates \<Rightarrow> (json \<Rightarrow> string) \<Rightarrow> 'sk \<Rightarrow> ('vk \<Rightarrow> bytes) \<Rightarrow> (fs_effect \<Rightarrow> bool) \<Rightarrow> string list \<Rightarrow>
     fs_effect list \<times> (unit, unit) outcome" where
  "emit_samples_main X pretty key key_bytes io args =
     (let out_dir = (case args of [] \<Rightarrow> ''aep-samples'' | a # _ \<Rightarrow> a) in
      case signed_record X key of
        Ok r \<Rightarrow>
          perform io
            (CreateDirAll out_dir #
             concat (map (write_sample pretty out_dir)
               [(''record-minimal.json'', minimal_record),
                (''record-annotated.json'', annotated_record),
                (''record-signed.json'', r)]) @
             [WriteFile (path_join out_dir ''verify-key.hex'') (hex_encode X (key_bytes (ed_public X key)))])
      | _ \<Rightarrow> (fst (perform io [CreateDirAll out_dir]), Panic))"

lemma perform_done: "snd (perform io es) = Ok () \<longleftrightarrow> (\<forall>e \<in> set es. io e)"
  and perform_all: "\<forall>e \<in> set es. io e \<Longrightarrow> fst (perform io es) = es"
  by (induction es) (auto simp: split_beta Let_def)

lemma perform_prefix: "\<exists>rest. es = fst (perform io es) @ rest"
  by (induction es) (auto simp: split_beta Let_def)

text \<open>What a consumer reads from the text of a sample, whatever layout the printer chose.\<close>

lemma sample_text_read:
  assumes "\<And>v. json_strings_ok v \<Longrightarrow> json_integral v \<Longrightarrow> json_depth v \<le> json_depth_limit \<Longrightarrow> json_read X (pretty v) = Inr v"
    and "wire_ok r" "record_flat r" "record_extras r = []"
  shows "aep_record_from_slice X (pretty (aep_record_written r)) = Inr r"
proof -
  have "distinct (map fst (written_members r))"
    using assms(3) by (intro flat_distinct [OF record_fields_ok]) (simp_all add: record_flat_def)
  then have "json_strings_ok (aep_record_written r)"
    using assms(2-4) by (intro record_text_ok) (simp_all add: record_flat_def)
  moreover have "json_plain json_depth_limit (aep_record_written r)"
    by (rule json_plain_mono [OF record_written_plain [of r 0]]) (simp_all add: assms(4) json_depth_limit_def)
  ultimately have "json_read X (pretty (aep_record_written r)) = Inr (aep_record_written r)"
    using assms(1) by (simp add: json_plain_def)
  then show ?thesis
    using record_written_back [OF assms(3)] assms(4) by (simp add: aep_record_from_slice_def from_slice_def)
qed

text \<open>C40: the published samples are usable: where the file system accepts every effect, the
program ends normally, and what it did is to make the directory it was given, write the three records
in it, each followed by a line with its path, and write the verifying key in hexadecimal. Read by any
consumer, the texts are the minimal, the annotated and the signed record, and the signed record
verifies under that key.\<close>

theorem published_samples_verify:
  assumes "crate_laws X" "\<forall>e. io e"
    and "\<And>v. json_strings_ok v \<Longrightarrow> json_integral v \<Longrightarrow> json_depth v \<le> json_depth_limit \<Longrightarrow> json_read X (pretty v) = Inr v"
  shows "\<exists>r t1 t2 t3.
    (let dir = (case args of [] \<Rightarrow> ''aep-samples'' | a # _ \<Rightarrow> a) in
       emit_samples_main X pretty key key_bytes io args =
         ([CreateDirAll dir,
           WriteFile (path_join dir ''record-minimal.json'') t1, PrintLine (path_join dir ''record-minimal.json''),
           WriteFile (path_join dir ''record-annotated.json'') t2, PrintLine (path_join dir ''record-annotated.json''),
           WriteFile (path_join dir ''record-signed.json'') t3, PrintLine (path_join dir ''record-signed.json''),
           WriteFile (path_join dir ''verify-key.hex'') (hex_encode X (key_bytes (ed_public X key)))], Ok ())) \<and>
    aep_record_from_slice X t1 = Inr minimal_record \<and> aep_record_from_slice X t2 = Inr annotated_record \<and>
    aep_record_from_slice X t3 = Inr r \<and>
    run_id minimal_record = ''run-minimal'' \<and> run_id annotated_record = ''run-annotated'' \<and> run_id r = ''run-signed'' \<and>
    signed_record X key = Ok r \<and> verify_record_dsse X r (ed_public X key) = Ok ()"
proof -
  let ?r = "sealed X unsigned_sample key ''ci-sample-key''"
  have "wire_ok minimal_record" "wire_ok annotated_record"
    using samples_ok(1,2) by (simp_all add: wire_ok_def sample_defs)
  then have read: "aep_record_from_slice X (pretty (aep_record_written minimal_record)) = Inr minimal_record"
    "aep_record_from_slice X (pretty (aep_record_written annotated_record)) = Inr annotated_record"
    using sample_text_read [OF assms(3)] samples_flat(1,2) samples_extras(1,2) by simp_all
  have "wire_ok ?r"
    using assms(1) by (intro sealed_wire_ok) (simp_all add: samples_ok utf8_valid_literal)
  moreover have "record_flat ?r" "record_extras ?r = []"
    using samples_flat(3) samples_extras(3)
    by (simp_all add: sealed_def strip_signing_def record_flat_def record_extras_def)
  ultimately have signed: "aep_record_from_slice X (pretty (aep_record_written ?r)) = Inr ?r"
    using sample_text_read [OF assms(3), of ?r] by simp
  have ids: "run_id minimal_record = ''run-minimal''" "run_id annotated_record = ''run-annotated''" "run_id ?r = ''run-signed''"
    by (simp_all add: minimal_record_def annotated_record_def unsigned_sample_def)
  have run: "perform io es = (es, Ok ())" for es
    using assms(2) perform_done [of io es] perform_all [of es io] by (metis prod.collapse)
  show ?thesis
    using read signed ids signed_record_verifies [OF assms(1) signed_record_Ok]
    by (intro exI [of _ ?r] exI [of _ "pretty (aep_record_written minimal_record)"]
        exI [of _ "pretty (aep_record_written annotated_record)"] exI [of _ "pretty (aep_record_written ?r)"] conjI)
      (simp_all add: emit_samples_main_def signed_record_Ok run write_sample_def Let_def del: perform.simps)
qed

end
