(* ===== verification/Reference_Crates.thy ===== *)
theory Reference_Crates
  imports Canonical_Json
begin

text \<open>
  One concrete instance of the crate functions that satisfies every law of \<open>Crates\<close>: RFC 4648
  base64 and hex, a JSON printer and recursive-descent parser, a digest without collisions
  in place of SHA-256 and a keyed 64-byte tag in place of Ed25519. It shows that the laws are satisfiable; no property rests on it.
\<close>

section \<open>Base64\<close>

definition b64_alphabet :: string where
  "b64_alphabet = ''ABCDEFGHIJKLMNOPQRSTUVWXYZabcdefghijklmnopqrstuvwxyz0123456789+/''"

definition b64_char :: "nat \<Rightarrow> char" where
  "b64_char n = b64_alphabet ! n"

definition b64_value :: "char \<Rightarrow> nat" where
  "b64_value c = (case position (\<lambda>d. d = c) b64_alphabet of None \<Rightarrow> 0 | Some n \<Rightarrow> n)"

fun ref_b64_encode :: "bytes \<Rightarrow> string" where
  "ref_b64_encode [] = []"
| "ref_b64_encode [a] = [b64_char (of_char a div 4), b64_char (of_char a mod 4 * 16), CHR ''='', CHR ''='']"
| "ref_b64_encode [a, b] =
     [b64_char (of_char a div 4), b64_char (of_char a mod 4 * 16 + of_char b div 16),
      b64_char (of_char b mod 16 * 4), CHR ''='']"
| "ref_b64_encode (a # b # c # bs) =
     [b64_char (of_char a div 4), b64_char (of_char a mod 4 * 16 + of_char b div 16),
      b64_char (of_char b mod 16 * 4 + of_char c div 64), b64_char (of_char c mod 64)] @ ref_b64_encode bs"

fun ref_b64_decode :: "string \<Rightarrow> string + bytes" where
  "ref_b64_decode (w # x # y # z # s) =
     (if set [w, x] \<subseteq> set b64_alphabet then
        let a = char_of (b64_value w * 4 + b64_value x div 16);
            b = char_of (b64_value x mod 16 * 16 + b64_value y div 4);
            c = char_of (b64_value y mod 4 * 64 + b64_value z)
        in if z = CHR ''='' \<and> s = [] then
             (if y = CHR ''='' then Inr [a] else if y \<in> set b64_alphabet then Inr [a, b] else Inl ''invalid byte'')
           else if y \<in> set b64_alphabet \<and> z \<in> set b64_alphabet then
             (case ref_b64_decode s of Inl e \<Rightarrow> Inl e | Inr bs \<Rightarrow> Inr (a # b # c # bs))
           else Inl ''invalid byte''
      else Inl ''invalid byte'')"
| "ref_b64_decode [] = Inr []"
| "ref_b64_decode _ = Inl ''invalid length''"

lemma b64_char_value [simp]: "n < 64 \<Longrightarrow> b64_value (b64_char n) = n"
proof -
  have "\<forall>n \<in> set [0..<64]. b64_value (b64_char n) = n" by code_simp
  then show "n < 64 \<Longrightarrow> b64_value (b64_char n) = n" by simp
qed

lemma b64_char_mem [simp]: "n < 64 \<Longrightarrow> b64_char n \<in> set b64_alphabet"
proof -
  have "length b64_alphabet = 64" by (simp add: b64_alphabet_def)
  then show "n < 64 \<Longrightarrow> b64_char n \<in> set b64_alphabet"
    unfolding b64_char_def by (intro nth_mem) simp
qed

lemma b64_alphabet_plain: "CHR ''='' \<notin> set b64_alphabet" "CHR ''-'' \<notin> set b64_alphabet" "CHR ''_'' \<notin> set b64_alphabet"
  by (simp_all add: b64_alphabet_def)

lemma b64_char_ascii [simp]: "n < 64 \<Longrightarrow> (of_char (b64_char n) :: nat) < 128"
proof -
  have "\<forall>c \<in> set b64_alphabet. (of_char c :: nat) < 128" by (simp add: b64_alphabet_def)
  then show "n < 64 \<Longrightarrow> (of_char (b64_char n) :: nat) < 128" using b64_char_mem by blast
qed

lemma b64_char_not [simp]:
  "n < 64 \<Longrightarrow> b64_char n \<noteq> CHR ''=''" "n < 64 \<Longrightarrow> CHR ''='' \<noteq> b64_char n"
  "n < 64 \<Longrightarrow> CHR ''-'' \<noteq> b64_char n" "n < 64 \<Longrightarrow> CHR ''_'' \<noteq> b64_char n"
  using b64_char_mem [of n] b64_alphabet_plain by metis+

lemma byte_lt [simp]: "(of_char c :: nat) < 256"
  using nat_of_char_less_256 by simp

lemma b64_groups [simp]:
  "(of_char a :: nat) div 4 < 64" "(of_char a :: nat) mod 4 * 16 < 64" "(of_char b :: nat) mod 16 * 4 < 64"
  "(of_char a :: nat) mod 4 * 16 + of_char b div 16 < 64" "(of_char b :: nat) mod 16 * 4 + of_char c div 64 < 64"
  using byte_lt [of a] byte_lt [of b] byte_lt [of c] by linarith+

lemma byte_high [simp]: "(of_char b :: nat) div 16 div 16 = 0" "(of_char b :: nat) div 16 mod 16 = of_char b div 16"
  "(of_char c :: nat) div 64 div 4 = 0" "(of_char c :: nat) div 64 mod 4 = of_char c div 64"
  using byte_lt [of b] byte_lt [of c] by (simp_all add: div_mult2_eq [symmetric], (intro mod_less, linarith)+)

lemma ref_b64_roundtrip: "ref_b64_decode (ref_b64_encode bs) = Inr bs"
proof (induction bs rule: ref_b64_encode.induct)
  case (4 a b c bs)
  then show ?case by (simp del: ref_b64_decode.simps(2) add: ref_b64_decode.simps(1) Let_def)
qed (simp_all add: Let_def)

lemma ref_b64_text: "b64_text (ref_b64_encode bs)"
proof -
  have "ascii (ref_b64_encode bs)"
    by (induction bs rule: ref_b64_encode.induct) (simp_all add: ascii_def)
  moreover have "length (ref_b64_encode bs) mod 4 = 0 \<and> CHR ''-'' \<notin> set (ref_b64_encode bs) \<and> CHR ''_'' \<notin> set (ref_b64_encode bs)"
    by (induction bs rule: ref_b64_encode.induct) auto
  moreover have "\<exists>body pad. ref_b64_encode bs = body @ pad \<and> CHR ''='' \<notin> set body \<and> pad \<in> {[], ''='', ''==''}"
  proof (induction bs rule: ref_b64_encode.induct)
    case 1
    then show ?case by simp
  next
    case (2 a)
    show ?case
      by (rule exI [of _ "[b64_char (of_char a div 4), b64_char (of_char a mod 4 * 16)]"],
          rule exI [of _ "''==''"]) simp
  next
    case (3 a b)
    show ?case
      by (rule exI [of _ "[b64_char (of_char a div 4), b64_char (of_char a mod 4 * 16 + of_char b div 16),
            b64_char (of_char b mod 16 * 4)]"], rule exI [of _ "''=''"]) simp
  next
    case (4 a b c bs)
    then obtain body pad where "ref_b64_encode bs = body @ pad" "CHR ''='' \<notin> set body" "pad \<in> {[], ''='', ''==''}"
      by blast
    then show ?case
      by (intro exI [of _ "[b64_char (of_char a div 4), b64_char (of_char a mod 4 * 16 + of_char b div 16),
            b64_char (of_char b mod 16 * 4 + of_char c div 64), b64_char (of_char c mod 64)] @ body"]
          exI [of _ pad]) simp
  qed
  ultimately show ?thesis by (simp add: b64_text_def)
qed

section \<open>Hexadecimal\<close>

definition hex_digits :: string where
  "hex_digits = ''0123456789abcdef''"

definition hex_value :: "char \<Rightarrow> nat option" where
  "hex_value c = position (\<lambda>d. d = c) hex_digits"

fun ref_hex_encode :: "bytes \<Rightarrow> string" where
  "ref_hex_encode [] = []"
| "ref_hex_encode (b # bs) = hex_digits ! (of_char b div 16) # hex_digits ! (of_char b mod 16) # ref_hex_encode bs"

fun ref_hex_decode :: "string \<Rightarrow> string + bytes" where
  "ref_hex_decode [] = Inr []"
| "ref_hex_decode [c] = Inl ''Odd number of digits''"
| "ref_hex_decode (c # d # s) =
     (case (hex_value c, hex_value d, ref_hex_decode s) of
        (Some h, Some l, Inr bs) \<Rightarrow> Inr (char_of (h * 16 + l) # bs)
      | _ \<Rightarrow> Inl ''Invalid character'')"

lemma hex_value_digit: "n < 16 \<Longrightarrow> hex_value (hex_digits ! n) = Some n"
proof -
  have "\<forall>n \<in> set [0..<16]. hex_value (hex_digits ! n) = Some n" by code_simp
  then show "n < 16 \<Longrightarrow> hex_value (hex_digits ! n) = Some n" by simp
qed

lemma byte_div_16 [simp]: "(of_char b :: nat) div 16 < 16"
  using byte_lt [of b] by linarith

lemma ref_hex_roundtrip: "ref_hex_decode (ref_hex_encode bs) = Inr bs"
  by (induction bs) (simp_all add: hex_value_digit)

lemma ref_hex_digits: "set (ref_hex_encode bs) \<subseteq> set ''0123456789abcdef''"
proof (induction bs)
  case (Cons b bs)
  have "hex_digits ! n \<in> set hex_digits" if "n < 16" for n
    by (rule nth_mem) (use that in \<open>simp add: hex_digits_def\<close>)
  from this [of "of_char b div 16"] this [of "of_char b mod 16"] Cons show ?case
    by (simp add: hex_digits_def)
qed simp

section \<open>JSON text\<close>

fun escape :: "string \<Rightarrow> string" where
  "escape [] = []"
| "escape (c # s) = (if c = CHR 0x22 \<or> c = CHR 0x5C then CHR 0x5C # c # escape s else c # escape s)"

fun ref_to_string :: "json \<Rightarrow> string" where
  "ref_to_string JNull = ''null''"
| "ref_to_string (JBool b) = (if b then ''true'' else ''false'')"
| "ref_to_string (JNumber (PosInt n)) = to_decimal (unat n)"
| "ref_to_string (JNumber (NegInt n)) = CHR ''-'' # to_decimal (unat (- n))"
| "ref_to_string (JNumber (Float b)) = to_decimal (unat b) @ ''.0''"
| "ref_to_string (JString s) = CHR 0x22 # escape s @ [CHR 0x22]"
| "ref_to_string (JArray vs) = ''[''"
| "ref_to_string (JObject m) = ''{''"

text \<open>The rest of a string literal after its opening quotation mark.\<close>

fun unquote :: "string \<Rightarrow> (string \<times> string) option" where
  "unquote [] = None"
| "unquote (c # s) =
     (if c = CHR 0x22 then Some ([], s)
      else if c = CHR 0x5C then
        (case s of [] \<Rightarrow> None | d # s' \<Rightarrow> map_option (\<lambda>(t, u). (d # t, u)) (unquote s'))
      else map_option (\<lambda>(t, u). (c # t, u)) (unquote s))"

lemma unquote_escape: "unquote (escape s @ CHR 0x22 # x) = Some (s, x)"
  by (induction s) auto

definition read_number :: "string \<Rightarrow> json_number" where
  "read_number t =
     (if t \<noteq> [] \<and> hd t = CHR ''-'' then NegInt (- of_nat (of_decimal (tl t)))
      else PosInt (of_nat (of_decimal t)))"

definition is_number_char :: "char \<Rightarrow> bool" where
  "is_number_char c \<longleftrightarrow> c \<in> set number_chars"

fun parse_value :: "nat \<Rightarrow> string \<Rightarrow> (json \<times> string) option"
  and parse_items :: "nat \<Rightarrow> string \<Rightarrow> (json list \<times> string) option"
  and parse_members :: "nat \<Rightarrow> string \<Rightarrow> (json_map \<times> string) option" where
  "parse_value 0 s = None"
| "parse_value (Suc n) s =
     (if take 4 s = ''null'' then Some (JNull, drop 4 s)
      else if take 4 s = ''true'' then Some (JBool True, drop 4 s)
      else if take 5 s = ''false'' then Some (JBool False, drop 5 s)
      else (case s of
        [] \<Rightarrow> None
      | c # t \<Rightarrow>
          if c = CHR 0x22 then map_option (\<lambda>(u, r). (JString u, r)) (unquote t)
          else if c = CHR ''['' then
            (if t \<noteq> [] \<and> hd t = CHR '']'' then Some (JArray [], tl t)
             else map_option (\<lambda>(vs, r). (JArray vs, r)) (parse_items n t))
          else if c = CHR ''{'' then
            (if t \<noteq> [] \<and> hd t = CHR ''}'' then Some (JObject [], tl t)
             else map_option (\<lambda>(m, r). (JObject m, r)) (parse_members n t))
          else if is_number_char c then
            Some (JNumber (read_number (takeWhile is_number_char s)), dropWhile is_number_char s)
          else None))"
| "parse_items 0 s = None"
| "parse_items (Suc n) s =
     (case parse_value n s of
        None \<Rightarrow> None
      | Some (v, r) \<Rightarrow>
          (case r of
             [] \<Rightarrow> None
           | c # u \<Rightarrow>
               if c = CHR '']'' then Some ([v], u)
               else if c = CHR '','' then map_option (\<lambda>(vs, w). (v # vs, w)) (parse_items n u)
               else None))"
| "parse_members 0 s = None"
| "parse_members (Suc n) s =
     (case s of
        [] \<Rightarrow> None
      | q # s' \<Rightarrow>
          if q \<noteq> CHR 0x22 then None
          else (case unquote s' of
             None \<Rightarrow> None
           | Some (k, t) \<Rightarrow>
               if t = [] \<or> hd t \<noteq> CHR '':'' then None
               else (case parse_value n (tl t) of
                  None \<Rightarrow> None
                | Some (v, r) \<Rightarrow>
                    (case r of
                       [] \<Rightarrow> None
                     | c # u \<Rightarrow>
                         if c = CHR ''}'' then Some ([(k, v)], u)
                         else if c = CHR '','' then map_option (\<lambda>(m, w). ((k, v) # m, w)) (parse_members n u)
                         else None))))"

definition ref_read :: "bytes \<Rightarrow> string + json" where
  "ref_read s =
     (case parse_value (Suc (length s)) s of
        Some (v, []) \<Rightarrow> Inr v
      | _ \<Rightarrow> Inl ''syntax error'')"

section \<open>The printer follows the lexical grammar\<close>

lemma of_decimal_word [simp]: "of_nat (of_decimal (to_decimal (unat (n :: u64)))) = n"
  by simp

lemma to_decimal_unat [simp]: "to_decimal (unat (m :: u64)) = to_decimal (unat n) \<longleftrightarrow> m = n"
  by (simp add: word_unat_eq_iff)

lemma decimal_number_chars: "c \<in> set (to_decimal n) \<Longrightarrow> c \<in> set number_chars"
proof -
  assume "c \<in> set (to_decimal n)"
  then have "(of_char c :: nat) \<in> {48..<58}"
    using to_decimal_digits [of c n] by (simp add: is_digit_def)
  then have "(of_char c :: nat) \<in> set [48..<58]" by (simp only: set_upt)
  moreover have "\<forall>n \<in> set [48..<58]. (char_of (n :: nat) :: char) \<in> set number_chars" by code_simp
  ultimately have "(char_of (of_char c :: nat) :: char) \<in> set number_chars" by blast
  then show ?thesis by simp
qed

lemma decimal_no_sign: "CHR ''-'' \<notin> set (to_decimal n)" "CHR ''.'' \<notin> set (to_decimal n)"
  using to_decimal_digits [of "CHR ''-''" n] to_decimal_digits [of "CHR ''.''" n] by (auto simp: is_digit_def)

lemma ref_number_text:
  "ref_to_string (JNumber n) \<noteq> [] \<and> set (ref_to_string (JNumber n)) \<subseteq> set number_chars"
  by (cases n) (auto dest: decimal_number_chars simp: number_chars_def)

lemma ref_number_inject: "ref_to_string (JNumber n) = ref_to_string (JNumber n') \<Longrightarrow> n = n'"
proof -
  have "CHR ''-'' # s \<noteq> to_decimal k" "CHR ''-'' # s \<noteq> to_decimal k @ ''.0''"
    "to_decimal j @ ''.0'' \<noteq> to_decimal k" for s k j
  proof -
    show "CHR ''-'' # s \<noteq> to_decimal k" using decimal_no_sign(1) [of k] by (metis list.set_intros(1))
    show "to_decimal j @ ''.0'' \<noteq> to_decimal k"
      using decimal_no_sign(2) [of k] by (metis in_set_conv_decomp)
    show "CHR ''-'' # s \<noteq> to_decimal k @ ''.0''"
      using decimal_no_sign(1) [of k] to_decimal_not_Nil [of k] by (metis Cons_eq_append_conv list.set_intros(1))
  qed
  note a = this this [symmetric]
  show "ref_to_string (JNumber n) = ref_to_string (JNumber n') \<Longrightarrow> n = n'"
    by (cases n; cases n') (simp_all add: a word_unat_eq_iff [symmetric])
qed

lemma ref_string_reads:
  assumes "ref_to_string (JString s) @ x = ref_to_string (JString s') @ y"
  shows "s = s' \<and> x = y"
proof -
  have "escape s @ CHR 0x22 # x = escape s' @ CHR 0x22 # y" using assms by simp
  then have "Some (s, x) = Some (s', y)" using unquote_escape by metis
  then show ?thesis by simp
qed

lemma ref_json_lexical: "json_lexical ref_to_string"
  unfolding json_lexical_def
proof (intro conjI allI impI)
  show "s = s'" "x = y" if "ref_to_string (JString s) @ x = ref_to_string (JString s') @ y" for s s' x y
    using ref_string_reads [OF that] by simp_all
qed (simp_all add: ref_number_text ref_number_inject)

section \<open>The parser reads what the printer writes\<close>

lemma number_char_not_delimiter: "delimited x \<Longrightarrow> x = [] \<or> \<not> is_number_char (hd x)"
  using delimited_not_number by (auto simp: is_number_char_def)

lemma number_span:
  assumes "\<forall>c \<in> set t. is_number_char c" "delimited x"
  shows "takeWhile is_number_char (t @ x) = t" "dropWhile is_number_char (t @ x) = x"
  using assms number_char_not_delimiter [of x]
  by (simp_all add: takeWhile_append dropWhile_append) (cases x; simp)+

lemma parse_number:
  assumes "delimited x" "\<forall>b. n \<noteq> Float b"
  shows "parse_value (Suc k) (ref_to_string (JNumber n) @ x) = Some (JNumber n, x)"
proof -
  let ?t = "ref_to_string (JNumber n)"
  obtain c t where ct: "?t = c # t" using ref_number_text [of n] by (cases ?t) auto
  then have "c \<in> set number_chars" using ref_number_text [of n] by auto
  then have c: "c \<noteq> CHR ''n''" "c \<noteq> CHR ''t''" "c \<noteq> CHR ''f''" "c \<noteq> CHR 0x22" "c \<noteq> CHR ''[''" "c \<noteq> CHR ''{''"
    "is_number_char c"
    by (auto simp: number_chars_def is_number_char_def)
  have span: "takeWhile is_number_char (?t @ x) = ?t" "dropWhile is_number_char (?t @ x) = x"
    using ref_number_text [of n] assms(1) by (intro number_span; auto simp: is_number_char_def)+
  have read: "read_number ?t = n"
  proof (cases n)
    case (PosInt m)
    have "hd (to_decimal (unat m)) \<noteq> CHR ''-''"
      using decimal_no_sign(1) [of "unat m"] to_decimal_not_Nil by (metis list.set_sel(1))
    with PosInt show ?thesis by (simp add: read_number_def)
  next
    case (NegInt m)
    then show ?thesis by (simp add: read_number_def)
  qed (use assms in simp)
  have "parse_value (Suc k) (?t @ x) =
      Some (JNumber (read_number (takeWhile is_number_char (?t @ x))), dropWhile is_number_char (?t @ x))"
    unfolding ct using c by (simp del: takeWhile.simps dropWhile.simps)
  with span read show ?thesis by simp
qed

lemma parse_step_start:
  assumes "hd s \<notin> set ''ntf''" "s \<noteq> []"
  shows "take 4 s \<noteq> ''null''" "take 4 s \<noteq> ''true''" "take 5 s \<noteq> ''false''"
  using assms by (cases s; auto)+

lemma render_hd_ref: "ref_to_string JNull = ''null''"
  by simp

definition parses_back :: "nat \<Rightarrow> json \<Rightarrow> bool" where
  "parses_back n v \<longleftrightarrow>
     (\<forall>x. delimited x \<longrightarrow> parse_value n (json_render ref_to_string v @ x) = Some (v, x))"

lemma parse_items_render:
  assumes "vs \<noteq> []" "\<forall>v \<in> set vs. \<forall>n. length (json_render ref_to_string v) < n \<longrightarrow> parses_back n v"
    and "length (join '','' (map (json_render ref_to_string) vs)) + 1 < n"
  shows "parse_items n (join '','' (map (json_render ref_to_string) vs) @ CHR '']'' # x) = Some (vs, x)"
  using assms
proof (induction vs arbitrary: n)
  case Nil
  then show ?case by simp
next
  case (Cons v vs)
  let ?r = "json_render ref_to_string"
  obtain k where n: "n = Suc k" using Cons.prems(3) by (cases n) auto
  have v: "parses_back k v"
    using Cons.prems(2,3) n by (auto simp: join_Cons)
  show ?case
  proof (cases "vs = []")
    case True
    with v show ?thesis by (simp add: n parses_back_def)
  next
    case False
    have "parse_items k (join '','' (map ?r vs) @ CHR '']'' # x) = Some (vs, x)"
      using Cons.prems(2,3) n False by (intro Cons.IH) (auto simp: join_Cons)
    with v False show ?thesis
      by (simp add: n parses_back_def join_Cons)
  qed
qed

lemma parse_members_render:
  defines "entry \<equiv> \<lambda>(k, v). ref_to_string (JString k) @ '':'' @ json_render ref_to_string v"
  assumes "m \<noteq> []" "\<forall>(k, v) \<in> set m. \<forall>n. length (json_render ref_to_string v) < n \<longrightarrow> parses_back n v"
    and "length (join '','' (map entry m)) + 1 < n"
  shows "parse_members n (join '','' (map entry m) @ CHR ''}'' # x) = Some (m, x)"
  using assms(2-4)
proof (induction m arbitrary: n)
  case Nil
  then show ?case by simp
next
  case (Cons e m)
  obtain key v where e: "e = (key, v)" by (cases e)
  obtain k where n: "n = Suc k" using Cons.prems(3) by (cases n) auto
  have v: "parses_back k v"
    using Cons.prems(2,3) n e by (auto simp: join_Cons entry_def)
  show ?case
  proof (cases "m = []")
    case True
    with v show ?thesis by (simp add: n e entry_def parses_back_def unquote_escape)
  next
    case False
    have "parse_members k (join '','' (map entry m) @ CHR ''}'' # x) = Some (m, x)"
      using Cons.prems(2,3) n False by (intro Cons.IH) (auto simp: join_Cons)
    with v False show ?thesis
      by (simp add: n e entry_def parses_back_def join_Cons unquote_escape)
  qed
qed

lemma join_Nil_iff: "(\<And>a. a \<in> set as \<Longrightarrow> f a \<noteq> []) \<Longrightarrow> join '','' (map f as) = [] \<longleftrightarrow> as = []"
  by (cases as) (auto simp: join_Cons)

lemma hd_join: "as \<noteq> [] \<Longrightarrow> f (hd as) \<noteq> [] \<Longrightarrow> hd (join '','' (map f as) @ x) = hd (f (hd as))"
  by (cases as) (auto simp: join_Cons)

lemma parse_value_render:
  "json_strings_ok v \<Longrightarrow> json_integral v \<Longrightarrow> length (json_render ref_to_string v) < n \<Longrightarrow> parses_back n v"
proof (induction v arbitrary: n)
  case JNull
  then show ?case by (cases n) (simp_all add: parses_back_def)
next
  case (JBool b)
  then show ?case by (cases n) (simp_all add: parses_back_def)
next
  case (JNumber m)
  then obtain k where "n = Suc k" by (cases n) auto
  moreover have "\<forall>b. m \<noteq> Float b" using JNumber.prems(2) by (cases m) auto
  ultimately show ?case by (simp add: parses_back_def parse_number del: parse_value.simps ref_to_string.simps)
next
  case (JString s)
  then show ?case by (cases n) (simp_all add: parses_back_def unquote_escape)
next
  case (JArray vs)
  then obtain k where n: "n = Suc k" by (cases n) auto
  show ?case
  proof (cases "vs = []")
    case True
    then show ?thesis by (simp add: parses_back_def n)
  next
    case False
    let ?j = "join '','' (map (json_render ref_to_string) vs)"
    have items: "parse_items k (?j @ CHR '']'' # x) = Some (vs, x)" for x
      using JArray False n by (intro parse_items_render) auto
    have "json_strings_ok (hd vs)" using JArray.prems(1) False by simp
    then have "hd (?j @ CHR '']'' # x) \<noteq> CHR '']''" for x
      using False json_render_start [OF ref_json_lexical, of "hd vs"] by (subst hd_join) auto
    with items show ?thesis by (simp add: parses_back_def n)
  qed
next
  case (JObject m)
  then obtain k where n: "n = Suc k" by (cases n) auto
  show ?case
  proof (cases "m = []")
    case True
    then show ?thesis by (simp add: parses_back_def n)
  next
    case False
    let ?f = "\<lambda>(k, v). ref_to_string (JString k) @ '':'' @ json_render ref_to_string v"
    let ?j = "join '','' (map ?f m)"
    have "\<forall>(k, v) \<in> set m. \<forall>n. length (json_render ref_to_string v) < n \<longrightarrow> parses_back n v"
      using JObject.IH JObject.prems(1,2) by (fastforce simp: snds.simps)
    then have items: "parse_members k (?j @ CHR ''}'' # x) = Some (m, x)" for x
      using JObject.prems(3) False n by (intro parse_members_render) auto
    have "hd (?j @ CHR ''}'' # x) \<noteq> CHR ''}''" for x
      using False by (subst hd_join) (auto split: prod.splits)
    with items show ?thesis by (simp add: parses_back_def n)
  qed
qed

section \<open>The instance\<close>

definition pad_to :: "nat \<Rightarrow> bytes \<Rightarrow> bytes" where
  "pad_to n bs = take n (bs @ replicate n (CHR 0x00))"

definition ref_crates :: "(bytes, bytes) crates" where
  "ref_crates =
     \<lparr>b64_encode = ref_b64_encode, b64_decode = ref_b64_decode,
      hex_encode = ref_hex_encode, hex_decode = ref_hex_decode,
      sha256 = (\<lambda>bs. bs), json_to_string = ref_to_string, json_read = ref_read,
      ed_sign = (\<lambda>k m. pad_to 64 (k @ m)), ed_public = (\<lambda>k. k),
      ed_verify = (\<lambda>k m s. if s = pad_to 64 (k @ m) then Inr () else Inl ''signature error'')\<rparr>"

lemma ref_lexical: "json_lexical (json_to_string ref_crates)"
  by (simp add: ref_crates_def ref_json_lexical)

lemma ref_hex_laws: "hex_laws ref_crates"
  by (simp add: hex_laws_def ref_crates_def ref_hex_roundtrip ref_hex_digits del: set_simps)

lemma ref_b64_laws: "b64_laws ref_crates"
  by (simp add: b64_laws_def ref_crates_def ref_b64_roundtrip ref_b64_text)

lemma ref_json_parses: "json_parses ref_crates"
proof -
  have "ref_read (json_render ref_to_string v) = Inr v"
    if "json_strings_ok v" "json_integral v" for v
  proof -
    have "parses_back (Suc (length (json_render ref_to_string v))) v"
      using that by (rule parse_value_render) simp
    then have "parse_value (Suc (length (json_render ref_to_string v))) (json_render ref_to_string v @ []) = Some (v, [])"
      unfolding parses_back_def using delimited_simps(1) by blast
    then show ?thesis by (simp only: ref_read_def append_Nil2 option.case prod.case list.case)
  qed
  then show ?thesis by (simp add: json_parses_def ref_crates_def)
qed

lemma ref_crate_laws: "crate_laws ref_crates"
proof -
  have "length (pad_to n bs) = n" for n bs by (simp add: pad_to_def)
  then have "ed_laws ref_crates" by (simp add: ed_laws_def ref_crates_def)
  then show ?thesis
    by (simp add: crate_laws_def ref_b64_laws ref_hex_laws ref_json_parses)
qed

end
