(* ===== verification/Witnesses.thy ===== *)
theory Witnesses
  imports Emitter Samples Chain Reference_Crates
begin

text \<open>
  The properties of the signing pipeline at concrete inputs: the crate functions are those of
  \<open>Reference_Crates\<close>, the record is one the emitter assembles, and the proxy has seen one request.
\<close>

section \<open>A record that can be signed\<close>

definition demo_identity :: emitter_identity where
  "demo_identity = \<lparr>id_trace_id = ''trace-1'', id_agent_id = ''agent-1'', id_key_id = ''key-1''\<rparr>"

definition demo_record :: aep_record where
  "demo_record = assembled_record [sample_evidence ''a''] demo_identity 7"

definition demo_sealed :: aep_record where
  "demo_sealed = sealed ref_crates demo_record ''seed'' ''key-1''"

lemma demo_evidence_plain: "evidence_plain (sample_evidence ''a'')"
  by (simp add: evidence_plain_def sample_evidence_def build_evidence_def action_strings_def action_extras_def
      utf8_valid_literal)

lemma demo_identity_ok: "identity_ok demo_identity"
  by (simp add: identity_ok_def demo_identity_def utf8_valid_literal)

lemma demo_signable: "dsse_signable ref_crates demo_record"
  unfolding demo_record_def
  by (rule assembled_signable) (simp_all add: ref_crate_laws demo_evidence_plain demo_identity_ok)

lemma demo_signs: "sign_record_dsse ref_crates demo_record ''seed'' ''key-1'' = (demo_sealed, Ok ())"
  by (simp add: sign_cases demo_sealed_def) (simp add: demo_record_def)

lemma demo_sealed_run_id: "run_id demo_sealed = ''gw-trace-1''"
  by (simp add: demo_sealed_def demo_record_def demo_identity_def)

lemma demo_record_run_id: "run_id demo_record = ''gw-trace-1''"
  by (simp add: demo_record_def demo_identity_def)

section \<open>Canonical JSON\<close>

theorem canonical_json_injective_witness:
  "canonical_json ref_crates (JArray [JNull]) \<noteq> canonical_json ref_crates (JObject [(''a'', JNull)])"
  using canonical_json_injective [OF ref_lexical, of "JArray [JNull]" "JObject [(''a'', JNull)]"]
  by (simp add: map_ok_def utf8_valid_literal)

theorem canonical_json_parses_back_witness:
  "json_from_slice ref_crates (canonical_json ref_crates (JObject [(''a'', JArray [JString ''x'', JNumber (PosInt 5)])]))
     = Inr (JObject [(''a'', JArray [JString ''x'', JNumber (PosInt 5)])])"
  by (rule canonical_json_parses_back)
    (simp_all add: ref_json_parses map_ok_def utf8_valid_literal json_depth_limit_def)

lemma canonical_json_ascii_keys_witness:
  "canonical_json ref_crates (JObject [(''a'', JBool True), (''b'', JNull)]) = ''{\"a\":true,\"b\":null}''"
  using canonical_json_ascii_keys [of "JObject [(''a'', JBool True), (''b'', JNull)]" ref_crates]
  by (simp add: map_ok_def utf8_valid_literal ascii_def ref_crates_def less_char_def)

section \<open>Signing and verification\<close>

theorem sign_then_verify_witness:
  "verify_record_dsse ref_crates demo_sealed (ed_public ref_crates ''seed'') = Ok ()"
  by (rule sign_then_verify [OF demo_signable demo_signs])

theorem verify_moved_envelope_witness:
  "verify_record_dsse ref_crates (demo_sealed\<lparr>run_id := ''gw-other''\<rparr>) (ed_public ref_crates ''seed'') =
     Err (SubjectNameMismatch ''urn:wasmagent:run:gw-other'' ''urn:wasmagent:run:gw-trace-1'')"
  using verify_moved_envelope [OF demo_signable demo_signs, of "demo_sealed\<lparr>run_id := ''gw-other''\<rparr>"]
  by (simp add: demo_record_run_id run_urn_def)

theorem signed_payload_statement_witness:
  "\<exists>env body stmt. dsse_envelope demo_sealed = Some env \<and> b64_decode ref_crates (payload env) = Inr body \<and>
     json_from_slice ref_crates body = Inr stmt \<and>
     json_index stmt ''_type'' = JString ''https://in-toto.io/Statement/v1''"
  using signed_payload_statement [OF demo_signable demo_signs] by (auto simp: IN_TOTO_STATEMENT_TYPE_def)

lemma lenient_decodes_variants_witness:
  "decode_base64_lenient ref_crates (b64_variant True True (encode_signature ref_crates [CHR 0xFB])) = Ok [CHR 0xFB]"
  by (rule lenient_decodes_variants [OF ref_b64_laws])

text \<open>The annotated sample of the repository, signed.\<close>

definition sample_sealed :: aep_record where
  "sample_sealed = sealed ref_crates annotated_record ''seed'' ''key-1''"

lemma sample_signs: "sign_record_dsse ref_crates annotated_record ''seed'' ''key-1'' = (sample_sealed, Ok ())"
  by (simp add: sign_cases sample_sealed_def samples_floor_sound)

lemma sample_sealed_ok: "record_ok sample_sealed" "record_flat sample_sealed"
proof -
  have "record_ok (strip_signing sample_sealed)"
    by (simp add: sample_sealed_def samples_ok)
  then show "record_ok sample_sealed" by simp
  show "record_flat sample_sealed"
    using samples_flat(2) by (simp add: sample_sealed_def sealed_def strip_signing_def record_flat_def)
qed

text \<open>The two records differ in their legacy signature only.\<close>

theorem envelope_binds_record_witness:
  "sample_sealed\<lparr>signature := signature (sample_sealed\<lparr>signature := Some \<lparr>alg = ''x'', key_id = ''k'', sig = ''s''\<rparr>\<rparr>)\<rparr>
     = sample_sealed\<lparr>signature := Some \<lparr>alg = ''x'', key_id = ''k'', sig = ''s''\<rparr>\<rparr>"
proof -
  let ?r = "sample_sealed\<lparr>signature := Some \<lparr>alg = ''x'', key_id = ''k'', sig = ''s''\<rparr>\<rparr>"
  have 1: "verify_record_dsse ref_crates sample_sealed (ed_public ref_crates ''seed'') = Ok ()"
    by (rule dsse.sign_verifies [OF samples_signable(2) [OF ref_crate_laws] sample_signs])
  then have 2: "verify_record_dsse ref_crates ?r (ed_public ref_crates ''seed'') = Ok ()"
    by (simp add: verify_record_dsse_def verify_envelope_def record_digest_def record_predicate_def)
  have ok: "record_ok ?r" "record_flat ?r"
    using sample_sealed_ok by (simp_all add: record_ok_def record_strings_def record_extras_def record_flat_def)
  have "canonical_json ref_crates (record_predicate sample_sealed) = canonical_json ref_crates (record_predicate ?r)"
    by (simp add: record_predicate_def)
  with envelope_binds_record [OF 1 2 _ ref_lexical ref_hex_laws sample_sealed_ok(1) ok(1)] ok(2) sample_sealed_ok(2)
  show ?thesis by simp
qed

section \<open>A chain of two records\<close>

definition chain_second :: aep_record where
  "chain_second = minimal_record\<lparr>run_id := ''run-2'',
     extra := [(''prev_record_hash'', JString (record_digest ref_crates annotated_record))]\<rparr>"

lemma chain_second_ok: "record_ok chain_second" "record_flat chain_second"
  using samples_ok(1) samples_flat(1) digest_valid [OF ref_hex_laws, of annotated_record]
  by (simp_all add: chain_second_def record_ok_def record_strings_def record_extras_def record_flat_def
      map_ok_def utf8_valid_literal sample_defs aep_record_names_def)

lemma chain_intact:
  assumes "strip_signing r = strip_signing annotated_record"
  shows "chain_status ref_crates [r, chain_second] = ''intact''"
  using record_digest_cong [OF assms, of ref_crates] prev_link_strip [OF assms]
  by (simp add: intact_iff links_to_def)
    (simp add: prev_link_def chain_second_def sample_defs)

theorem intact_chain_determined_by_last_witness:
  "map strip_signing [annotated_record, chain_second] = map strip_signing [sample_sealed, chain_second]"
proof (rule intact_chain_determined_by_last [where X = ref_crates])
  have same: "strip_signing sample_sealed = strip_signing annotated_record"
    by (simp add: sample_sealed_def)
  show "chain_status ref_crates [annotated_record, chain_second] = ''intact''"
    "chain_status ref_crates [sample_sealed, chain_second] = ''intact''"
    by (simp_all add: chain_intact same)
  show "inj_on (sha256 ref_crates)
     ((\<lambda>r. canonical_json ref_crates (record_predicate r)) `
      (set [annotated_record, chain_second] \<union> set [sample_sealed, chain_second]))"
    by (simp add: inj_on_def ref_crates_def)
qed (simp_all add: ref_lexical ref_hex_laws sample_sealed_ok chain_second_ok samples_ok samples_flat)

section \<open>Configuration and headers\<close>

lemma empty_signing_key_rejected_witness:
  "validate ref_crates (default_plugin_config\<lparr>signing_key_hex := Some []\<rparr>) = Err (SigningKeyLength 0)"
  by (rule empty_signing_key_rejected) (simp_all add: ref_crates_def default_plugin_config_def)

theorem classify_mcp_headers_silent_iff_witness:
  "\<nexists>u w. ''tools/list'' = u @ w \<and> eq_ignore_ascii_case u ''sk-''"
proof -
  have "length (utf8_encode r) \<le> 10" if "chars ''tools/list'' = u @ r @ v" for u r v
    using utf8_length_infix [of r u v] utf8_encode_chars [of "''tools/list''"]
    by (simp flip: that add: utf8_valid_literal)
  then have "\<not> 32 \<le> alnum_run ascii_tables ''tools/list''"
    unfolding alnum_run_ge_iff by fastforce
  then have "classify_mcp_headers ascii_tables (Some ''tools/list'') None = None"
    by (simp add: classify_mcp_headers_eq value_risk_def has_credential_prefix_def credential_prefixes_def
        lower_code_def min_high_entropy_len_def pii_in_name_def)
  then show ?thesis
    using classify_mcp_headers_silent_iff [of ascii_tables "Some ''tools/list''" None]
    by (simp add: credential_prefixes_def)
qed

section \<open>One exchange through the proxy\<close>

definition demo_host :: host where
  "demo_host = \<lparr>host_plugin_configuration = None, host_define_metric = (\<lambda>_. Some 3),
     host_current_time = Some 5000000,
     host_request_header = (\<lambda>k. if k = '':method'' then Some ''POST'' else None)\<rparr>"

definition demo_filter :: evidence_filter where
  "demo_filter =
     \<lparr>context_id = 2, flt_config = default_plugin_config,
      flt_buffer = \<lparr>entries = [], capacity = 1024, dropped_total = 0\<rparr>, flt_method = [], flt_path = [],
      flt_trace_id = None, flt_agent_id = None, flt_mcp_method = None, flt_mcp_name = None,
      flt_metrics = default_metrics\<rparr>"

definition demo_entry :: action_evidence where
  "demo_entry = captured_evidence ascii_tables demo_host (on_http_request_headers demo_host demo_filter)"

definition demo_handled :: evidence_filter where
  "demo_handled = fst (on_http_response_headers ascii_tables demo_host (on_http_request_headers demo_host demo_filter))"

definition demo_proxy :: proxy where
  "demo_proxy = \<lparr>proxy_root = root_new, contexts = [2 \<mapsto> demo_handled]\<rparr>"

lemma demo_host_ok: "host_ok demo_host"
  by (simp add: host_ok_def demo_host_def utf8_valid_literal)

lemma demo_entries: "entries (flt_buffer demo_handled) = [demo_entry]"
  by (simp add: demo_handled_def demo_entry_def response_eq buffer_push_def Let_def)
    (simp add: on_http_request_headers_def demo_filter_def)

lemma demo_create: "create_http_context 1024 root_new 2 = Ok demo_filter"
  by (simp add: create_http_context_Ok_iff root_new_def default_plugin_config_def demo_filter_def)

lemma demo_reachable: "proxy_reachable ref_crates ascii_tables demo_proxy"
proof -
  let ?R = "proxy_reachable ref_crates ascii_tables"
  have "?R (proxy_init\<lparr>contexts := (contexts proxy_init)(2 \<mapsto> demo_filter)\<rparr>)"
    by (rule proxy_reachable.step [OF proxy_reachable.start _ proxy_step.create [where room = 1024]])
      (simp_all add: proxy_init_eq demo_create)
  then have "?R \<lparr>proxy_root = root_new, contexts = [2 \<mapsto> demo_filter]\<rparr>"
    by (simp add: proxy_init_eq)
  from proxy_reachable.step [OF this _ proxy_step.request [of _ 2 demo_filter _ _ demo_host]]
  have "?R \<lparr>proxy_root = root_new, contexts = [2 \<mapsto> on_http_request_headers demo_host demo_filter]\<rparr>"
    by (simp add: demo_host_ok)
  from proxy_reachable.step [OF this _ proxy_step.response [where ctx = 2 and h = demo_host,
      OF _ prod.collapse [symmetric]]]
  show ?thesis by (simp add: demo_proxy_def demo_handled_def)
qed

lemma demo_live: "contexts demo_proxy 2 = Some demo_handled"
  by (simp add: demo_proxy_def)

theorem proxy_invariant_witness:
  "0 < max_evidence_buffer (root_config (proxy_root demo_proxy)) \<and>
   action_id demo_entry = ''ctx-2'' \<and> Validation \<le> act_recording_mode demo_entry"
proof -
  note inv = proxy_invariant [OF demo_reachable]
  have "to_decimal (unat (2 :: u32)) = ''2''" by code_simp
  then show ?thesis
    using inv [THEN conjunct2, THEN conjunct1] inv [THEN conjunct2, THEN conjunct2, rule_format, OF demo_live] demo_entries
    by simp
qed

lemma create_context_traps_iff_witness:
  "(create_http_context 1023 (proxy_root demo_proxy) 3 :: (unit, evidence_filter) outcome) = Panic"
  using create_context_traps_iff [OF demo_reachable, of 1023 3]
  by (simp add: demo_proxy_def root_new_def default_plugin_config_def)

theorem mutating_request_recorded_in_full_witness:
  "state_changing demo_entry \<and> act_recording_mode demo_entry = Full \<and> tool_name demo_entry = ''POST ''"
proof -
  have run: "on_http_response_headers ascii_tables demo_host (on_http_request_headers demo_host demo_filter) =
      (demo_handled, snd (on_http_response_headers ascii_tables demo_host (on_http_request_headers demo_host demo_filter)))"
    by (simp add: demo_handled_def)
  have post: "host_request_header demo_host '':method'' = Some ''POST''" "host_request_header demo_host '':path'' = None"
    by (simp_all add: demo_host_def)
  show ?thesis
    using mutating_request_recorded_in_full [OF post(1) _ run] demo_entries post(2) by (simp add: unwrap_or_def)
qed

lemma handle_responses_keeps_newest_witness:
  "dropped_total (flt_buffer (handle_responses ascii_tables [demo_host, demo_host] demo_filter)) = 0"
  using handle_responses_keeps_newest [of demo_filter ascii_tables "[demo_host, demo_host]"]
  by (simp add: demo_filter_def buffer_ok_def)

lemma captured_evidence_verifies_witness:
  "\<exists>r. assemble_and_sign ref_crates [demo_entry] demo_identity 9 ''seed'' = Ok r \<and>
     verify_record_dsse ref_crates r (ed_public ref_crates ''seed'') = Ok () \<and> actions r = [demo_entry]"
proof -
  have "trim (id_trace_id demo_identity) \<noteq> []"
    unfolding trim_Nil_iff demo_identity_def by (simp add: chars_ascii ascii_def is_whitespace_def)
  then show ?thesis
    using captured_evidence_verifies [OF demo_reachable demo_live ref_crate_laws demo_identity_ok, of 9 "''seed''"]
    by (simp add: demo_entries)
qed

end
