(* ===== verification/Test_Core.thy ===== *)
theory Test_Core
  imports Crates Recording Mcp_Headers Prov
begin

text \<open>
  The unit tests of \<open>recording.rs\<close>, \<open>mcp_headers.rs\<close> and \<open>prov.rs\<close> in \<open>crates/aep-core/src\<close>, one
  definition per test function, and that they pass on the model. An assertion is a conjunct, an
  \<open>expect\<close> a case distinction that is false otherwise.
\<close>

section \<open>Leaf texts\<close>

text \<open>
  \<open>serde_json\<close>'s text of the leaves the tests print: an unsigned number in decimal, a string of
  characters that need no escape between quotation marks (RFC 8259 section 7).
\<close>

definition unescaped :: "string \<Rightarrow> bool" where
  "unescaped s \<longleftrightarrow> (\<forall>c \<in> set s. 0x20 \<le> (of_char c :: nat) \<and> c \<noteq> CHR 0x22 \<and> c \<noteq> CHR 0x5C)"

definition json_prints :: "('sk, 'vk) crates \<Rightarrow> bool" where
  "json_prints X \<longleftrightarrow>
     (\<forall>n. json_to_string X (JNumber (PosInt n)) = to_decimal (unat n)) \<and>
     (\<forall>s. unescaped s \<longrightarrow> json_to_string X (JString s) = CHR 0x22 # s @ [CHR 0x22])"

section \<open>recording.rs\<close>

definition test_ctx :: "side_effect_class \<Rightarrow> risk_context" where
  "test_ctx c = \<lparr>was_vetted = False, has_consent_anomaly = False, taint_chain_length = 0, risk_class = c\<rparr>"

definition read_yields_validation :: bool where
  "read_yields_validation \<longleftrightarrow> mode (compile_recording_policy (test_ctx Read)) = Validation"

definition mutate_local_yields_delta :: bool where
  "mutate_local_yields_delta \<longleftrightarrow> mode (compile_recording_policy (test_ctx MutateLocal)) = Delta"

definition network_egress_yields_full :: bool where
  "network_egress_yields_full \<longleftrightarrow> mode (compile_recording_policy (test_ctx NetworkEgress)) = Full"

definition vetted_always_full :: bool where
  "vetted_always_full \<longleftrightarrow>
     (let c = test_ctx Read; c = c\<lparr>was_vetted := True\<rparr> in mode (compile_recording_policy c) = Full)"

definition consent_anomaly_always_full :: bool where
  "consent_anomaly_always_full \<longleftrightarrow>
     (let c = test_ctx Read; c = c\<lparr>has_consent_anomaly := True\<rparr> in mode (compile_recording_policy c) = Full)"

definition taint_with_read_class_stays_validation :: bool where
  "taint_with_read_class_stays_validation \<longleftrightarrow>
     (let c = test_ctx Read; c = c\<lparr>taint_chain_length := 3\<rparr>; policy = compile_recording_policy c
      in mode policy = Validation \<and> reason policy = ''read-only, no anomaly'')"

definition taint_with_mutate_local_escalates_to_full :: bool where
  "taint_with_mutate_local_escalates_to_full \<longleftrightarrow>
     (let c = test_ctx MutateLocal; c = c\<lparr>taint_chain_length := 1\<rparr> in mode (compile_recording_policy c) = Full)"

definition unknown_class_yields_full :: bool where
  "unknown_class_yields_full \<longleftrightarrow> mode (compile_recording_policy (test_ctx Unknown)) = Full"

definition risk_priority_order_vetted_beats_others :: bool where
  "risk_priority_order_vetted_beats_others \<longleftrightarrow>
     (let c = test_ctx MutateExternal; c = c\<lparr>was_vetted := True\<rparr>; c = c\<lparr>has_consent_anomaly := True\<rparr>;
          c = c\<lparr>taint_chain_length := 2\<rparr>
      in reason (compile_recording_policy c) = ''tool flagged by vetting'')"

text \<open>\<open>trim_matches\<close> of a character: dropped at both ends.\<close>

definition trim_char :: "char \<Rightarrow> string \<Rightarrow> string" where
  "trim_char c s = rev (dropWhile (\<lambda>d. d = c) (rev (dropWhile (\<lambda>d. d = c) s)))"

text \<open>The derived \<open>Serialize\<close> writes the name of the variant in snake case.\<close>

fun recording_mode_variant :: "recording_mode \<Rightarrow> string" where
  "recording_mode_variant Validation = ''validation''"
| "recording_mode_variant Delta = ''delta''"
| "recording_mode_variant Full = ''full''"

definition recording_mode_as_str_matches_serde :: "('sk, 'vk) crates \<Rightarrow> bool" where
  "recording_mode_as_str_matches_serde X \<longleftrightarrow>
     list_all (\<lambda>m. recording_mode_as_str m = trim_char CHR 0x22 (json_to_string X (JString (recording_mode_variant m))))
       [Validation, Delta, Full]"

lemma recording_tests_pass:
  "read_yields_validation" "mutate_local_yields_delta" "network_egress_yields_full" "vetted_always_full"
  "consent_anomaly_always_full" "taint_with_read_class_stays_validation"
  "taint_with_mutate_local_escalates_to_full" "unknown_class_yields_full"
  "risk_priority_order_vetted_beats_others"
  by (simp_all add: read_yields_validation_def mutate_local_yields_delta_def network_egress_yields_full_def
      vetted_always_full_def consent_anomaly_always_full_def taint_with_read_class_stays_validation_def
      taint_with_mutate_local_escalates_to_full_def unknown_class_yields_full_def
      risk_priority_order_vetted_beats_others_def test_ctx_def compile_recording_policy_def)

lemma recording_mode_as_str_matches_serde_passes: "json_prints X \<Longrightarrow> recording_mode_as_str_matches_serde X"
  by (simp add: recording_mode_as_str_matches_serde_def json_prints_def unescaped_def trim_char_def)

section \<open>mcp_headers.rs\<close>

definition classify_mcp_headers_detects_credential_prefix :: "unicode_tables \<Rightarrow> bool" where
  "classify_mcp_headers_detects_credential_prefix U \<longleftrightarrow>
     classify_mcp_headers U (Some ''ghp_abc123'') None = Some CredentialLeak \<and>
     classify_mcp_headers U (Some ''sk-abcdefghij'') None = Some CredentialLeak \<and>
     classify_mcp_headers U (Some ''Bearer token_here'') None = Some CredentialLeak"

definition classify_mcp_headers_detects_high_entropy :: "unicode_tables \<Rightarrow> bool" where
  "classify_mcp_headers_detects_high_entropy U \<longleftrightarrow>
     (let long_val = replicate 40 CHR ''a'' in
      classify_mcp_headers U None (Some long_val) = Some HighEntropyValue)"

definition classify_mcp_headers_detects_pii_in_name :: "unicode_tables \<Rightarrow> bool" where
  "classify_mcp_headers_detects_pii_in_name U \<longleftrightarrow>
     classify_mcp_headers U None (Some ''user@example.com'') = Some PiiLeak"

definition classify_mcp_headers_credential_prefix_case_insensitive :: "unicode_tables \<Rightarrow> bool" where
  "classify_mcp_headers_credential_prefix_case_insensitive U \<longleftrightarrow>
     classify_mcp_headers U (Some ''GHP_ABC123'') None = Some CredentialLeak \<and>
     classify_mcp_headers U (Some ''SK-abcdefghij'') None = Some CredentialLeak \<and>
     classify_mcp_headers U (Some ''TOKEN abc'') None = Some CredentialLeak"

definition classify_mcp_headers_high_entropy_boundary_is_thirty_two_chars :: "unicode_tables \<Rightarrow> bool" where
  "classify_mcp_headers_high_entropy_boundary_is_thirty_two_chars U \<longleftrightarrow>
     (let short = replicate 31 CHR ''a''; exact = replicate 32 CHR ''a'' in
      classify_mcp_headers U None (Some short) = None \<and>
      classify_mcp_headers U None (Some exact) = Some HighEntropyValue)"

definition classify_mcp_headers_credential_prefix_wins_over_other_risks :: "unicode_tables \<Rightarrow> bool" where
  "classify_mcp_headers_credential_prefix_wins_over_other_risks U \<longleftrightarrow>
     (let val = ''sk-'' @ replicate 40 CHR ''a'' in
      classify_mcp_headers U None (Some val) = Some CredentialLeak)"

definition classify_mcp_headers_clean_values_return_none :: "unicode_tables \<Rightarrow> bool" where
  "classify_mcp_headers_clean_values_return_none U \<longleftrightarrow>
     classify_mcp_headers U (Some ''tools/call'') (Some ''my_tool'') = None \<and>
     classify_mcp_headers U None None = None \<and>
     classify_mcp_headers U (Some ''tools/list'') None = None"

definition classify_mcp_headers_no_mcp_headers_returns_none :: "unicode_tables \<Rightarrow> bool" where
  "classify_mcp_headers_no_mcp_headers_returns_none U \<longleftrightarrow> classify_mcp_headers U None None = None"

definition classify_mcp_headers_partial_mcp_headers_benign_returns_none :: "unicode_tables \<Rightarrow> bool" where
  "classify_mcp_headers_partial_mcp_headers_benign_returns_none U \<longleftrightarrow>
     classify_mcp_headers U (Some ''tools/call'') None = None \<and>
     classify_mcp_headers U (Some ''resources/read'') None = None \<and>
     classify_mcp_headers U None (Some ''my_tool'') = None \<and>
     classify_mcp_headers U None (Some ''read_config'') = None"

definition classify_mcp_headers_partial_mcp_headers_leakage_detected :: "unicode_tables \<Rightarrow> bool" where
  "classify_mcp_headers_partial_mcp_headers_leakage_detected U \<longleftrightarrow>
     classify_mcp_headers U (Some ''ghp_abc123'') None = Some CredentialLeak \<and>
     classify_mcp_headers U None (Some ''user@example.com'') = Some PiiLeak"

definition classify_mcp_headers_complete_mcp_headers_benign_returns_none :: "unicode_tables \<Rightarrow> bool" where
  "classify_mcp_headers_complete_mcp_headers_benign_returns_none U \<longleftrightarrow>
     classify_mcp_headers U (Some ''tools/call'') (Some ''read_file'') = None \<and>
     classify_mcp_headers U (Some ''resources/read'') (Some ''my_resource'') = None"

definition classify_mcp_headers_complete_mcp_headers_leakage_in_method_detected :: "unicode_tables \<Rightarrow> bool" where
  "classify_mcp_headers_complete_mcp_headers_leakage_in_method_detected U \<longleftrightarrow>
     classify_mcp_headers U (Some ''sk-secretkey'') (Some ''read_file'') = Some CredentialLeak"

definition classify_mcp_headers_complete_mcp_headers_leakage_in_name_detected :: "unicode_tables \<Rightarrow> bool" where
  "classify_mcp_headers_complete_mcp_headers_leakage_in_name_detected U \<longleftrightarrow>
     classify_mcp_headers U (Some ''tools/call'') (Some ''admin@corp.io'') = Some PiiLeak"

text \<open>A short value has no long alphanumeric run, whatever the tables say.\<close>

lemma alnum_run_le_length:
  assumes "utf8_valid s"
  shows "alnum_run U s \<le> length s"
proof -
  obtain u r v where "chars s = u @ r @ v" "alnum_run U s \<le> length (utf8_encode r)"
    using alnum_run_ge_iff [of "alnum_run U s" U s] by auto
  moreover have "length (utf8_encode (chars s)) = length s"
    using assms by (simp add: utf8_encode_chars)
  ultimately show ?thesis using utf8_length_infix [of r u v] by simp
qed

lemma no_long_run: "ascii s \<Longrightarrow> length s < 32 \<Longrightarrow> \<not> 32 \<le> alnum_run U s"
  using alnum_run_le_length [OF utf8_valid_ascii, of s U] by simp

lemma run_of_letters: "n \<le> alnum_run U (replicate n CHR ''a'')"
proof -
  have "chars (replicate n CHR ''a'') = [] @ replicate n 97 @ []"
    by (simp add: chars_ascii ascii_def)
  moreover have "length (utf8_encode (replicate n 97)) = n"
    by (induction n) (simp_all add: utf8_encode1_ascii)
  moreover have "\<forall>c \<in> set (replicate n 97). is_alphanumeric U c"
    by (simp add: is_alphanumeric_def)
  ultimately show ?thesis
    unfolding alnum_run_ge_iff
    by (intro exI [of _ "[]"] exI [of _ "replicate n 97"]) simp
qed

lemmas classify_evals = classify_mcp_headers_eq value_risk_def has_credential_prefix_def credential_prefixes_def
  lower_code_def min_high_entropy_len_def pii_in_name_def no_long_run ascii_def

lemma mcp_header_tests_pass:
  "classify_mcp_headers_detects_credential_prefix U"
  "classify_mcp_headers_detects_pii_in_name U"
  "classify_mcp_headers_credential_prefix_case_insensitive U"
  "classify_mcp_headers_clean_values_return_none U"
  "classify_mcp_headers_no_mcp_headers_returns_none U"
  "classify_mcp_headers_partial_mcp_headers_benign_returns_none U"
  "classify_mcp_headers_partial_mcp_headers_leakage_detected U"
  "classify_mcp_headers_complete_mcp_headers_benign_returns_none U"
  "classify_mcp_headers_complete_mcp_headers_leakage_in_method_detected U"
  "classify_mcp_headers_complete_mcp_headers_leakage_in_name_detected U"
  by (simp_all add: classify_evals
      classify_mcp_headers_detects_credential_prefix_def classify_mcp_headers_detects_pii_in_name_def
      classify_mcp_headers_credential_prefix_case_insensitive_def classify_mcp_headers_clean_values_return_none_def
      classify_mcp_headers_no_mcp_headers_returns_none_def
      classify_mcp_headers_partial_mcp_headers_benign_returns_none_def
      classify_mcp_headers_partial_mcp_headers_leakage_detected_def
      classify_mcp_headers_complete_mcp_headers_benign_returns_none_def
      classify_mcp_headers_complete_mcp_headers_leakage_in_method_detected_def
      classify_mcp_headers_complete_mcp_headers_leakage_in_name_detected_def)

lemma mcp_header_entropy_tests_pass:
  "classify_mcp_headers_detects_high_entropy U"
  "classify_mcp_headers_high_entropy_boundary_is_thirty_two_chars U"
  "classify_mcp_headers_credential_prefix_wins_over_other_risks U"
proof -
  have plain: "\<not> has_credential_prefix (replicate (Suc (Suc n)) CHR ''a'')" for n
    by (simp add: has_credential_prefix_def credential_prefixes_def lower_code_def)
  have "value_risk U (replicate 40 CHR ''a'') = Some HighEntropyValue"
    "value_risk U (replicate 32 CHR ''a'') = Some HighEntropyValue"
    using run_of_letters [of 40 U] run_of_letters [of 32 U] plain [of 38] plain [of 30]
    by (simp_all add: value_risk_def min_high_entropy_len_def del: replicate.simps)
  moreover have "value_risk U (replicate 31 CHR ''a'') = None"
    using no_long_run [of "replicate 31 CHR ''a''" U] plain [of 29]
    by (simp add: value_risk_def min_high_entropy_len_def ascii_def del: replicate.simps)
  moreover have "value_risk U (''sk-'' @ s) = Some CredentialLeak" for s
    by (simp add: value_risk_def has_credential_prefix_def credential_prefixes_def lower_code_def)
  ultimately show "classify_mcp_headers_detects_high_entropy U"
    "classify_mcp_headers_high_entropy_boundary_is_thirty_two_chars U"
    "classify_mcp_headers_credential_prefix_wins_over_other_risks U"
    by (simp_all add: classify_mcp_headers_detects_high_entropy_def
        classify_mcp_headers_high_entropy_boundary_is_thirty_two_chars_def
        classify_mcp_headers_credential_prefix_wins_over_other_risks_def classify_mcp_headers_eq
        pii_in_name_def del: replicate.simps append.simps)
qed

section \<open>prov.rs\<close>

definition test_activity :: "string \<Rightarrow> string list \<Rightarrow> prov_activity" where
  "test_activity i us =
     \<lparr>activity_id = i, activity_label = i, used = us, generated = [], activity_timestamp_ms = 0\<rparr>"

definition test_entity :: "string \<Rightarrow> string option \<Rightarrow> prov_entity" where
  "test_entity i by_activity = \<lparr>entity_id = i, digest = None, generated_by = by_activity\<rparr>"

definition default_prov_graph :: prov_graph where
  "default_prov_graph = \<lparr>activities = fmempty, entities = fmempty, agents = fmempty\<rparr>"

definition test_graph :: "prov_activity list \<Rightarrow> prov_entity list \<Rightarrow> prov_graph" where
  "test_graph acts ents =
     (let g = default_prov_graph;
          g = foldl (\<lambda>g a. g\<lparr>activities := fmupd (activity_id a) a (activities g)\<rparr>) g acts
      in foldl (\<lambda>g e. g\<lparr>entities := fmupd (entity_id e) e (entities g)\<rparr>) g ents)"

definition ancestors_walks_generated_by_then_used_chain :: bool where
  "ancestors_walks_generated_by_then_used_chain \<longleftrightarrow>
     (let g = test_graph [test_activity ''act1'' [''output''], test_activity ''act2'' []]
            [test_entity ''input'' (Some ''act1''), test_entity ''output'' (Some ''act2'')]
      in ancestors g ''input'' = [''act1'', ''act2''])"

definition ancestors_returns_empty_for_unknown_or_root_entity :: bool where
  "ancestors_returns_empty_for_unknown_or_root_entity \<longleftrightarrow>
     (let g = test_graph [test_activity ''act1'' []] [test_entity ''root'' None]
      in ancestors g ''missing'' = [] \<and> ancestors g ''root'' = [])"

definition ancestors_deduplicates_shared_activities :: bool where
  "ancestors_deduplicates_shared_activities \<longleftrightarrow>
     (let g = test_graph [test_activity ''act1'' [''mid'']]
            [test_entity ''in-a'' (Some ''act1''), test_entity ''in-b'' (Some ''act1''), test_entity ''mid'' None]
      in ancestors g ''in-a'' = [''act1''] \<and> ancestors g ''in-b'' = [''act1''])"

definition ancestors_terminates_on_cyclic_graph :: bool where
  "ancestors_terminates_on_cyclic_graph \<longleftrightarrow>
     (let g = test_graph [test_activity ''act1'' [''out''], test_activity ''act2'' [''in'']]
            [test_entity ''in'' (Some ''act1''), test_entity ''out'' (Some ''act2'')];
          result = ancestors g ''in''
      in length result = 2 \<and> sort result = [''act1'', ''act2''])"

lemma prov_tests_pass:
  "ancestors_walks_generated_by_then_used_chain"
  "ancestors_returns_empty_for_unknown_or_root_entity"
  "ancestors_deduplicates_shared_activities"
  "ancestors_terminates_on_cyclic_graph"
  by (simp_all add: ancestors_walks_generated_by_then_used_chain_def
      ancestors_returns_empty_for_unknown_or_root_entity_def ancestors_deduplicates_shared_activities_def
      ancestors_terminates_on_cyclic_graph_def test_graph_def test_activity_def test_entity_def
      default_prov_graph_def ancestors_def walk_loop.simps visit_def)

end
