(* ===== verification/Test_Gateway.thy ===== *)
theory Test_Gateway
  imports Transport Test_Core
begin

text \<open>
  The unit tests of \<open>recorder.rs\<close>, \<open>config.rs\<close> and \<open>emitter.rs\<close> in
  \<open>crates/proxy-wasm-evidence/src\<close>, one definition per test function, and that they pass on the
  model.
\<close>

section \<open>recorder.rs: clock, classes and entries\<close>

text \<open>Distances from the Unix epoch, in nanoseconds.\<close>

definition unix_millis_converts_epoch_plus_duration :: bool where
  "unix_millis_converts_epoch_plus_duration \<longleftrightarrow>
     (let t = 1700000000123 * 1000000 in unix_millis t = 1700000000123)"

definition unix_millis_maps_pre_epoch_to_zero :: bool where
  "unix_millis_maps_pre_epoch_to_zero \<longleftrightarrow> unix_millis (- 1000000000) = 0 \<and> unix_millis 0 = 0"

definition test_risk :: "side_effect_class \<Rightarrow> risk_context" where
  "test_risk c = \<lparr>was_vetted = False, has_consent_anomaly = False, taint_chain_length = 0, risk_class = c\<rparr>"

definition classifies_read_methods :: "unicode_tables \<Rightarrow> bool" where
  "classifies_read_methods U \<longleftrightarrow>
     list_all (\<lambda>m. infer_side_effect_class U m ''/anything'' = Read) [''GET'', ''head'', ''OpTiOnS'']"

definition classifies_external_mutations :: "unicode_tables \<Rightarrow> bool" where
  "classifies_external_mutations U \<longleftrightarrow>
     infer_side_effect_class U ''POST'' ''/users'' = MutateExternal \<and>
     infer_side_effect_class U ''DELETE'' ''/users/42'' = MutateExternal"

definition classifies_network_egress_by_path :: "unicode_tables \<Rightarrow> bool" where
  "classifies_network_egress_by_path U \<longleftrightarrow>
     infer_side_effect_class U ''POST'' ''/network/peers'' = NetworkEgress \<and>
     infer_side_effect_class U ''PUT'' ''/v1/webhook/xyz'' = NetworkEgress"

definition classifies_unknown_methods :: "unicode_tables \<Rightarrow> bool" where
  "classifies_unknown_methods U \<longleftrightarrow>
     infer_side_effect_class U ''PROPFIND'' ''/'' = Unknown \<and> infer_side_effect_class U [] [] = Unknown"

definition mcp_method_tools_call_is_mutate_external :: "unicode_tables \<Rightarrow> bool" where
  "mcp_method_tools_call_is_mutate_external U \<longleftrightarrow>
     infer_side_effect_class_with_mcp U ''POST'' ''/mcp'' (Some ''tools/call'') = MutateExternal"

definition mcp_header_cannot_downgrade_http_risk :: "unicode_tables \<Rightarrow> bool" where
  "mcp_header_cannot_downgrade_http_risk U \<longleftrightarrow>
     list_all (\<lambda>op. infer_side_effect_class_with_mcp U ''POST'' ''/dangerous'' (Some op) \<in> {MutateExternal, NetworkEgress})
       [''tools/list'', ''resources/read'', ''prompts/get''] \<and>
     infer_side_effect_class_with_mcp U ''DELETE'' ''/items/1'' (Some ''resources/read'') = MutateExternal \<and>
     infer_side_effect_class_with_mcp U ''GET'' ''/safe'' (Some ''tools/call'') = MutateExternal \<and>
     infer_side_effect_class_with_mcp U ''POST'' ''/network/export'' (Some ''tools/list'') = NetworkEgress"

definition mcp_method_tools_list_is_read_on_safe_http :: "unicode_tables \<Rightarrow> bool" where
  "mcp_method_tools_list_is_read_on_safe_http U \<longleftrightarrow>
     infer_side_effect_class_with_mcp U ''GET'' ''/mcp'' (Some ''tools/list'') = Read"

definition mcp_method_unknown_op_cannot_lower_http_verdict :: "unicode_tables \<Rightarrow> bool" where
  "mcp_method_unknown_op_cannot_lower_http_verdict U \<longleftrightarrow>
     infer_side_effect_class_with_mcp U ''POST'' ''/mcp'' (Some ''custom/operation'') = MutateExternal"

definition build_evidence_marks_reads_as_non_state_changing :: bool where
  "build_evidence_marks_reads_as_non_state_changing \<longleftrightarrow>
     (let ev = build_evidence ''ctx-1'' ''GET /x'' (test_risk Read) 1700000000000 None None
      in \<not> state_changing ev \<and> act_recording_mode ev = Validation \<and> action_id ev = ''ctx-1'' \<and>
         tool_name ev = ''GET /x'' \<and> timestamp_ms ev = 1700000000000 \<and> precondition_digest ev = None \<and>
         result_digest ev = None \<and> act_capability_decision ev = None \<and> act_mcp_header_risk ev = None)"

definition build_evidence_marks_external_mutation_as_state_changing_and_full :: bool where
  "build_evidence_marks_external_mutation_as_state_changing_and_full \<longleftrightarrow>
     (let dgst = ''sha256:abc'';
          ev = build_evidence ''ctx-2'' ''POST /payments'' (test_risk MutateExternal) 42 (Some dgst) None
      in state_changing ev \<and> act_recording_mode ev = Full \<and> precondition_digest ev = Some dgst \<and>
         act_mcp_header_risk ev = None)"

definition build_evidence_assigns_mcp_header_risk :: bool where
  "build_evidence_assigns_mcp_header_risk \<longleftrightarrow>
     (let ev = build_evidence ''ctx-3'' ''POST /mcp'' (test_risk MutateExternal) 100 None (Some CredentialLeak);
          ev2 = build_evidence ''ctx-4'' ''GET /safe'' (test_risk Read) 200 None (Some PiiLeak)
      in act_mcp_header_risk ev = Some ''credential_leak'' \<and> act_mcp_header_risk ev2 = Some ''pii_leak'')"

lemma recorder_tests_pass:
  "unix_millis_converts_epoch_plus_duration" "unix_millis_maps_pre_epoch_to_zero"
  "build_evidence_marks_reads_as_non_state_changing"
  "build_evidence_marks_external_mutation_as_state_changing_and_full"
  "build_evidence_assigns_mcp_header_risk"
  by (simp_all add: unix_millis_converts_epoch_plus_duration_def unix_millis_maps_pre_epoch_to_zero_def
      unix_millis_def unix_millis_checked_def build_evidence_marks_reads_as_non_state_changing_def
      build_evidence_marks_external_mutation_as_state_changing_and_full_def
      build_evidence_assigns_mcp_header_risk_def build_evidence_def test_risk_def compile_recording_policy_def)

lemmas class_evals = infer_side_effect_class_def infer_side_effect_class_with_mcp_def http_side_effect_class_def
  mcp_side_effect_class_def max_severity_def to_uppercase_ascii ascii_def starts_with_def char_of_def bit_0 Let_def

lemma recorder_class_tests_pass:
  "classifies_read_methods U" "classifies_external_mutations U" "classifies_network_egress_by_path U"
  "classifies_unknown_methods U" "mcp_method_tools_call_is_mutate_external U"
  "mcp_header_cannot_downgrade_http_risk U" "mcp_method_tools_list_is_read_on_safe_http U"
  "mcp_method_unknown_op_cannot_lower_http_verdict U"
  by (simp_all add: class_evals classifies_read_methods_def classifies_external_mutations_def
      classifies_network_egress_by_path_def classifies_unknown_methods_def
      mcp_method_tools_call_is_mutate_external_def mcp_header_cannot_downgrade_http_risk_def
      mcp_method_tools_list_is_read_on_safe_http_def mcp_method_unknown_op_cannot_lower_http_verdict_def)

section \<open>recorder.rs: the buffer\<close>

definition make_evidence :: "string \<Rightarrow> action_evidence" where
  "make_evidence i =
     \<lparr>action_id = i, tool_name = ''tool-'' @ i, state_changing = False, precondition_digest = None,
      result_digest = None, timestamp_ms = 1, parent_action_id = None, causal_chain_id = None,
      act_recording_mode = Validation, act_capability_decision = None, act_mcp_header_risk = None,
      act_side_effect_class = None, act_extra = []\<rparr>"

text \<open>
  The test process has a heap: \<open>room\<close> is what it can reserve at once, and the tests pass if that is
  at least the default capacity. The first test must panic.
\<close>

definition evidence_buffer_panics_on_zero_capacity :: "nat \<Rightarrow> bool" where
  "evidence_buffer_panics_on_zero_capacity room \<longleftrightarrow> (buffer_new room 0 :: (unit, evidence_buffer) outcome) = Panic"

definition evidence_buffer_with_defaults_has_capacity_1024 :: "nat \<Rightarrow> bool" where
  "evidence_buffer_with_defaults_has_capacity_1024 room \<longleftrightarrow>
     (case (buffer_with_defaults room :: (unit, evidence_buffer) outcome) of
        Ok buf \<Rightarrow> buffer_capacity buf = DEFAULT_EVIDENCE_BUFFER_CAPACITY \<and> buffer_is_empty buf \<and> buffer_len buf = 0
      | _ \<Rightarrow> False)"

definition evidence_buffer_default_has_capacity_1024 :: "nat \<Rightarrow> bool" where
  "evidence_buffer_default_has_capacity_1024 room \<longleftrightarrow>
     (case (buffer_default room :: (unit, evidence_buffer) outcome) of
        Ok buf \<Rightarrow> buffer_capacity buf = DEFAULT_EVIDENCE_BUFFER_CAPACITY \<and> buffer_is_empty buf
      | _ \<Rightarrow> False)"

definition evidence_buffer_push_without_overflow :: "nat \<Rightarrow> bool" where
  "evidence_buffer_push_without_overflow room \<longleftrightarrow>
     (case (buffer_new room 4 :: (unit, evidence_buffer) outcome) of
        Ok buf \<Rightarrow>
          (let (buf1, e1) = buffer_push (make_evidence ''a'') buf;
               (buf2, e2) = buffer_push (make_evidence ''b'') buf1
           in e1 = None \<and> buffer_len buf1 = 1 \<and> e2 = None \<and> buffer_len buf2 = 2)
      | _ \<Rightarrow> False)"

definition evidence_buffer_evicts_oldest_on_overflow :: "nat \<Rightarrow> bool" where
  "evidence_buffer_evicts_oldest_on_overflow room \<longleftrightarrow>
     (case (buffer_new room 2 :: (unit, evidence_buffer) outcome) of
        Ok buf \<Rightarrow>
          (let (buf1, e1) = buffer_push (make_evidence ''a'') buf;
               (buf2, e2) = buffer_push (make_evidence ''b'') buf1;
               (buf3, e3) = buffer_push (make_evidence ''c'') buf2;
               (buf4, e4) = buffer_push (make_evidence ''d'') buf3
           in e1 = None \<and> e2 = None \<and>
              map_option action_id e3 = Some ''a'' \<and> buffer_len buf3 = 2 \<and>
              map_option action_id e4 = Some ''b'' \<and> buffer_len buf4 = 2)
      | _ \<Rightarrow> False)"

definition evidence_buffer_drain_returns_all_entries :: "nat \<Rightarrow> bool" where
  "evidence_buffer_drain_returns_all_entries room \<longleftrightarrow>
     (case (buffer_new room 4 :: (unit, evidence_buffer) outcome) of
        Ok buf \<Rightarrow>
          (let buf = buffer_push_all buf [make_evidence ''a'', make_evidence ''b'', make_evidence ''c''];
               (buf, drained) = buffer_drain buf
           in length drained = 3 \<and> action_id (drained ! 0) = ''a'' \<and> action_id (drained ! 2) = ''c'' \<and>
              buffer_is_empty buf)
      | _ \<Rightarrow> False)"

definition evidence_buffer_drain_after_overflow :: "nat \<Rightarrow> bool" where
  "evidence_buffer_drain_after_overflow room \<longleftrightarrow>
     (case (buffer_new room 2 :: (unit, evidence_buffer) outcome) of
        Ok buf \<Rightarrow>
          (let buf = buffer_push_all buf [make_evidence ''a'', make_evidence ''b'', make_evidence ''c''];
               (buf, drained) = buffer_drain buf
           in length drained = 2 \<and> action_id (drained ! 0) = ''b'' \<and> action_id (drained ! 1) = ''c'')
      | _ \<Rightarrow> False)"

lemmas buffer_evals = buffer_new_def buffer_capacity_def buffer_push_def buffer_push_all_def buffer_drain_def buffer_len_def
  buffer_is_empty_def make_evidence_def

lemma buffer_tests_pass:
  assumes "1024 \<le> room"
  shows  "evidence_buffer_panics_on_zero_capacity room" "evidence_buffer_with_defaults_has_capacity_1024 room"
  "evidence_buffer_default_has_capacity_1024 room" "evidence_buffer_push_without_overflow room"
  "evidence_buffer_evicts_oldest_on_overflow room" "evidence_buffer_drain_returns_all_entries room"
  "evidence_buffer_drain_after_overflow room"
  using assms
  by (simp_all add: buffer_evals evidence_buffer_panics_on_zero_capacity_def
      evidence_buffer_with_defaults_has_capacity_1024_def evidence_buffer_default_has_capacity_1024_def
      evidence_buffer_push_without_overflow_def evidence_buffer_evicts_oldest_on_overflow_def
      evidence_buffer_drain_returns_all_entries_def evidence_buffer_drain_after_overflow_def
      buffer_default_def buffer_with_defaults_def DEFAULT_EVIDENCE_BUFFER_CAPACITY_def)

section \<open>config.rs\<close>

definition defaults_max_evidence_buffer_to_1024 :: bool where
  "defaults_max_evidence_buffer_to_1024 \<longleftrightarrow> max_evidence_buffer default_plugin_config = 1024"

text \<open>The raw string literals of the tests: each member on an indented line of its own.\<close>

definition config_line :: "string \<Rightarrow> string" where
  "config_line s = CHR 0x0A # replicate 16 CHR '' '' @ s"

definition quoted :: "string \<Rightarrow> string" where
  "quoted s = CHR 0x22 # s @ [CHR 0x22]"

definition config_text :: "string \<Rightarrow> string" where
  "config_text m =
     ''{'' @ config_line (quoted ''default_mode'' @ '': '' @ quoted m @ '','') @
     config_line (quoted ''key_id'' @ '': '' @ quoted ''gateway-key'' @ '','') @
     config_line (quoted ''trace_id_header'' @ '': '' @ quoted ''x-trace-id'' @ '','') @
     config_line (quoted ''agent_id_header'' @ '': '' @ quoted ''x-agent'')"

definition config_members :: "string \<Rightarrow> (string \<times> json) list" where
  "config_members m =
     [(''default_mode'', JString m), (''key_id'', JString ''gateway-key''),
      (''trace_id_header'', JString ''x-trace-id''), (''agent_id_header'', JString ''x-agent'')]"

definition config_end :: string where
  "config_end = CHR 0x0A # replicate 12 CHR '' '' @ ''}''"

definition reads_max_evidence_buffer_from_json :: "('sk, 'vk) crates \<Rightarrow> bool" where
  "reads_max_evidence_buffer_from_json X \<longleftrightarrow>
     (case config_from_slice X (config_text ''delta'' @ '','' @
             config_line (quoted ''max_evidence_buffer'' @ '': 64'') @ config_end) of
        Inr config \<Rightarrow> max_evidence_buffer config = 64
      | _ \<Rightarrow> False)"

definition defaults_max_evidence_buffer_when_json_omits_it :: "('sk, 'vk) crates \<Rightarrow> bool" where
  "defaults_max_evidence_buffer_when_json_omits_it X \<longleftrightarrow>
     (case config_from_slice X (config_text ''full'' @ config_end) of
        Inr config \<Rightarrow> max_evidence_buffer config = 1024
      | _ \<Rightarrow> False)"

definition validate_accepts_default_config :: "('sk, 'vk) crates \<Rightarrow> bool" where
  "validate_accepts_default_config X \<longleftrightarrow> validate X default_plugin_config = Ok ()"

text \<open>\<open>expect_err\<close>: the error text contains what the test looks for.\<close>

definition error_contains :: "('e \<Rightarrow> string) \<Rightarrow> ('e, 'a) outcome \<Rightarrow> string \<Rightarrow> bool" where
  "error_contains txt result p = (case result of Err e \<Rightarrow> str_contains (txt e) p | _ \<Rightarrow> False)"

definition validate_rejects_zero_evidence_buffer :: "('sk, 'vk) crates \<Rightarrow> bool" where
  "validate_rejects_zero_evidence_buffer X \<longleftrightarrow>
     (let config = default_plugin_config\<lparr>max_evidence_buffer := 0\<rparr>
      in error_contains config_error_text (validate X config) ''max_evidence_buffer'')"

definition validate_accepts_32_byte_hex_signing_key :: "('sk, 'vk) crates \<Rightarrow> bool" where
  "validate_accepts_32_byte_hex_signing_key X \<longleftrightarrow>
     (let config = default_plugin_config\<lparr>signing_key_hex := Some (concat (replicate 32 ''00''))\<rparr>
      in validate X config = Ok ())"

definition validate_rejects_non_hex_signing_key :: "('sk, 'vk) crates \<Rightarrow> bool" where
  "validate_rejects_non_hex_signing_key X \<longleftrightarrow>
     (let config = default_plugin_config\<lparr>signing_key_hex := Some ''<inject-at-deploy-time>''\<rparr>
      in error_contains config_error_text (validate X config) ''not valid hex'')"

definition validate_rejects_wrong_length_signing_key :: "('sk, 'vk) crates \<Rightarrow> bool" where
  "validate_rejects_wrong_length_signing_key X \<longleftrightarrow>
     (let config = default_plugin_config\<lparr>signing_key_hex := Some (concat (replicate 31 ''00''))\<rparr>
      in error_contains config_error_text (validate X config) ''32 bytes'')"

text \<open>The parser reads the members of the two texts; blanks between tokens say nothing.\<close>

lemma config_json_tests_pass:
  assumes "json_read X (config_text ''delta'' @ '','' @ config_line (quoted ''max_evidence_buffer'' @ '': 64'') @ config_end) =
      Inr (JObject (config_members ''delta'' @ [(''max_evidence_buffer'', json_u64 64)]))"
    and "json_read X (config_text ''full'' @ config_end) = Inr (JObject (config_members ''full''))"
  shows "reads_max_evidence_buffer_from_json X" "defaults_max_evidence_buffer_when_json_omits_it X"
  using assms
  by (simp_all add: reads_max_evidence_buffer_from_json_def defaults_max_evidence_buffer_when_json_omits_it_def
      config_from_slice_def from_slice_def plugin_config_from_json_def config_members_def field_def members_def
      recording_mode_from_json_def unit_variant_def string_from_json_def usize_from_json_def default_plugin_config_def)

lemma config_tests_pass:
  assumes "hex_decode X (concat (replicate 32 ''00'')) = Inr (replicate 32 (CHR 0x00))"
    and "hex_decode X (concat (replicate 31 ''00'')) = Inr (replicate 31 (CHR 0x00))"
    and "hex_decode X ''<inject-at-deploy-time>'' = Inl err"
  shows "defaults_max_evidence_buffer_to_1024" "validate_accepts_default_config X"
    "validate_rejects_zero_evidence_buffer X" "validate_accepts_32_byte_hex_signing_key X"
    "validate_rejects_non_hex_signing_key X" "validate_rejects_wrong_length_signing_key X"
proof -
  have "str_contains (config_error_text (SigningKeyLength 31)) ''32 bytes''"
    by (simp add: starts_with_def)
  with assms show "defaults_max_evidence_buffer_to_1024" "validate_accepts_default_config X"
    "validate_rejects_zero_evidence_buffer X" "validate_accepts_32_byte_hex_signing_key X"
    "validate_rejects_non_hex_signing_key X" "validate_rejects_wrong_length_signing_key X"
    by (simp_all add: defaults_max_evidence_buffer_to_1024_def validate_accepts_default_config_def
        validate_rejects_zero_evidence_buffer_def validate_accepts_32_byte_hex_signing_key_def
        validate_rejects_non_hex_signing_key_def validate_rejects_wrong_length_signing_key_def
        validate_def default_plugin_config_def fail_if_def map_err_def error_contains_def starts_with_def
        del: replicate.simps)
qed

section \<open>emitter.rs\<close>

definition test_evidence :: "action_evidence list" where
  "test_evidence =
     [\<lparr>action_id = ''gw-act-1'', tool_name = ''POST /api/quote'', state_changing = True,
       precondition_digest = None, result_digest = Some ''sha256:abc'', timestamp_ms = 1700000000000,
       parent_action_id = None, causal_chain_id = None, act_recording_mode = Full,
       act_capability_decision = None, act_mcp_header_risk = None,
       act_side_effect_class = Some ''mutate-external'', act_extra = []\<rparr>]"

text \<open>The signing key of the tests, \<open>[7u8; 32]\<close>, is the argument \<open>signing_key\<close>.\<close>

definition signed_record_verifies_and_binds_identity :: "('sk, 'vk) crates \<Rightarrow> 'sk \<Rightarrow> bool" where
  "signed_record_verifies_and_binds_identity X signing_key \<longleftrightarrow>
     (let identity = \<lparr>id_trace_id = ''trace-abc'', id_agent_id = ''gateway-eu-1'', id_key_id = ''gw-key-1''\<rparr> in
      case assemble_and_sign X test_evidence identity 1700000000000 signing_key of
        Ok r \<Rightarrow>
          run_id r = ''gw-trace-abc'' \<and> trace_id r = Some ''trace-abc'' \<and>
          Option.bind (map_of (extra r) ''claimed_agent_id'') as_str = Some ''gateway-eu-1'' \<and>
          dsse_envelope r \<noteq> None \<and>
          verify_record_dsse X r (ed_public X signing_key) = Ok ()
      | _ \<Rightarrow> False)"

definition empty_evidence_fails_closed :: "('sk, 'vk) crates \<Rightarrow> 'sk \<Rightarrow> bool" where
  "empty_evidence_fails_closed X signing_key \<longleftrightarrow>
     (let identity = \<lparr>id_trace_id = ''t'', id_agent_id = ''a'', id_key_id = ''k''\<rparr>
      in error_contains emit_error_text (assemble_and_sign X [] identity 0 signing_key) ''no evidence captured'')"

definition empty_trace_id_fails_closed :: "('sk, 'vk) crates \<Rightarrow> 'sk \<Rightarrow> bool" where
  "empty_trace_id_fails_closed X signing_key \<longleftrightarrow>
     (let identity = \<lparr>id_trace_id = ''  '', id_agent_id = ''a'', id_key_id = ''k''\<rparr>
      in error_contains emit_error_text (assemble_and_sign X test_evidence identity 0 signing_key) ''trace_id'')"

definition is_err :: "('e, 'a) outcome \<Rightarrow> bool" where
  "is_err x \<longleftrightarrow> (case x of Err _ \<Rightarrow> True | _ \<Rightarrow> False)"

definition tampered_record_fails_verification :: "('sk, 'vk) crates \<Rightarrow> 'sk \<Rightarrow> bool" where
  "tampered_record_fails_verification X signing_key \<longleftrightarrow>
     (let identity = \<lparr>id_trace_id = ''trace-t'', id_agent_id = ''gateway-eu-1'', id_key_id = ''gw-key-1''\<rparr> in
      case assemble_and_sign X test_evidence identity 1700000000000 signing_key of
        Ok r \<Rightarrow> (let r = r\<lparr>run_id := ''run-tampered''\<rparr> in is_err (verify_record_dsse X r (ed_public X signing_key)))
      | _ \<Rightarrow> False)"

lemma test_evidence_plain: "\<forall>e \<in> set test_evidence. evidence_plain e"
  by (simp add: test_evidence_def evidence_plain_def action_strings_def action_extras_def utf8_valid_literal)

lemma trim_ascii_Nil_iff: "ascii s \<Longrightarrow> trim s = [] \<longleftrightarrow> (\<forall>c \<in> set s. is_whitespace (of_char c))"
  by (simp add: trim_Nil_iff chars_ascii)

lemma emitter_error_tests_pass: "empty_evidence_fails_closed X key" "empty_trace_id_fails_closed X key"
  by (simp_all add: empty_evidence_fails_closed_def empty_trace_id_fails_closed_def error_contains_def
      assemble_cases trim_ascii_Nil_iff ascii_def is_whitespace_def test_evidence_def starts_with_def)

lemma assembled_fields:
  assumes "assemble_and_sign X es i t key = Ok r"
  shows "run_id r = ''gw-'' @ id_trace_id i" "trace_id r = Some (id_trace_id i)" "dsse_envelope r \<noteq> None"
    "extra r = [(''claimed_agent_id'', JString (id_agent_id i)), (''identity_source'', JString ''self_asserted'')]"
proof -
  from assms have "r = sealed X (assembled_record es i t) key (id_key_id i)"
    by (simp add: assemble_cases split: if_splits)
  then show "run_id r = ''gw-'' @ id_trace_id i" "trace_id r = Some (id_trace_id i)" "dsse_envelope r \<noteq> None"
    "extra r = [(''claimed_agent_id'', JString (id_agent_id i)), (''identity_source'', JString ''self_asserted'')]"
    by (simp_all add: emitted_fields)
qed

lemma emitter_signing_tests_pass:
  assumes "crate_laws X"
  shows "signed_record_verifies_and_binds_identity X key" "tampered_record_fails_verification X key"
proof -
  let ?i = "\<lparr>id_trace_id = ''trace-abc'', id_agent_id = ''gateway-eu-1'', id_key_id = ''gw-key-1''\<rparr>"
  let ?j = "\<lparr>id_trace_id = ''trace-t'', id_agent_id = ''gateway-eu-1'', id_key_id = ''gw-key-1''\<rparr>"
  have trims: "trim ''trace-abc'' \<noteq> []" "trim ''trace-t'' \<noteq> []"
    by (simp_all add: trim_ascii_Nil_iff ascii_def is_whitespace_def)
  have some: "test_evidence \<noteq> []" by (simp add: test_evidence_def)
  have i: "dsse_signable X (assembled_record test_evidence ?i 1700000000000)"
    using assms test_evidence_plain by (intro assembled_signable) (simp_all add: identity_ok_def utf8_valid_literal)
  have j: "dsse_signable X (assembled_record test_evidence ?j 1700000000000)"
    using assms test_evidence_plain by (intro assembled_signable) (simp_all add: identity_ok_def utf8_valid_literal)
  obtain r where r: "assemble_and_sign X test_evidence ?i 1700000000000 key = Ok r"
    using some trims by (simp add: assemble_cases)
  from assemble_verifies [OF i r] assembled_fields [OF r] show "signed_record_verifies_and_binds_identity X key"
    by (simp add: signed_record_verifies_and_binds_identity_def r)
  obtain q where q: "assemble_and_sign X test_evidence ?j 1700000000000 key = Ok q"
    using some trims by (simp add: assemble_cases)
  have "is_err (verify_record_dsse X (q\<lparr>run_id := ''run-tampered''\<rparr>) (ed_public X key))"
    using envelope_bound_to_trace [OF j q, of "q\<lparr>run_id := ''run-tampered''\<rparr>"] by (simp add: is_err_def)
  then show "tampered_record_fails_verification X key"
    by (simp add: tampered_record_fails_verification_def q)
qed

end
