(* ===== verification/Test_Wire.thy ===== *)
theory Test_Wire
  imports Test_Gateway
begin

text \<open>
  The unit tests of \<open>evidence.rs\<close> and \<open>dsse.rs\<close> in \<open>crates/aep-core/src\<close>, one definition per
  test function, and that they pass on the model. What they print is compared character by
  character; quotation marks inside a text are written with \<open>quoted\<close>.
\<close>

section \<open>evidence.rs\<close>

definition schema_version_constant_is_in_canonical_enum :: bool where
  "schema_version_constant_is_in_canonical_enum \<longleftrightarrow> AEP_SCHEMA_VERSION = ''aep/v0.5''"

definition bare_record :: aep_record where
  "bare_record =
     \<lparr>schema_version = AEP_SCHEMA_VERSION, run_id = ''run-1'', trace_id = None, session_id = None,
      dsse_envelope = None, user_id = None, authorized_by = None, authority_origin = None,
      identity_source = None, attribution_backing = None, run_attribution_backing_floor = None,
      run_attribution_backing_observed = None, authorization_evidence_count = None,
      rec_side_effect_class_max = None, rec_recording_mode = None,
      actions =
        [\<lparr>action_id = ''act-1'', tool_name = ''GET /x'', state_changing = False,
          precondition_digest = None, result_digest = None, timestamp_ms = 1700000000000,
          parent_action_id = None, causal_chain_id = None, act_recording_mode = Validation,
          act_capability_decision = None, act_mcp_header_risk = None, act_side_effect_class = None,
          act_extra = []\<rparr>],
      created_at_ms = 1700000000000, signature = None, extra = []\<rparr>"

definition absent_optional_fields_are_omitted_not_null :: "('sk, 'vk) crates \<Rightarrow> bool" where
  "absent_optional_fields_are_omitted_not_null X \<longleftrightarrow>
     (let json = aep_record_to_string X bare_record in
      list_all (\<lambda>absent. \<not> str_contains json absent)
        [quoted ''trace_id'', quoted ''session_id'', quoted ''signature'', quoted ''precondition_digest'',
         quoted ''result_digest'', quoted ''parent_action_id'', quoted ''causal_chain_id'',
         quoted ''capability_decision'', quoted ''mcp_header_risk'', quoted ''side_effect_class'',
         quoted ''user_id'', quoted ''authorized_by'', quoted ''authority_origin'', quoted ''attribution_backing'',
         quoted ''run_attribution_backing_floor'', ''null''])"

definition full_record :: aep_record where
  "full_record =
     \<lparr>schema_version = AEP_SCHEMA_VERSION, run_id = ''run-2'', trace_id = Some ''trace-xyz'', session_id = None,
      dsse_envelope = None, user_id = Some ''user-dana@acme.example'', authorized_by = None,
      authority_origin = Some ''subject_consented'', identity_source = Some ''organization_attested'',
      attribution_backing = Some ''principal_key_signed'', run_attribution_backing_floor = Some ''operator_asserted'',
      run_attribution_backing_observed = Some [''operator_asserted'', ''principal_key_signed''],
      authorization_evidence_count = None,
      rec_side_effect_class_max = Some ''mutate-external'', rec_recording_mode = Some ''full'',
      actions =
        [\<lparr>action_id = ''act-2'', tool_name = ''POST /mcp'', state_changing = True,
          precondition_digest = Some ''sha256:pre'', result_digest = Some ''sha256:post'',
          timestamp_ms = 1700000000001, parent_action_id = None, causal_chain_id = Some ''chain-1'',
          act_recording_mode = Full, act_capability_decision = None,
          act_mcp_header_risk = Some (mcp_header_risk_as_str PiiLeak),
          act_side_effect_class = Some ''network-egress'', act_extra = []\<rparr>],
      created_at_ms = 1700000000001, signature = None, extra = []\<rparr>"

definition present_optional_fields_round_trip_after_omission_change :: "('sk, 'vk) crates \<Rightarrow> bool" where
  "present_optional_fields_round_trip_after_omission_change X \<longleftrightarrow>
     (let json = aep_record_to_string X full_record in
      str_contains json (quoted ''trace_id'' @ '':'' @ quoted ''trace-xyz'') \<and>
      str_contains json (quoted ''causal_chain_id'' @ '':'' @ quoted ''chain-1'') \<and>
      str_contains json (quoted ''authority_origin'' @ '':'' @ quoted ''subject_consented'') \<and>
      str_contains json (quoted ''run_attribution_backing_floor'' @ '':'' @ quoted ''operator_asserted'') \<and>
      str_contains json (quoted ''run_attribution_backing_observed'' @ '':['' @ quoted ''operator_asserted'' @
        '','' @ quoted ''principal_key_signed'' @ '']'') \<and>
      (case aep_record_from_slice X json of
         Inr decoded \<Rightarrow>
           trace_id decoded = Some ''trace-xyz'' \<and>
           precondition_digest (actions decoded ! 0) = Some ''sha256:pre'' \<and>
           act_mcp_header_risk (actions decoded ! 0) = Some ''pii_leak''
       | _ \<Rightarrow> False))"

definition mcp_header_risk_as_str_returns_snake_case_variant_name :: bool where
  "mcp_header_risk_as_str_returns_snake_case_variant_name \<longleftrightarrow>
     mcp_header_risk_as_str CredentialLeak = ''credential_leak'' \<and>
     mcp_header_risk_as_str HighEntropyValue = ''high_entropy_value'' \<and>
     mcp_header_risk_as_str PiiLeak = ''pii_leak''"

definition action_evidence_serializes_mcp_header_risk_as_snake_case_string :: bool where
  "action_evidence_serializes_mcp_header_risk_as_snake_case_string \<longleftrightarrow>
     (let evidence =
        \<lparr>action_id = ''action-1'', tool_name = ''POST /mcp'', state_changing = True,
         precondition_digest = None, result_digest = None, timestamp_ms = 1700000000000,
         parent_action_id = None, causal_chain_id = None, act_recording_mode = Full,
         act_capability_decision = None, act_mcp_header_risk = Some ''credential_leak'',
         act_side_effect_class = Some ''mutate-external'', act_extra = []\<rparr>;
          v = action_evidence_to_value evidence
      in json_index v ''mcp_header_risk'' = JString ''credential_leak'')"

definition risk_evidence :: action_evidence where
  "risk_evidence =
     \<lparr>action_id = ''action-rt'', tool_name = ''POST /mcp'', state_changing = True,
      precondition_digest = None, result_digest = None, timestamp_ms = 1700000000001,
      parent_action_id = None, causal_chain_id = None, act_recording_mode = Validation,
      act_capability_decision = None, act_mcp_header_risk = Some (mcp_header_risk_as_str HighEntropyValue),
      act_side_effect_class = Some ''network-egress'', act_extra = []\<rparr>"

definition action_evidence_mcp_header_risk_round_trips_as_plain_string :: "('sk, 'vk) crates \<Rightarrow> bool" where
  "action_evidence_mcp_header_risk_round_trips_as_plain_string X \<longleftrightarrow>
     (let json = action_evidence_to_string X risk_evidence in
      str_contains json (quoted ''mcp_header_risk'' @ '':'' @ quoted ''high_entropy_value'') \<and>
      (case from_slice action_evidence_from_json X json of
         Inr decoded \<Rightarrow> act_mcp_header_risk decoded = Some (mcp_header_risk_as_str HighEntropyValue)
       | _ \<Rightarrow> False))"

lemma evidence_plain_tests_pass:
  "schema_version_constant_is_in_canonical_enum" "mcp_header_risk_as_str_returns_snake_case_variant_name"
  "action_evidence_serializes_mcp_header_risk_as_snake_case_string"
  by (simp_all add: schema_version_constant_is_in_canonical_enum_def AEP_SCHEMA_VERSION_def
      mcp_header_risk_as_str_returns_snake_case_variant_name_def
      action_evidence_serializes_mcp_header_risk_as_snake_case_string_def action_evidence_to_value_def
      action_evidence_declared_def action_evidence_fields_def map_of_map_collect)

lemma decimal_stamps: "to_decimal 1700000000000 = ''1700000000000''" "to_decimal 1700000000001 = ''1700000000001''"
  by (simp_all add: to_decimal.simps digit_def char_of_def bit_0)

lemma render_u64 [simp]: "json_render ts (json_u64 n) = ts (json_u64 n)"
  by (simp add: json_u64_def)

lemma prints_simps:
  assumes "json_prints X" "json_lexical (json_to_string X)"
  shows "json_to_string X (json_u64 n) = to_decimal (unat n)"
    "unescaped s \<Longrightarrow> json_to_string X (JString s) = quoted s"
    "json_to_string X (JBool True) = ''true''" "json_to_string X (JBool False) = ''false''"
  using assms by (simp_all add: json_prints_def json_lexical_def json_u64_def quoted_def)

lemmas written_evals = aep_record_to_string_def aep_record_written_def aep_record_fields_def
  action_evidence_to_string_def action_evidence_written_def action_evidence_fields_def json_strings_def

lemma bare_text:
  assumes "json_prints X" "json_lexical (json_to_string X)"
  shows "aep_record_to_string X bare_record =
    ''{\"schema_version\":\"aep/v0.5\",\"run_id\":\"run-1\",\"actions\":[{\"action_id\":\"act-1\",\"t'' @
    ''ool_name\":\"GET /x\",\"state_changing\":false,\"timestamp_ms\":1700000000000,\"recording_mode'' @
    ''\":\"validation\"}],\"created_at_ms\":1700000000000}''"
  by (simp add: written_evals bare_record_def AEP_SCHEMA_VERSION_def prints_simps [OF assms] unescaped_def
      decimal_stamps quoted_def)

text \<open>Searching a text character by character; what is left of it is not looked at.\<close>

lemma search_simps:
  "str_contains [] (p # ps) = False"
  "c \<noteq> p \<Longrightarrow> str_contains (c # s) (p # ps) = str_contains s (p # ps)"
  "str_contains (p # s) (p # ps) = (if starts_with s ps then True else str_contains s (p # ps))"
  "starts_with s [] = True"
  "starts_with [] (p # ps) = False"
  "c \<noteq> p \<Longrightarrow> starts_with (c # s) (p # ps) = False"
  "starts_with (p # s) (p # ps) = starts_with s ps"
  by (auto simp: starts_with_def)

lemma search_cong: "str_contains s p = str_contains s p" "starts_with s p = starts_with s p"
  by simp_all

lemma absent_optional_fields_are_omitted_not_null_passes:
  assumes "json_prints X" "json_lexical (json_to_string X)"
  shows "absent_optional_fields_are_omitted_not_null X"
  unfolding absent_optional_fields_are_omitted_not_null_def Let_def bare_text [OF assms] quoted_def append.simps
    list.pred_inject
  by (simp add: search_simps del: str_contains.simps cong: search_cong)

lemma full_text:
  assumes "json_prints X" "json_lexical (json_to_string X)"
  shows "aep_record_to_string X full_record =
    ''{\"schema_version\":\"aep/v0.5\",\"run_id\":\"run-2\",\"trace_id\":\"trace-xyz\",\"user_id\":\"'' @
    ''user-dana@acme.example\",\"authority_origin\":\"subject_consented\",\"identity_source\":\"organ'' @
    ''ization_attested\",\"attribution_backing\":\"principal_key_signed\",\"run_attribution_backing_f'' @
    ''loor\":\"operator_asserted\",\"run_attribution_backing_observed\":[\"operator_asserted\",\"prin'' @
    ''cipal_key_signed\"],\"run_side_effect_class_max\":\"mutate-external\",\"recording_mode\":\"full'' @
    ''\",\"actions\":[{\"action_id\":\"act-2\",\"tool_name\":\"POST /mcp\",\"state_changing\":true,\"'' @
    ''precondition_digest\":\"sha256:pre\",\"result_digest\":\"sha256:post\",\"timestamp_ms\":1700000'' @
    ''000001,\"causal_chain_id\":\"chain-1\",\"recording_mode\":\"full\",\"mcp_header_risk\":\"pii_le'' @
    ''ak\",\"side_effect_class\":\"network-egress\"}],\"created_at_ms\":1700000000001}''"
  by (simp add: written_evals full_record_def AEP_SCHEMA_VERSION_def prints_simps [OF assms] unescaped_def
      decimal_stamps quoted_def)

lemma full_record_ok: "record_flat full_record" "wire_ok full_record" "record_extras full_record = []"
  by (simp_all add: record_flat_def action_flat_def wire_ok_def record_ok_def record_strings_def record_extras_def
      action_strings_def action_extras_def full_record_def AEP_SCHEMA_VERSION_def utf8_valid_literal)

lemma present_optional_fields_round_trip_after_omission_change_passes:
  assumes "json_prints X" "json_lexical (json_to_string X)" "json_parses X"
  shows "present_optional_fields_round_trip_after_omission_change X"
proof -
  have read: "aep_record_from_slice X (aep_record_to_string X full_record) = Inr full_record"
    using assms(3) full_record_ok by (intro record_text_back) simp_all
  have decoded: "trace_id full_record = Some ''trace-xyz''"
    "precondition_digest (actions full_record ! 0) = Some ''sha256:pre''"
    "act_mcp_header_risk (actions full_record ! 0) = Some ''pii_leak''"
    by (simp_all add: full_record_def)
  show ?thesis
    unfolding present_optional_fields_round_trip_after_omission_change_def Let_def read sum.case
    unfolding full_text [OF assms(1,2)] quoted_def append.simps
    by (simp add: search_simps decoded del: str_contains.simps cong: search_cong)
qed

lemma risk_text:
  assumes "json_prints X" "json_lexical (json_to_string X)"
  shows "action_evidence_to_string X risk_evidence =
    ''{\"action_id\":\"action-rt\",\"tool_name\":\"POST /mcp\",\"state_changing\":true,\"timestamp_ms'' @
    ''\":1700000000001,\"recording_mode\":\"validation\",\"mcp_header_risk\":\"high_entropy_value\",'' @
    ''\"side_effect_class\":\"network-egress\"}''"
  by (simp add: written_evals risk_evidence_def prints_simps [OF assms] unescaped_def decimal_stamps quoted_def)

lemma action_evidence_mcp_header_risk_round_trips_as_plain_string_passes:
  assumes "json_prints X" "json_lexical (json_to_string X)" "json_parses X"
  shows "action_evidence_mcp_header_risk_round_trips_as_plain_string X"
proof -
  have "action_flat risk_evidence" "\<forall>s \<in> set (action_strings risk_evidence). utf8_valid s" "action_extras risk_evidence = []"
    by (simp_all add: action_flat_def action_strings_def action_extras_def risk_evidence_def utf8_valid_literal)
  then have "json_strings_ok (action_evidence_written risk_evidence)"
    and again: "action_evidence_from_json (action_evidence_written risk_evidence) = Some risk_evidence"
    and "json_plain (Suc (Suc 0)) (action_evidence_written risk_evidence)"
    by (simp_all add: action_text_ok action_written_back action_written_plain)
  moreover from this(3) have "json_plain json_depth_limit (action_evidence_written risk_evidence)"
    by (rule json_plain_mono) (simp add: json_depth_limit_def)
  ultimately have "json_read X (action_evidence_to_string X risk_evidence) = Inr (action_evidence_written risk_evidence)"
    using assms(3) by (simp add: json_parses_def json_plain_def action_evidence_to_string_def)
  then have read: "from_slice action_evidence_from_json X (action_evidence_to_string X risk_evidence) = Inr risk_evidence"
    by (simp add: from_slice_def again)
  have risk: "act_mcp_header_risk risk_evidence = Some (mcp_header_risk_as_str HighEntropyValue)"
    by (simp add: risk_evidence_def)
  show ?thesis
    unfolding action_evidence_mcp_header_risk_round_trips_as_plain_string_def Let_def read sum.case
    unfolding risk_text [OF assms(1,2)] quoted_def append.simps
    by (simp add: search_simps risk del: str_contains.simps cong: search_cong)
qed

end
