(* ===== verification/Test_Dsse.thy ===== *)
theory Test_Dsse
  imports Test_Wire
begin

text \<open>
  The unit tests of \<open>crates/aep-core/src/dsse.rs\<close>, one definition per test function, and that
  they pass on the model. The signing keys of the tests are arguments.
\<close>

section \<open>Encodings\<close>

definition pae_matches_dsse_spec_layout :: bool where
  "pae_matches_dsse_spec_layout \<longleftrightarrow>
     (let pae = pae_encode ''application/vnd.in-toto+json'' ''hello'';
          expected = ''DSSEv1 28 application/vnd.in-toto+json 5 hello''
      in pae = expected)"

text \<open>Keys of the tests beyond ASCII.\<close>

definition u_10000 :: string where
  "u_10000 = [CHR 0xF0, CHR 0x90, CHR 0x80, CHR 0x80]"

definition u_FF21 :: string where
  "u_FF21 = [CHR 0xEF, CHR 0xBC, CHR 0xA1]"

definition n_tilde :: string where
  "n_tilde = [CHR 0xC3, CHR 0xB1]"

definition json_int :: "u64 \<Rightarrow> json" where
  "json_int n = JNumber (PosInt n)"

definition canonical_json_orders_keys_by_utf16_code_units_matching_js :: "('sk, 'vk) crates \<Rightarrow> bool" where
  "canonical_json_orders_keys_by_utf16_code_units_matching_js X \<longleftrightarrow>
     (let m = map_insert u_10000 (json_int 1) [];
          m = map_insert u_FF21 (json_int 2) m;
          m = map_insert ''a'' (json_int 3) m
      in canonical_json X (JObject m) =
         ''{'' @ quoted ''a'' @ '':3,'' @ quoted u_10000 @ '':1,'' @ quoted u_FF21 @ '':2}'')"

definition canonical_json_integer_keys_sort_as_strings :: "('sk, 'vk) crates \<Rightarrow> bool" where
  "canonical_json_integer_keys_sort_as_strings X \<longleftrightarrow>
     (let m = map_insert ''2'' (JString ''two'') [];
          m = map_insert ''10'' (JString ''ten'') m
      in canonical_json X (JObject m) =
         ''{'' @ quoted ''10'' @ '':'' @ quoted ''ten'' @ '','' @ quoted ''2'' @ '':'' @ quoted ''two'' @ ''}'')"

definition canonical_json_keeps_proto_key :: "('sk, 'vk) crates \<Rightarrow> bool" where
  "canonical_json_keeps_proto_key X \<longleftrightarrow>
     (let m = map_insert ''__proto__'' (JObject [(''x'', json_int 1)]) [];
          m = map_insert ''run_id'' (JString ''r1'') m
      in canonical_json X (JObject m) =
         ''{'' @ quoted ''__proto__'' @ '':{'' @ quoted ''x'' @ '':1},'' @ quoted ''run_id'' @ '':'' @ quoted ''r1'' @ ''}'')"

definition non_ascii_key_encoding_is_stable :: "('sk, 'vk) crates \<Rightarrow> bool" where
  "non_ascii_key_encoding_is_stable X \<longleftrightarrow>
     (let v1 = JObject (map_collect [(''b'', json_int 1), (''a'', json_int 2), (n_tilde, json_int 3)]);
          v2 = JObject (map_collect [(n_tilde, json_int 3), (''a'', json_int 2), (''b'', json_int 1)])
      in canonical_json X v1 = canonical_json X v2 \<and>
         canonical_json X v1 = ''{'' @ quoted ''a'' @ '':2,'' @ quoted ''b'' @ '':1,'' @ quoted n_tilde @ '':3}'')"

definition nested_objects_are_recursively_sorted :: "('sk, 'vk) crates \<Rightarrow> bool" where
  "nested_objects_are_recursively_sorted X \<longleftrightarrow>
     (let v = JObject (map_collect
            [(''z'', JObject (map_collect [(''b'', json_int 1), (''a'', json_int 2)])),
             (''a'', JArray [json_int 3, json_int 2, json_int 1])])
      in canonical_json X v =
         ''{'' @ quoted ''a'' @ '':[3,2,1],'' @ quoted ''z'' @ '':{'' @ quoted ''a'' @ '':2,'' @ quoted ''b'' @ '':1}}'')"

definition utf16_surrogate_pair_key_encodes_correctly :: "('sk, 'vk) crates \<Rightarrow> bool" where
  "utf16_surrogate_pair_key_encodes_correctly X \<longleftrightarrow>
     (let m = map_insert u_10000 (json_int 1) [];
          m = map_insert ''z'' (json_int 2) m;
          out = canonical_json X (JObject m)
      in starts_with out (''{'' @ quoted ''z'' @ '':2,'') \<and>
         (case json_from_slice X out of
            Inr (JObject reparsed) \<Rightarrow> map_of reparsed u_10000 \<noteq> None
          | _ \<Rightarrow> False))"

definition empty_object_and_array_round_trip :: "('sk, 'vk) crates \<Rightarrow> bool" where
  "empty_object_and_array_round_trip X \<longleftrightarrow>
     canonical_json X (JObject []) = ''{}'' \<and> canonical_json X (JArray []) = ''[]'' \<and>
     canonical_json X (JObject (map_collect [(''a'', JArray []), (''b'', JObject [])])) =
       ''{'' @ quoted ''a'' @ '':[],'' @ quoted ''b'' @ '':{}}''"

lemma u_keys:
  "u_10000 = utf8_encode [0x10000]" "u_FF21 = utf8_encode [0xFF21]" "n_tilde = utf8_encode [0xF1]"
  by (simp_all add: u_10000_def u_FF21_def n_tilde_def utf8_encode1_def char_of_def bit_0)

lemma utf16_keys:
  "encode_utf16 u_10000 = [0xD800, 0xDC00]" "encode_utf16 u_FF21 = [0xFF21]" "encode_utf16 n_tilde = [0xF1]"
  using utf8_decode_encode [of "[0x10000]"] utf8_decode_encode [of "[0xFF21]"] utf8_decode_encode [of "[0xF1]"]
  by (simp_all add: u_keys encode_utf16_def utf16_encode1_def chars_def unicode_scalar_def)

lemma unescaped_keys: "unescaped u_10000" "unescaped u_FF21" "unescaped n_tilde"
  by (simp_all add: unescaped_def u_10000_def u_FF21_def n_tilde_def)

lemma unescaped_simps:
  "unescaped []"
  "unescaped (c # s) \<longleftrightarrow> 0x20 \<le> (of_char c :: nat) \<and> c \<noteq> CHR 0x22 \<and> c \<noteq> CHR 0x5C \<and> unescaped s"
  by (auto simp: unescaped_def)

lemma key_order:
  "''a'' < u_10000" "''a'' < n_tilde" "''b'' < n_tilde" "u_FF21 < u_10000" "''z'' < u_10000"
  "\<not> u_10000 < u_FF21" "\<not> u_10000 < ''z''" "''a'' < u_FF21" "\<not> n_tilde < ''a''" "\<not> n_tilde < ''b''"
  "u_10000 \<noteq> u_FF21" "u_10000 \<noteq> ''z''" "u_FF21 \<noteq> u_10000" "n_tilde \<noteq> ''a''" "n_tilde \<noteq> ''b''"
  by (simp_all add: u_10000_def u_FF21_def n_tilde_def)

lemma small_decimals: "to_decimal (Suc 0) = ''1''" "to_decimal 2 = ''2''" "to_decimal 3 = ''3''"
  by (simp_all add: to_decimal.simps digit_def char_of_def bit_0)

lemma pae_test_passes: "pae_matches_dsse_spec_layout"
  by (simp add: pae_matches_dsse_spec_layout_def pae_encode_def to_decimal.simps digit_def char_of_def bit_0)

lemma canonical_json_tests_pass:
  assumes "json_prints X"
  shows "canonical_json_orders_keys_by_utf16_code_units_matching_js X" "canonical_json_integer_keys_sort_as_strings X"
    "canonical_json_keeps_proto_key X" "non_ascii_key_encoding_is_stable X" "nested_objects_are_recursively_sorted X"
    "empty_object_and_array_round_trip X"
proof -
  have p: "json_to_string X (json_int n) = to_decimal (unat n)"
    "unescaped s \<Longrightarrow> json_to_string X (JString s) = quoted s" for n s
    using assms by (simp_all add: json_prints_def json_int_def quoted_def)
  have leaf: "canonical_json_value ts (json_int n) = ts (json_int n)" for ts n
    by (simp add: json_int_def)
  note evals = canonical_json_def p leaf map_collect_def key_order compare_entries_def compare_utf16_def utf16_keys
    encode_utf16_ascii ascii_def unescaped_keys unescaped_simps small_decimals
  show "canonical_json_orders_keys_by_utf16_code_units_matching_js X"
    by (simp add: canonical_json_orders_keys_by_utf16_code_units_matching_js_def evals)
  show "canonical_json_integer_keys_sort_as_strings X"
    by (simp add: canonical_json_integer_keys_sort_as_strings_def evals)
  show "canonical_json_keeps_proto_key X"
    by (simp add: canonical_json_keeps_proto_key_def evals)
  show "non_ascii_key_encoding_is_stable X"
    by (simp add: non_ascii_key_encoding_is_stable_def evals)
  show "nested_objects_are_recursively_sorted X"
    by (simp add: nested_objects_are_recursively_sorted_def evals)
  show "empty_object_and_array_round_trip X"
    by (simp add: empty_object_and_array_round_trip_def evals)
qed

text \<open>Texts that are parsed back.\<close>

definition e_acute :: string where
  "e_acute = [CHR 0xC3, CHR 0xA9]"

definition control_text :: string where
  "control_text = ''value'' @ [CHR 0x0A] @ ''with'' @ [CHR 0x09] @ ''tabs'' @ [CHR 0x0D, CHR 0x0A]"

definition string_escaping_is_preserved :: "('sk, 'vk) crates \<Rightarrow> bool" where
  "string_escaping_is_preserved X \<longleftrightarrow>
     (let v = JObject [(''key'', JString control_text)];
          out = canonical_json X v
      in json_from_slice X out = Inr v \<and>
         (str_contains out [CHR 0x5C, CHR ''n''] \<or> str_contains out [CHR 0x5C, CHR ''r'']))"

definition unicode_escape_sequences_decode_uniquely :: "('sk, 'vk) crates \<Rightarrow> bool" where
  "unicode_escape_sequences_decode_uniquely X \<longleftrightarrow>
     (let v = JObject [(''key'', JString e_acute)];
          out = canonical_json X v
      in json_from_slice X out = Inr v)"

lemma parses_back:
  assumes "json_parses X" "json_ok v" "json_integral v" "json_depth v \<le> 1"
  shows "json_from_slice X (canonical_json X v) = Inr v"
  using assms json_rebuild_canonical_order [of v]
  by (simp add: json_parses_value canonical_json_def canonical_json_render json_depth_limit_def
      canonical_order_strings_ok canonical_order_integral canonical_order_depth)

lemma test_strings_valid: "utf8_valid e_acute" "utf8_valid u_10000" "utf8_valid control_text"
proof -
  have "e_acute = utf8_encode [0xE9]"
    by (simp add: e_acute_def utf8_encode1_def char_of_def bit_0)
  then show "utf8_valid e_acute" "utf8_valid u_10000"
    using utf8_decode_encode [of "[0xE9]"] utf8_decode_encode [of "[0x10000]"]
    by (simp_all add: u_keys utf8_valid_def unicode_scalar_def)
  show "utf8_valid control_text" by (simp add: control_text_def utf8_valid_literal)
qed

lemma reparse_tests_pass:
  assumes "json_parses X"
  shows "unicode_escape_sequences_decode_uniquely X"
    and "str_contains (json_to_string X (JString control_text)) [CHR 0x5C, CHR ''n''] \<Longrightarrow> string_escaping_is_preserved X"
    and "json_prints X \<Longrightarrow> utf16_surrogate_pair_key_encodes_correctly X"
proof -
  show "unicode_escape_sequences_decode_uniquely X"
    using parses_back [OF assms, of "JObject [(''key'', JString e_acute)]"]
    by (simp add: unicode_escape_sequences_decode_uniquely_def map_ok_def utf8_valid_literal test_strings_valid)
  show "string_escaping_is_preserved X"
    if esc: "str_contains (json_to_string X (JString control_text)) [CHR 0x5C, CHR ''n'']"
  proof -
    let ?out = "canonical_json X (JObject [(''key'', JString control_text)])"
    have "?out = (CHR ''{'' # json_to_string X (JString ''key'') @ '':'') @ json_to_string X (JString control_text) @ ''}''"
      by (simp add: canonical_json_def)
    with esc have "str_contains ?out [CHR 0x5C, CHR ''n'']"
      unfolding str_contains_iff by (metis append.assoc)
    then show ?thesis
      using parses_back [OF assms, of "JObject [(''key'', JString control_text)]"]
      by (simp add: string_escaping_is_preserved_def map_ok_def utf8_valid_literal test_strings_valid)
  qed
  show "utf16_surrogate_pair_key_encodes_correctly X" if "json_prints X"
  proof -
    have p: "json_to_string X (json_int n) = to_decimal (unat n)"
      "unescaped s \<Longrightarrow> json_to_string X (JString s) = quoted s" for n s
      using that by (simp_all add: json_prints_def json_int_def quoted_def)
    have leaf: "canonical_json_value ts (json_int n) = ts (json_int n)" for ts n
      by (simp add: json_int_def)
    let ?v = "JObject [(''z'', json_int 2), (u_10000, json_int 1)]"
    have "canonical_json X ?v =
        (''{'' @ quoted ''z'' @ '':2,'') @ quoted u_10000 @ '':1}''"
      by (simp add: canonical_json_def p leaf compare_entries_def compare_utf16_def utf16_keys key_order
          encode_utf16_ascii ascii_def unescaped_keys unescaped_simps small_decimals)
    then have "starts_with (canonical_json X ?v) (''{'' @ quoted ''z'' @ '':2,'')"
      unfolding starts_with_iff by blast
    moreover have "json_from_slice X (canonical_json X ?v) = Inr ?v"
      by (rule parses_back [OF assms])
        (simp_all add: map_ok_def key_order json_int_def utf8_valid_literal test_strings_valid)
    ultimately show ?thesis
      by (simp add: utf16_surrogate_pair_key_encodes_correctly_def key_order)
  qed
qed

section \<open>Signing\<close>

definition dsse_sample :: aep_record where
  "dsse_sample =
     \<lparr>schema_version = AEP_SCHEMA_VERSION, run_id = ''run-dsse-rs-001'', trace_id = Some ''trace-dsse'',
      session_id = None, dsse_envelope = None, user_id = Some ''user-dana@acme.example'', authorized_by = None,
      authority_origin = Some ''subject_consented'', identity_source = None,
      attribution_backing = Some ''principal_key_signed'', run_attribution_backing_floor = None,
      run_attribution_backing_observed = None, authorization_evidence_count = None,
      rec_side_effect_class_max = Some ''network-egress'', rec_recording_mode = Some ''full'',
      actions =
        [\<lparr>action_id = ''act-1'', tool_name = ''POST /mcp'', state_changing = True,
          precondition_digest = None, result_digest = Some ''sha256:post'', timestamp_ms = 1700000000000,
          parent_action_id = None, causal_chain_id = None, act_recording_mode = Full,
          act_capability_decision = None, act_mcp_header_risk = None,
          act_side_effect_class = Some ''network-egress'', act_extra = []\<rparr>],
      created_at_ms = 1700000000000, signature = None, extra = []\<rparr>"

definition sign_and_verify_dsse_round_trip :: "('sk, 'vk) crates \<Rightarrow> 'sk \<Rightarrow> bool" where
  "sign_and_verify_dsse_round_trip X key \<longleftrightarrow>
     (case sign_record_dsse X dsse_sample key ''gateway-key-1'' of
        (r, Ok _) \<Rightarrow>
          (case dsse_envelope r of
             Some envelope \<Rightarrow> payload_type envelope = IN_TOTO_PAYLOAD_TYPE \<and>
               verify_record_dsse X r (ed_public X key) = Ok ()
           | None \<Rightarrow> False)
      | _ \<Rightarrow> False)"

definition tampered_record_fails_dsse_binding :: "('sk, 'vk) crates \<Rightarrow> 'sk \<Rightarrow> bool" where
  "tampered_record_fails_dsse_binding X key \<longleftrightarrow>
     (case sign_record_dsse X dsse_sample key ''gateway-key-1'' of
        (r, Ok _) \<Rightarrow>
          (let r = r\<lparr>user_id := Some ''user-attacker''\<rparr> in is_err (verify_record_dsse X r (ed_public X key)))
      | _ \<Rightarrow> False)"

definition tampered_payload_type_fails_verification :: "('sk, 'vk) crates \<Rightarrow> 'sk \<Rightarrow> bool" where
  "tampered_payload_type_fails_verification X key \<longleftrightarrow>
     (case sign_record_dsse X dsse_sample key ''gateway-key-1'' of
        (r, Ok _) \<Rightarrow>
          (case dsse_envelope r of
             Some env \<Rightarrow>
               (let r = r\<lparr>dsse_envelope := Some (env\<lparr>payload_type := ''application/vnd.in-toto+json; tampered''\<rparr>)\<rparr>
                in is_err (verify_record_dsse X r (ed_public X key)))
           | None \<Rightarrow> False)
      | _ \<Rightarrow> False)"

definition base64_payload_padding_roundtrip :: "('sk, 'vk) crates \<Rightarrow> 'sk \<Rightarrow> bool" where
  "base64_payload_padding_roundtrip X key \<longleftrightarrow>
     (let r = dsse_sample\<lparr>run_id := ''x''\<rparr> in
      case sign_record_dsse X r key ''k'' of
        (r, Ok _) \<Rightarrow> verify_record_dsse X r (ed_public X key) = Ok ()
      | _ \<Rightarrow> False)"

definition missing_envelope_fails_verify :: "('sk, 'vk) crates \<Rightarrow> 'sk \<Rightarrow> bool" where
  "missing_envelope_fails_verify X key \<longleftrightarrow> is_err (verify_record_dsse X dsse_sample (ed_public X key))"

definition floor_stronger_than_weakest_observed_is_rejected :: "('sk, 'vk) crates \<Rightarrow> 'sk \<Rightarrow> bool" where
  "floor_stronger_than_weakest_observed_is_rejected X key \<longleftrightarrow>
     (let r = dsse_sample\<lparr>run_attribution_backing_floor := Some ''subject_consented''\<rparr>;
          r = r\<lparr>run_attribution_backing_observed := Some [''operator_asserted'']\<rparr>
      in is_err (snd (sign_record_dsse X r key ''k'')))"

definition floor_without_observed_is_rejected :: "('sk, 'vk) crates \<Rightarrow> 'sk \<Rightarrow> bool" where
  "floor_without_observed_is_rejected X key \<longleftrightarrow>
     (let r = dsse_sample\<lparr>run_attribution_backing_floor := Some ''principal_key_signed''\<rparr>;
          r = r\<lparr>run_attribution_backing_observed := None\<rparr>
      in is_err (snd (sign_record_dsse X r key ''k'')))"

definition observed_without_floor_is_rejected :: "('sk, 'vk) crates \<Rightarrow> 'sk \<Rightarrow> bool" where
  "observed_without_floor_is_rejected X key \<longleftrightarrow>
     (let r = dsse_sample\<lparr>run_attribution_backing_floor := None\<rparr>;
          r = r\<lparr>run_attribution_backing_observed := Some [''principal_key_signed'']\<rparr>
      in is_err (snd (sign_record_dsse X r key ''k'')))"

definition empty_observed_with_floor_is_rejected :: "('sk, 'vk) crates \<Rightarrow> 'sk \<Rightarrow> bool" where
  "empty_observed_with_floor_is_rejected X key \<longleftrightarrow>
     (let r = dsse_sample\<lparr>run_attribution_backing_floor := Some ''principal_key_signed''\<rparr>;
          r = r\<lparr>run_attribution_backing_observed := Some []\<rparr>
      in is_err (snd (sign_record_dsse X r key ''k'')))"

definition subject_digest_binds_predicate_not_envelope :: "('sk, 'vk) crates \<Rightarrow> 'sk \<Rightarrow> bool" where
  "subject_digest_binds_predicate_not_envelope X key \<longleftrightarrow>
     (case sign_record_dsse X dsse_sample key ''gateway-key-1'' of
        (r, Ok _) \<Rightarrow>
          (case dsse_envelope r of
             Some env \<Rightarrow>
               (let sigs = (signatures env)[0 := (signatures env ! 0)\<lparr>dsse_sig := concat (replicate 11 ''deadbeef'')\<rparr>];
                    r = r\<lparr>dsse_envelope := Some (env\<lparr>signatures := sigs\<rparr>)\<rparr>
                in list_ex (error_contains dsse_error_text (verify_record_dsse X r (ed_public X key)))
                     [''DSSE signature invalid'', ''sig base64 decode'', ''signature is not 64 bytes''])
           | None \<Rightarrow> False)
      | _ \<Rightarrow> False)"

lemma dsse_sample_ok:
  assumes "crate_laws X"
  shows "floor_sound dsse_sample" "dsse_signable X dsse_sample" "dsse_signable X (dsse_sample\<lparr>run_id := rid\<rparr>) \<longleftrightarrow> utf8_valid rid"
  using assms
  by (simp_all add: floor_sound_def dsse_signable_def record_ok_def record_strings_def record_extras_def
      action_strings_def action_extras_def dsse_sample_def AEP_SCHEMA_VERSION_def utf8_valid_literal)

lemma dsse_floor_tests_pass:
  "floor_stronger_than_weakest_observed_is_rejected X key" "floor_without_observed_is_rejected X key"
  "observed_without_floor_is_rejected X key" "empty_observed_with_floor_is_rejected X key"
  "missing_envelope_fails_verify X key"
  by (simp_all add: floor_stronger_than_weakest_observed_is_rejected_def floor_without_observed_is_rejected_def
      observed_without_floor_is_rejected_def empty_observed_with_floor_is_rejected_def
      missing_envelope_fails_verify_def sign_record_dsse_def check_backing_floor_def fail_if_def ok_or_def
      verify_record_dsse_def verify_envelope_def is_err_def dsse_sample_def grade_rank.simps)

text \<open>
  The tampered record has another digest unless SHA-256 collides on the two texts, and eleven times
  \<open>deadbeef\<close> is not the base64 of 64 bytes.
\<close>

text \<open>A signature that is replaced by 88 hex digits is refused, before or after decoding.\<close>

definition tampered_signature :: string where
  "tampered_signature = concat (replicate 11 ''deadbeef'')"

lemma tampered_signature_length: "length tampered_signature = 88"
  unfolding tampered_signature_def by (simp add: length_concat sum_list_replicate del: replicate.simps)

lemma tampered_signature_decoded:
  "decode_base64_lenient X tampered_signature =
     map_err (b64_decode X tampered_signature) (\<lambda>_. ''dsse signature is not valid base64'')"
proof -
  have "map standard_char tampered_signature = tampered_signature"
    unfolding tampered_signature_def by (rule map_standard_char) (simp_all del: replicate.simps)
  then show ?thesis by (simp add: decode_base64_lenient_def tampered_signature_length)
qed

lemma tampered_signature_refused:
  assumes "b64_laws X" "\<And>bs. b64_decode X tampered_signature = Inr bs \<Longrightarrow> length bs \<noteq> 64"
    and "env = seal_statement X body key kid"
  shows "verify_record_dsse X (r\<lparr>dsse_envelope := Some (env\<lparr>signatures :=
      (signatures env)[0 := (signatures env ! 0)\<lparr>dsse_sig := tampered_signature\<rparr>]\<rparr>)\<rparr>) vk \<in>
    {Err (SigBase64 ''dsse signature is not valid base64''), Err SigLength}"
proof -
  have len: "length (signatures env) = 1" and ptype: "payload_type env = IN_TOTO_PAYLOAD_TYPE"
    and dec: "b64_decode X (payload env) = Inr body"
    using assms(1) by (simp_all add: assms(3) seal_statement_def Let_def b64_laws_def)
  let ?sigs = "(signatures env)[0 := (signatures env ! 0)\<lparr>dsse_sig := tampered_signature\<rparr>]"
  have first: "?sigs \<noteq> []" "length ?sigs = 1" "dsse_sig (?sigs ! 0) = tampered_signature"
    using len by (auto simp flip: length_greater_0_conv)
  from len have "length (signatures env) = Suc 0" "signatures env \<noteq> []" by auto
  then show ?thesis
    using tampered_signature_decoded [of X] assms(2) by (cases "b64_decode X tampered_signature")
      (simp_all add: verify_record_dsse_def verify_envelope_def fail_if_def ok_or_def map_err_def first ptype dec
        del: list_update.simps)
qed

lemma signature_errors_named:
  "str_contains (dsse_error_text SigLength) ''signature is not 64 bytes''"
  "str_contains (dsse_error_text (SigBase64 e)) ''sig base64 decode''"
  unfolding str_contains_iff by (rule exI [of _ "[]"], simp)+

lemma sample_signed:
  assumes "crate_laws X"
  shows "sign_record_dsse X dsse_sample key ''gateway-key-1'' = (sealed X dsse_sample key ''gateway-key-1'', Ok ())"
  by (simp add: sign_cases dsse_sample_ok [OF assms])

lemma dsse_signing_tests_pass:
  assumes "crate_laws X"
  shows "sign_and_verify_dsse_round_trip X key" "base64_payload_padding_roundtrip X key"
    "tampered_payload_type_fails_verification X key"
proof -
  note ok = dsse_sample_ok [OF assms] and signs = sample_signed [OF assms, of key]
  show "sign_and_verify_dsse_round_trip X key"
    using dsse.sign_verifies [OF ok(2) signs]
    by (simp add: sign_and_verify_dsse_round_trip_def signs) (simp add: seal_statement_def Let_def)
  show "tampered_payload_type_fails_verification X key"
    by (simp add: tampered_payload_type_fails_verification_def signs verify_record_dsse_def verify_envelope_def
        is_err_def fail_if_def ok_or_def IN_TOTO_PAYLOAD_TYPE_def)
  have x: "dsse_signable X (dsse_sample\<lparr>run_id := ''x''\<rparr>)" by (simp add: ok utf8_valid_literal)
  have "sign_record_dsse X (dsse_sample\<lparr>run_id := ''x''\<rparr>) key ''k'' = (sealed X (dsse_sample\<lparr>run_id := ''x''\<rparr>) key ''k'', Ok ())"
    using ok(1) by (simp add: sign_cases floor_sound_def)
  from dsse.sign_verifies [OF x this] this show "base64_payload_padding_roundtrip X key"
    by (simp add: base64_payload_padding_roundtrip_def)
qed

lemma tampered_record_fails_dsse_binding_passes:
  assumes "crate_laws X"
    and "record_digest X (dsse_sample\<lparr>user_id := Some ''user-attacker''\<rparr>) \<noteq> record_digest X dsse_sample"
  shows "tampered_record_fails_dsse_binding X key"
proof -
  let ?r = "sealed X dsse_sample key ''gateway-key-1''"
  have "strip_signing (?r\<lparr>user_id := Some ''user-attacker''\<rparr>) =
      strip_signing (dsse_sample\<lparr>user_id := Some ''user-attacker''\<rparr>)"
    by (simp add: sealed_def strip_signing_def)
  from record_digest_cong [OF this, of X] assms(2)
  have "is_err (verify_record_dsse X (?r\<lparr>user_id := Some ''user-attacker''\<rparr>) (ed_public X key))"
    using verify_under_sealed_envelope [OF dsse_sample_ok(2) [OF assms(1)],
        of "?r\<lparr>user_id := Some ''user-attacker''\<rparr>" key "''gateway-key-1''"]
    by (simp add: is_err_def)
  then show ?thesis by (simp add: tampered_record_fails_dsse_binding_def sample_signed [OF assms(1)])
qed

lemma subject_digest_binds_predicate_not_envelope_passes:
  assumes "crate_laws X" "\<And>bs. b64_decode X tampered_signature = Inr bs \<Longrightarrow> length bs \<noteq> 64"
  shows "subject_digest_binds_predicate_not_envelope X key"
proof -
  have "b64_laws X" using assms(1) by (simp add: crate_laws_def)
  note refused = tampered_signature_refused [OF this assms(2) refl]
  show ?thesis
    unfolding subject_digest_binds_predicate_not_envelope_def sample_signed [OF assms(1)] prod.case outcome.case
      sealed_simps option.case Let_def tampered_signature_def [symmetric]
    using refused [where r = "sealed X dsse_sample key ''gateway-key-1''" and key = key and kid = "''gateway-key-1''"
        and body = "canonical_json X (record_statement X dsse_sample)" and vk = "ed_public X key"] signature_errors_named
    by (auto simp: error_contains_def simp del: str_contains.simps dsse_error_text.simps)
qed

section \<open>All tests\<close>

lemma dsse_tests_pass_under_laws:
  assumes "crate_laws X" "json_prints X"
  shows "unicode_escape_sequences_decode_uniquely X" "utf16_surrogate_pair_key_encodes_correctly X"
  using assms by (simp_all add: crate_laws_def reparse_tests_pass)

text \<open>The unit tests of the two crates pass on the model: every test of the recording policy,
the header classifier, the provenance walk, the recorder and the emitter, and those of the evidence
records and of DSSE that rest on nothing but the documented laws of the crates, for every signing
key, all character tables beyond ASCII and every heap with room for the default buffer.\<close>

lemma unit_tests_hold:
  assumes "crate_laws X" "json_prints X" "json_lexical (json_to_string X)" "1024 \<le> room"
  shows "list_all (\<lambda>t. t)
    [read_yields_validation, mutate_local_yields_delta, network_egress_yields_full, vetted_always_full,
     consent_anomaly_always_full, taint_with_read_class_stays_validation, taint_with_mutate_local_escalates_to_full,
     unknown_class_yields_full, risk_priority_order_vetted_beats_others, recording_mode_as_str_matches_serde X,
     classify_mcp_headers_detects_credential_prefix U, classify_mcp_headers_detects_high_entropy U,
     classify_mcp_headers_detects_pii_in_name U, classify_mcp_headers_credential_prefix_case_insensitive U,
     classify_mcp_headers_high_entropy_boundary_is_thirty_two_chars U,
     classify_mcp_headers_credential_prefix_wins_over_other_risks U, classify_mcp_headers_clean_values_return_none U,
     classify_mcp_headers_no_mcp_headers_returns_none U, classify_mcp_headers_partial_mcp_headers_benign_returns_none U,
     classify_mcp_headers_partial_mcp_headers_leakage_detected U,
     classify_mcp_headers_complete_mcp_headers_benign_returns_none U,
     classify_mcp_headers_complete_mcp_headers_leakage_in_method_detected U,
     classify_mcp_headers_complete_mcp_headers_leakage_in_name_detected U,
     ancestors_walks_generated_by_then_used_chain, ancestors_returns_empty_for_unknown_or_root_entity,
     ancestors_deduplicates_shared_activities, ancestors_terminates_on_cyclic_graph,
     unix_millis_converts_epoch_plus_duration, unix_millis_maps_pre_epoch_to_zero,
     classifies_read_methods U, classifies_external_mutations U, classifies_network_egress_by_path U,
     classifies_unknown_methods U, mcp_method_tools_call_is_mutate_external U, mcp_header_cannot_downgrade_http_risk U,
     mcp_method_tools_list_is_read_on_safe_http U, mcp_method_unknown_op_cannot_lower_http_verdict U,
     build_evidence_marks_reads_as_non_state_changing,
     build_evidence_marks_external_mutation_as_state_changing_and_full, build_evidence_assigns_mcp_header_risk,
     evidence_buffer_panics_on_zero_capacity room, evidence_buffer_with_defaults_has_capacity_1024 room,
     evidence_buffer_default_has_capacity_1024 room, evidence_buffer_push_without_overflow room,
     evidence_buffer_evicts_oldest_on_overflow room, evidence_buffer_drain_returns_all_entries room,
     evidence_buffer_drain_after_overflow room,
     signed_record_verifies_and_binds_identity X key, tampered_record_fails_verification X key,
     empty_evidence_fails_closed X key, empty_trace_id_fails_closed X key,
     schema_version_constant_is_in_canonical_enum, absent_optional_fields_are_omitted_not_null X,
     present_optional_fields_round_trip_after_omission_change X,
     mcp_header_risk_as_str_returns_snake_case_variant_name,
     action_evidence_serializes_mcp_header_risk_as_snake_case_string,
     action_evidence_mcp_header_risk_round_trips_as_plain_string X,
     pae_matches_dsse_spec_layout, canonical_json_orders_keys_by_utf16_code_units_matching_js X,
     canonical_json_integer_keys_sort_as_strings X, canonical_json_keeps_proto_key X,
     non_ascii_key_encoding_is_stable X, nested_objects_are_recursively_sorted X,
     utf16_surrogate_pair_key_encodes_correctly X, empty_object_and_array_round_trip X,
     unicode_escape_sequences_decode_uniquely X,
     sign_and_verify_dsse_round_trip X key, tampered_payload_type_fails_verification X key,
     base64_payload_padding_roundtrip X key, missing_envelope_fails_verify X key,
     floor_stronger_than_weakest_observed_is_rejected X key, floor_without_observed_is_rejected X key,
     observed_without_floor_is_rejected X key, empty_observed_with_floor_is_rejected X key]"
proof -
  from assms(1) have "json_parses X" by (simp add: crate_laws_def)
  with assms show ?thesis
    by (simp only: list.pred_inject simp_thms recording_tests_pass recording_mode_as_str_matches_serde_passes
        mcp_header_tests_pass mcp_header_entropy_tests_pass prov_tests_pass recorder_tests_pass
        recorder_class_tests_pass buffer_tests_pass emitter_signing_tests_pass emitter_error_tests_pass
        evidence_plain_tests_pass absent_optional_fields_are_omitted_not_null_passes
        present_optional_fields_round_trip_after_omission_change_passes
        action_evidence_mcp_header_risk_round_trips_as_plain_string_passes
        pae_test_passes canonical_json_tests_pass dsse_tests_pass_under_laws dsse_signing_tests_pass dsse_floor_tests_pass)
qed

end
