(* ===== verification/Wire_Witnesses.thy ===== *)
theory Wire_Witnesses
  imports Witnesses Test_Dsse Prov_Wire
begin

text \<open>
  The properties about reading records and configurations, about whole runs of the module and
  about the way of a record to its consumer, at concrete inputs.
\<close>

section \<open>Records as text\<close>

lemma annotated_wire_ok: "wire_ok annotated_record"
  using samples_ok(2) by (simp add: wire_ok_def sample_defs)

theorem record_text_round_trip_witness:
  "aep_record_from_slice ref_crates (aep_record_to_string ref_crates annotated_record) = Inr annotated_record"
  by (rule record_text_round_trip) (simp_all add: ref_json_parses samples_flat annotated_wire_ok samples_extras)

text \<open>A record with an undeclared member, listed twice.\<close>

definition foreign_members :: "(string \<times> json) list" where
  "foreign_members =
     [(''x'', JBool False), (''run_id'', JString ''r''), (''actions'', JArray []), (''x'', JBool True),
      (''schema_version'', JString ''aep/v0.5''), (''created_at_ms'', json_u64 7)]"

lemma foreign_read:
  "aep_record_from_json (JObject foreign_members) =
     Some (default_aep_record\<lparr>schema_version := ''aep/v0.5'', run_id := ''r'', created_at_ms := 7,
       extra := [(''x'', JBool True)]\<rparr>)"
  by (simp add: aep_record_from_json_def foreign_members_def required_def optional_def field_def members_def
      vec_from_json_def catch_all_def aep_record_names_def map_collect_def default_aep_record_def)

theorem deserialized_record_well_formed_witness:
  "record_flat (default_aep_record\<lparr>schema_version := ''aep/v0.5'', run_id := ''r'', created_at_ms := 7,
     extra := [(''x'', JBool True)]\<rparr>)"
proof -
  have "json_text_ok (JObject foreign_members)"
    by (simp add: foreign_members_def json_u64_def utf8_valid_literal)
  then show ?thesis using deserialized_record_well_formed [OF _ foreign_read] by simp
qed

theorem undeclared_members_survive_witness:
  "\<exists>w. aep_record_written (default_aep_record\<lparr>schema_version := ''aep/v0.5'', run_id := ''r'',
     created_at_ms := 7, extra := [(''x'', JBool True)]\<rparr>) = JObject w \<and> members ''x'' w = [JBool True]"
proof -
  have "''x'' \<notin> aep_record_names" "map_of (rev foreign_members) ''x'' = Some (JBool True)"
    by (simp_all add: aep_record_names_def foreign_members_def)
  with undeclared_members_survive [OF foreign_read this(1)] show ?thesis by auto
qed

theorem reading_ignores_member_order_witness:
  "aep_record_from_json (aep_record_written annotated_record) = aep_record_from_json (aep_record_to_value annotated_record)"
proof (rule reading_ignores_member_order)
  have x: "\<forall>v \<in> set (record_extras annotated_record). json_ok v" by (simp add: samples_extras)
  have "distinct (map fst (written_members annotated_record))"
    using samples_flat(2) by (intro flat_distinct [OF record_fields_ok]) (simp_all add: record_flat_def)
  then show "json_strings_ok (aep_record_written annotated_record)"
    using annotated_wire_ok samples_flat(2) by (intro record_text_ok) (simp_all add: record_flat_def)
  have ok: "json_ok (aep_record_to_value annotated_record)"
    by (intro record_to_value_ok samples_ok) (simp_all add: sample_defs)
  then show "json_strings_ok (aep_record_to_value annotated_record)" by (rule json_ok_strings_ok)
  show "json_rebuild (aep_record_written annotated_record) = json_rebuild (aep_record_to_value annotated_record)"
    using ok by (simp add: rebuild_record [OF x] json_ok_rebuild)
qed

theorem malformed_record_rejected_witness:
  "aep_record_from_json (JObject [(''run_id'', JString ''a''), (''run_id'', JString ''a'')]) = None"
  by (rule malformed_record_rejected) (simp add: members_def aep_record_names_def)

lemma signed_record_survives_transport_witness:
  "aep_record_from_slice ref_crates (aep_record_to_string ref_crates sample_sealed) = Inr sample_sealed \<and>
     verify_record_dsse ref_crates sample_sealed (ed_public ref_crates ''seed'') = Ok ()"
  by (rule signed_record_survives_transport [OF samples_signable(2) [OF ref_crate_laws] samples_flat(2) _ sample_signs])
    (simp add: utf8_valid_literal)

theorem published_samples_verify_witness:
  "snd (emit_samples_main ref_crates (json_render ref_to_string) ''seed'' id (\<lambda>_. True) []) = Ok () \<and>
   PrintLine ''aep-samples/record-annotated.json'' \<in>
     set (fst (emit_samples_main ref_crates (json_render ref_to_string) ''seed'' id (\<lambda>_. True) []))"
proof -
  have "json_read ref_crates (json_render ref_to_string v) = Inr v"
    if "json_strings_ok v" "json_integral v" "json_depth v \<le> json_depth_limit" for v
    using ref_json_parses that by (simp add: json_parses_def) (simp add: ref_crates_def)
  then show ?thesis
    using published_samples_verify [OF ref_crate_laws, of "\<lambda>_. True" "json_render ref_to_string" "[]" "''seed''" id]
    by (auto simp: path_join_def starts_with_def)
qed

section \<open>Configurations\<close>

definition small_config :: plugin_config where
  "small_config = default_plugin_config\<lparr>max_evidence_buffer := 2\<rparr>"

definition config_host :: host where
  "config_host = demo_host\<lparr>host_plugin_configuration := Some (plugin_config_to_string ref_crates small_config)\<rparr>"

lemma small_config_accepted:
  "config_ok small_config" "validate ref_crates small_config = Ok ()" "max_evidence_buffer small_config = 2"
  "host_plugin_configuration config_host = Some (plugin_config_to_string ref_crates small_config)"
  by (simp_all add: config_host_def small_config_def config_ok_def default_plugin_config_def validate_Ok_iff
      utf8_valid_literal)

lemma config_host_loaded:
  "on_configure ref_crates config_host 9 root_new =
     (\<lparr>root_config = small_config, root_metrics = fst (metrics_define config_host)\<rparr>,
      True, snd (metrics_define config_host))"
  by (rule configured_text_takes_effect [OF ref_json_parses small_config_accepted(1,2) _ small_config_accepted(4)]) simp

theorem configured_capacity_decides_creation_witness:
  "(create_http_context 1 (fst (on_configure ref_crates config_host 9 root_new)) 5 :: (unit, evidence_filter) outcome) = Panic"
proof -
  have "(9 :: nat) \<noteq> 0" by simp
  from configured_capacity_decides_creation [OF ref_json_parses small_config_accepted(1,2) this
      small_config_accepted(4) config_host_loaded, of 1 5]
  show ?thesis by (auto simp: config_host_loaded small_config_accepted split: outcome.splits)
qed

section \<open>A provenance graph as text\<close>

definition demo_graph :: prov_graph where
  "demo_graph =
     \<lparr>activities = fmap_of_list
        [(''a1'', \<lparr>activity_id = ''a1'', activity_label = ''fetch'', used = [''e1''], generated = [''e2''],
           activity_timestamp_ms = 7\<rparr>)],
      entities = fmap_of_list
        [(''e1'', \<lparr>entity_id = ''e1'', digest = None, generated_by = None\<rparr>),
         (''e2'', \<lparr>entity_id = ''e2'', digest = Some ''d'', generated_by = Some ''a1''\<rparr>)],
      agents = fmempty\<rparr>"

lemma demo_graph_ok: "prov_graph_ok demo_graph"
  by (auto simp: prov_graph_ok_def demo_graph_def fmlookup_of_list utf8_valid_literal elim!: fmran'E split: if_splits)

theorem prov_graph_text_round_trip_witness:
  "prov_graph_from_slice ref_crates (prov_graph_to_string ref_crates [''a1''] [''e2'', ''e1''] [] demo_graph) = Inr demo_graph"
  by (rule prov_graph_text_round_trip [OF ref_json_parses demo_graph_ok])
    (auto simp: lists_keys_def demo_graph_def)

section \<open>Runs of the module\<close>

text \<open>The module is configured with a buffer of two entries before the first context is created.\<close>

definition demo_history :: "proxy_event list" where
  "demo_history = [Configure config_host 9, CreateContext 2 2, RequestHeaders 2 demo_host, ResponseHeaders 2 demo_host]"

lemma config_host_accepted:
  "accepted_config ref_crates config_host 9 default_plugin_config = small_config"
  using configure_accepted [OF config_host_loaded] by (simp add: root_new_def)

lemma demo_legal: "legal_history ref_crates default_plugin_config {} demo_history"
  by (simp add: demo_history_def demo_host_ok config_host_accepted small_config_accepted)

theorem legal_history_answered_witness:
  "\<exists>!p. run (proxy_step ref_crates ascii_tables) proxy_init (fst p) (snd p) \<and> map fst (fst p) = demo_history"
  by (rule legal_history_answered [OF demo_legal])

definition created_proxy :: proxy where
  "created_proxy = \<lparr>proxy_root = root_new, contexts = [2 \<mapsto> demo_filter]\<rparr>"

lemma demo_run:
  "run (proxy_step ref_crates ascii_tables) proxy_init
     [(CreateContext 2 1024, []), (RequestHeaders 2 demo_host, []),
      (ResponseHeaders 2 demo_host, snd (on_http_response_headers ascii_tables demo_host (on_http_request_headers demo_host demo_filter)))]
     demo_proxy"
proof -
  have 1: "proxy_step ref_crates ascii_tables proxy_init (CreateContext 2 1024) [] created_proxy"
    using proxy_step.create [of proxy_init 2 1024 demo_filter ref_crates ascii_tables]
    by (simp add: proxy_init_eq demo_create created_proxy_def)
  let ?s = "\<lparr>proxy_root = root_new, contexts = [2 \<mapsto> on_http_request_headers demo_host demo_filter]\<rparr>"
  have 2: "proxy_step ref_crates ascii_tables created_proxy (RequestHeaders 2 demo_host) [] ?s"
    using proxy_step.request [of created_proxy 2 demo_filter ref_crates ascii_tables demo_host]
    by (simp add: created_proxy_def)
  have 3: "proxy_step ref_crates ascii_tables ?s (ResponseHeaders 2 demo_host)
      (snd (on_http_response_headers ascii_tables demo_host (on_http_request_headers demo_host demo_filter))) demo_proxy"
    using proxy_step.response [of ?s 2 "on_http_request_headers demo_host demo_filter" ascii_tables demo_host
        demo_handled _ ref_crates]
    by (simp add: demo_proxy_def demo_handled_def)
  show ?thesis using 1 2 3 unfolding run_Cons run_Nil by blast
qed

definition demo_stream :: stream where
  "demo_stream =
     \<lparr>st_config = default_plugin_config, st_counters = (\<lambda>_. 0), st_request = request_of demo_host,
      st_history = [ledger_entry ascii_tables 2 default_plugin_config (request_of demo_host) (host_current_time demo_host)]\<rparr>"

lemma demo_ledger:
  "led_streams (foldl (\<lambda>l ev. ledger_next ref_crates ascii_tables ev l) ledger_init
     (map fst [(CreateContext 2 1024, []), (RequestHeaders 2 demo_host, []), (ResponseHeaders 2 demo_host, calls)])) 2 =
   Some demo_stream"
  by (simp add: ledger_init_def demo_stream_def stream_entry_def)

theorem proxy_refines_ledger_witness:
  "entries (flt_buffer demo_handled) = keep_last (max_evidence_buffer default_plugin_config)
     [ledger_entry ascii_tables 2 default_plugin_config (request_of demo_host) (host_current_time demo_host)]"
  using proxy_refines_ledger [OF demo_run refl, THEN conjunct2, THEN conjunct2, rule_format, OF conjI [OF demo_live demo_ledger]]
  by (simp add: demo_stream_def)

theorem host_calls_match_ledger_witness:
  "{SetResponseHeader ''x-aep-recording-mode'' ''full'', IncrementMetric 0 1} \<subseteq> set
     (snd (on_http_response_headers ascii_tables demo_host (on_http_request_headers demo_host demo_filter)))"
proof -
  let ?f = "on_http_request_headers demo_host demo_filter"
  have "stream_entry ascii_tables 2 (stream_of ?f []) demo_host =
      ledger_entry ascii_tables 2 default_plugin_config (request_of demo_host) (host_current_time demo_host)"
    by (simp add: stream_entry_def stream_of_def request_of_def on_http_request_headers_def demo_filter_def)
  moreover have "context_id ?f = 2"
    by (simp add: on_http_request_headers_def demo_filter_def)
  ultimately have entry: "demo_entry =
      ledger_entry ascii_tables 2 default_plugin_config (request_of demo_host) (host_current_time demo_host)"
    using captured_is_ledger_entry [of ?f 2 ascii_tables demo_host "[]"] by (simp add: demo_entry_def)
  have "act_recording_mode demo_entry = Full"
    unfolding demo_entry_def
    by (rule mutating_mode(1) [of _ "''POST''"]) (simp_all add: demo_host_def)
  with entry show ?thesis
    using host_calls_match_ledger [OF demo_run, of 2]
    by (simp add: ledger_init_def stream_entry_def exchange_calls_def)
qed

section \<open>From the request to the consumer\<close>

theorem transported_evidence_verifies_witness:
  "\<exists>r r'. assemble_and_sign ref_crates [demo_entry] demo_identity 9 ''seed'' = Ok r \<and>
     aep_record_from_slice ref_crates (aep_record_to_string ref_crates r) = Inr r' \<and>
     verify_record_dsse ref_crates r' (ed_public ref_crates ''seed'') = Ok ()"
proof -
  have "trim (id_trace_id demo_identity) \<noteq> []" "utf8_valid (id_key_id demo_identity)"
    unfolding trim_Nil_iff demo_identity_def
    by (simp_all add: chars_ascii ascii_def is_whitespace_def utf8_valid_literal)
  then show ?thesis
    using transported_evidence_verifies [OF demo_reachable demo_live ref_crate_laws demo_identity_ok, of 9 "''seed''"]
    by (simp add: demo_entries) metis
qed

theorem every_exchange_attested_witness:
  "\<exists>tr s f r. run (proxy_step ref_crates ascii_tables) proxy_init tr s \<and> contexts s 2 = Some f \<and>
     assemble_and_sign ref_crates (entries (flt_buffer f)) demo_identity 9 ''seed'' = Ok r \<and>
     verify_record_dsse ref_crates r (ed_public ref_crates ''seed'') = Ok ()"
proof -
  have "trim (id_trace_id demo_identity) \<noteq> []"
    unfolding trim_Nil_iff demo_identity_def by (simp add: chars_ascii ascii_def is_whitespace_def)
  moreover have "legal_history ref_crates default_plugin_config {}
      ([CreateContext 2 1024] @ [RequestHeaders 2 demo_host, ResponseHeaders 2 demo_host])"
    by (simp add: demo_host_ok default_plugin_config_def)
  ultimately show ?thesis
    using every_exchange_attested [OF _ ref_crate_laws demo_identity_ok, of "[CreateContext 2 1024]" 2 demo_host demo_host
        ascii_tables 9 "''seed''"]
    by blast
qed

section \<open>The unit tests\<close>

lemma escape_unescaped: "unescaped s \<Longrightarrow> escape s = s"
  by (induction s) (simp_all add: unescaped_simps)

lemma ref_json_prints: "json_prints ref_crates"
  by (simp add: json_prints_def escape_unescaped) (simp add: ref_crates_def escape_unescaped)

lemma unit_tests_hold_witness:
  "sign_and_verify_dsse_round_trip ref_crates ''seed'' \<and> present_optional_fields_round_trip_after_omission_change ref_crates"
proof -
  have "json_lexical (json_to_string ref_crates)"
    using ref_json_lexical by (simp add: ref_crates_def)
  from unit_tests_hold [OF ref_crate_laws ref_json_prints this order.refl, of ascii_tables "''seed''"]
  show ?thesis by (simp only: list.pred_inject simp_thms)
qed

end
