(* ===== verification/Cross_Language.thy ===== *)
theory Cross_Language
  imports Samples Test_Gateway
begin

text \<open>
  The tests of \<open>crates/aep-core/tests/cross_language.rs\<close>: a signed record read from a file verifies,
  and every single mutation of it is rejected. They run over one file that another emitter wrote; here
  they are shown for the text of every record signed by the construction both emitters share.
\<close>

section \<open>Values mutated in place\<close>

text \<open>
  Assignment through \<open>IndexMut\<close> of \<open>serde_json::Value\<close>: a string index of a null value makes an object,
  of an object inserts the member if it is missing; an array must have the item; anything else panics.
\<close>

datatype json_step = Member string | Item nat

fun json_assign :: "json_step list \<Rightarrow> json \<Rightarrow> json \<Rightarrow> (unit, json) outcome" where
  "json_assign [] new v = Ok new"
| "json_assign (Member k # p) new (JObject m) =
     and_then (json_assign p new (case map_of m k of None \<Rightarrow> JNull | Some w \<Rightarrow> w)) (\<lambda>w.
     Ok (JObject (map_insert k w m)))"
| "json_assign (Member k # p) new JNull =
     and_then (json_assign p new JNull) (\<lambda>w. Ok (JObject [(k, w)]))"
| "json_assign (Item i # p) new (JArray vs) =
     (if i < length vs then and_then (json_assign p new (vs ! i)) (\<lambda>w. Ok (JArray (vs[i := w]))) else Panic)"
| "json_assign _ new v = Panic"

section \<open>The fixture\<close>

text \<open>
  \<open>rd\<close> is \<open>std::fs::read_to_string\<close>, \<open>dir\<close> the directory of the crate, \<open>from_seed\<close> is
  \<open>SigningKey::from_bytes\<close>.
\<close>

definition fixture_path :: "string \<Rightarrow> string \<Rightarrow> string" where
  "fixture_path dir name =
     (let path = dir; path = path_join path ''tests''; path = path_join path ''fixtures'' in path_join path name)"

definition load_fixture ::
  "('sk, 'vk) crates \<Rightarrow> (string \<Rightarrow> string option) \<Rightarrow> string \<Rightarrow> string \<Rightarrow> (unit, aep_record) outcome" where
  "load_fixture X rd dir name =
     (case rd (fixture_path dir name) of
        None \<Rightarrow> Panic
      | Some text_bytes \<Rightarrow> (case aep_record_from_slice X text_bytes of Inl _ \<Rightarrow> Panic | Inr r \<Rightarrow> Ok r))"

definition js_test_seed :: bytes where
  "js_test_seed = concat (replicate 8 [CHR 0xDE, CHR 0xAD, CHR 0xBE, CHR 0xEF])"

definition signed_fixture ::
  "('sk, 'vk) crates \<Rightarrow> (string \<Rightarrow> string option) \<Rightarrow> string \<Rightarrow> (bytes \<Rightarrow> 'sk) \<Rightarrow> (unit, aep_record \<times> 'vk) outcome" where
  "signed_fixture X rd dir from_seed =
     (let key = from_seed js_test_seed in
      and_then (load_fixture X rd dir ''wasmagent-js-dsse.json'') (\<lambda>r. Ok (r, ed_public X key)))"

text \<open>A test over the fixture passes if loading it did not panic and its assertion holds.\<close>

definition over_fixture ::
  "('sk, 'vk) crates \<Rightarrow> (string \<Rightarrow> string option) \<Rightarrow> string \<Rightarrow> (bytes \<Rightarrow> 'sk) \<Rightarrow> (aep_record \<Rightarrow> 'vk \<Rightarrow> bool) \<Rightarrow> bool" where
  "over_fixture X rd dir from_seed test =
     (case signed_fixture X rd dir from_seed of Ok (r, vk) \<Rightarrow> test r vk | _ \<Rightarrow> False)"

section \<open>The tests\<close>

definition js_emitted_dsse_record_verifies_with_the_same_seed ::
  "('sk, 'vk) crates \<Rightarrow> (string \<Rightarrow> string option) \<Rightarrow> string \<Rightarrow> (bytes \<Rightarrow> 'sk) \<Rightarrow> bool" where
  "js_emitted_dsse_record_verifies_with_the_same_seed X rd dir from_seed \<longleftrightarrow>
     (let key = from_seed js_test_seed in
      case load_fixture X rd dir ''wasmagent-js-dsse.json'' of
        Ok r \<Rightarrow> verify_record_dsse X r (ed_public X key) = Ok ()
      | _ \<Rightarrow> False)"

definition tampered_js_record_fails_binding ::
  "('sk, 'vk) crates \<Rightarrow> (string \<Rightarrow> string option) \<Rightarrow> string \<Rightarrow> (bytes \<Rightarrow> 'sk) \<Rightarrow> bool" where
  "tampered_js_record_fails_binding X rd dir from_seed \<longleftrightarrow>
     (let key = from_seed js_test_seed in
      case load_fixture X rd dir ''wasmagent-js-dsse.json'' of
        Ok r \<Rightarrow>
          (let r = r\<lparr>user_id := Some ''user-attacker''\<rparr> in is_err (verify_record_dsse X r (ed_public X key)))
      | _ \<Rightarrow> False)"

definition tampered_run_id_fails ::
  "('sk, 'vk) crates \<Rightarrow> (string \<Rightarrow> string option) \<Rightarrow> string \<Rightarrow> (bytes \<Rightarrow> 'sk) \<Rightarrow> bool" where
  "tampered_run_id_fails X rd dir from_seed \<longleftrightarrow>
     over_fixture X rd dir from_seed (\<lambda>r vk.
       let r = r\<lparr>run_id := ''run-impersonated''\<rparr> in is_err (verify_record_dsse X r vk))"

definition tampered_actions_fail ::
  "('sk, 'vk) crates \<Rightarrow> (string \<Rightarrow> string option) \<Rightarrow> string \<Rightarrow> (bytes \<Rightarrow> 'sk) \<Rightarrow> bool" where
  "tampered_actions_fail X rd dir from_seed \<longleftrightarrow>
     over_fixture X rd dir from_seed (\<lambda>r vk.
       case actions r of
         [] \<Rightarrow> False
       | a # rest \<Rightarrow>
           (let r = r\<lparr>actions := a\<lparr>tool_name := ''POST /tampered''\<rparr> # rest\<rparr> in is_err (verify_record_dsse X r vk)))"

definition tampered_created_at_fails ::
  "('sk, 'vk) crates \<Rightarrow> (string \<Rightarrow> string option) \<Rightarrow> string \<Rightarrow> (bytes \<Rightarrow> 'sk) \<Rightarrow> bool" where
  "tampered_created_at_fails X rd dir from_seed \<longleftrightarrow>
     over_fixture X rd dir from_seed (\<lambda>r vk.
       let r = r\<lparr>created_at_ms := created_at_ms r + 1\<rparr> in is_err (verify_record_dsse X r vk))"

definition tampered_attribution_floor_fails ::
  "('sk, 'vk) crates \<Rightarrow> (string \<Rightarrow> string option) \<Rightarrow> string \<Rightarrow> (bytes \<Rightarrow> 'sk) \<Rightarrow> bool" where
  "tampered_attribution_floor_fails X rd dir from_seed \<longleftrightarrow>
     over_fixture X rd dir from_seed (\<lambda>r vk.
       let r = r\<lparr>run_attribution_backing_floor := Some ''qualified_signature''\<rparr> in is_err (verify_record_dsse X r vk))"

definition tampered_observed_grades_fail ::
  "('sk, 'vk) crates \<Rightarrow> (string \<Rightarrow> string option) \<Rightarrow> string \<Rightarrow> (bytes \<Rightarrow> 'sk) \<Rightarrow> bool" where
  "tampered_observed_grades_fail X rd dir from_seed \<longleftrightarrow>
     over_fixture X rd dir from_seed (\<lambda>r vk.
       let r = r\<lparr>run_attribution_backing_floor := Some ''operator_asserted''\<rparr>;
           r = r\<lparr>run_attribution_backing_observed := Some [''operator_asserted'']\<rparr>
       in case run_attribution_backing_observed r of
            None \<Rightarrow> False
          | Some observed \<Rightarrow>
              (let r = r\<lparr>run_attribution_backing_observed := Some (observed @ [''qualified_signature''])\<rparr>
               in is_err (verify_record_dsse X r vk)))"

text \<open>The payload is decoded, mutated at one place, written again and put back; an \<open>expect\<close> fails the test.\<close>

definition payload_tamper_fails ::
  "('sk, 'vk) crates \<Rightarrow> json_step list \<Rightarrow> json \<Rightarrow> aep_record \<Rightarrow> 'vk \<Rightarrow> bool" where
  "payload_tamper_fails X path new r vk =
     (case dsse_envelope r of
        None \<Rightarrow> False
      | Some envelope \<Rightarrow>
          (case b64_decode X (payload envelope) of
             Inl _ \<Rightarrow> False
           | Inr body \<Rightarrow>
               (case json_from_slice X body of
                  Inl _ \<Rightarrow> False
                | Inr statement \<Rightarrow>
                    (case json_assign path new statement of
                       Ok statement \<Rightarrow>
                         (let envelope = envelope\<lparr>payload := b64_encode X (json_render (json_to_string X) statement)\<rparr>;
                              r = r\<lparr>dsse_envelope := Some envelope\<rparr>
                          in is_err (verify_record_dsse X r vk))
                     | _ \<Rightarrow> False))))"

definition tampered_payload_fails_pae_signature ::
  "('sk, 'vk) crates \<Rightarrow> (string \<Rightarrow> string option) \<Rightarrow> string \<Rightarrow> (bytes \<Rightarrow> 'sk) \<Rightarrow> bool" where
  "tampered_payload_fails_pae_signature X rd dir from_seed \<longleftrightarrow>
     over_fixture X rd dir from_seed
       (payload_tamper_fails X [Member ''predicate'', Member ''run_id''] (JString ''run-impersonated''))"

definition tampered_subject_digest_fails_pae_signature ::
  "('sk, 'vk) crates \<Rightarrow> (string \<Rightarrow> string option) \<Rightarrow> string \<Rightarrow> (bytes \<Rightarrow> 'sk) \<Rightarrow> bool" where
  "tampered_subject_digest_fails_pae_signature X rd dir from_seed \<longleftrightarrow>
     over_fixture X rd dir from_seed
       (payload_tamper_fails X [Member ''subject'', Item 0, Member ''digest'', Member ''sha256'']
         (JString (replicate 64 CHR ''0'')))"

definition wrong_public_key_fails ::
  "('sk, 'vk) crates \<Rightarrow> (string \<Rightarrow> string option) \<Rightarrow> string \<Rightarrow> (bytes \<Rightarrow> 'sk) \<Rightarrow> bool" where
  "wrong_public_key_fails X rd dir from_seed \<longleftrightarrow>
     over_fixture X rd dir from_seed (\<lambda>r _.
       let attacker = from_seed (replicate 32 (CHR 0x42)) in is_err (verify_record_dsse X r (ed_public X attacker)))"

definition empty_signature_list_fails ::
  "('sk, 'vk) crates \<Rightarrow> (string \<Rightarrow> string option) \<Rightarrow> string \<Rightarrow> (bytes \<Rightarrow> 'sk) \<Rightarrow> bool" where
  "empty_signature_list_fails X rd dir from_seed \<longleftrightarrow>
     over_fixture X rd dir from_seed (\<lambda>r vk.
       case dsse_envelope r of
         None \<Rightarrow> False
       | Some envelope \<Rightarrow>
           (let r = r\<lparr>dsse_envelope := Some (envelope\<lparr>signatures := []\<rparr>)\<rparr> in is_err (verify_record_dsse X r vk)))"

section \<open>Mutation keeps a value well formed\<close>

fun json_at :: "json_step list \<Rightarrow> json \<Rightarrow> json option" where
  "json_at [] v = Some v"
| "json_at (Member k # p) (JObject m) = Option.bind (map_of m k) (json_at p)"
| "json_at (Item i # p) (JArray vs) = (if i < length vs then json_at p (vs ! i) else None)"
| "json_at _ v = None"

lemma json_assign_at: "json_assign p new v = Ok v' \<Longrightarrow> json_at p v' = Some new"
  by (induction p new v arbitrary: v' rule: json_assign.induct) (auto split: if_splits)

lemma json_assign_reaches: "json_at p v \<noteq> None \<Longrightarrow> \<exists>v'. json_assign p new v = Ok v'"
proof (induction p new v rule: json_assign.induct)
  case (2 k p new m)
  then show ?case by (cases "map_of m k") auto
qed (auto split: if_splits)

fun step_ok :: "json_step \<Rightarrow> bool" where
  "step_ok (Member k) = utf8_valid k"
| "step_ok (Item i) = True"

lemma map_insert_entries: "(k', w') \<in> set (map_insert k w m) \<Longrightarrow> (k', w') = (k, w) \<or> (k', w') \<in> set m"
  using map_insert_set [of k w m] by auto

lemma json_assign_ok:
  "json_assign p new v = Ok v' \<Longrightarrow> json_ok v \<Longrightarrow> json_ok new \<Longrightarrow> \<forall>s \<in> set p. step_ok s \<Longrightarrow> json_ok v'"
proof (induction p new v arbitrary: v' rule: json_assign.induct)
  case (2 k p new m)
  then obtain w where w: "json_assign p new (case map_of m k of None \<Rightarrow> JNull | Some w \<Rightarrow> w) = Ok w"
    and v': "v' = JObject (map_insert k w m)" by auto
  have "json_ok (case map_of m k of None \<Rightarrow> JNull | Some w \<Rightarrow> w)"
    using 2(3) by (auto split: option.split dest: map_of_SomeD)
  with 2(1) [OF w] 2(4,5) have "json_ok w" by simp
  with 2(3,5) show ?case by (auto simp: v' dest!: map_insert_entries)
next
  case (4 i p new vs)
  then show ?case by (auto split: if_splits dest!: set_update_subset_insert [THEN subsetD])
qed (auto simp: map_ok_Cons)

lemma json_assign_plain:
  "json_assign p new v = Ok v' \<Longrightarrow> json_plain n v \<Longrightarrow> length p \<le> n \<Longrightarrow> json_plain (n - length p) new \<Longrightarrow> json_plain n v'"
proof (induction p new v arbitrary: v' n rule: json_assign.induct)
  case (2 k p new m)
  obtain n' where n: "n = Suc n'" using 2(4) by (cases n) auto
  from 2 obtain w where w: "json_assign p new (case map_of m k of None \<Rightarrow> JNull | Some w \<Rightarrow> w) = Ok w"
    and v': "v' = JObject (map_insert k w m)" by auto
  have m: "entries_plain n' m" using 2(3) by (simp add: n json_plain_object)
  then have "json_plain n' (case map_of m k of None \<Rightarrow> JNull | Some w \<Rightarrow> w)"
    by (cases "map_of m k") (force simp: entries_plain_def json_plain_def dest: map_of_SomeD)+
  with 2(1) [OF w] 2(4,5) n have "json_plain n' w" by simp
  with m show ?case
    by (auto simp: v' n json_plain_object entries_plain_def dest!: map_insert_entries)
next
  case (3 k p new)
  then obtain n' w where n: "n = Suc n'" and w: "json_assign p new JNull = Ok w" "v' = JObject [(k, w)]"
    by (cases n) auto
  have "json_plain n' JNull" by (simp add: json_plain_def)
  with 3(1) [OF w(1)] 3(4,5) n have "json_plain n' w" by simp
  then show ?case by (simp add: n w json_plain_object entries_plain_def)
next
  case (4 i p new vs)
  then obtain n' w where n: "n = Suc n'" and i: "i < length vs" and w: "json_assign p new (vs ! i) = Ok w" "v' = JArray (vs[i := w])"
    by (cases n) (auto split: if_splits)
  have vs: "\<forall>v \<in> set vs. json_plain n' v" using 4(3) by (simp add: n)
  with i 4(1) [OF i w(1)] 4(4,5) n have "json_plain n' w" by simp
  with vs show ?case by (auto simp: n w dest!: set_update_subset_insert [THEN subsetD])
qed simp_all

section \<open>The matrix\<close>

lemma predicate_run_id:
  assumes "record_flat r"
  shows "json_at [Member ''run_id''] (record_predicate r) = Some (JString (run_id r))"
proof -
  have "''run_id'' \<notin> fst ` set (rev (extra r))"
    using assms by (auto simp: record_flat_def aep_record_names_def)
  then have "map_of (rev (extra r)) ''run_id'' = None" by (rule map_of_None)
  moreover have "map_of (rev (aep_record_declared (strip_signing r))) ''run_id'' = Some (JString (run_id r))"
    using record_declared_ok [of "strip_signing r"]
    by (subst map_of_rev) (simp_all add: map_ok_distinct aep_record_declared_def aep_record_fields_def)
  moreover have "extra (strip_signing r) = extra r" by (simp add: strip_signing_def)
  ultimately show ?thesis
    by (simp add: record_predicate_def aep_record_to_value_def map_of_map_collect map_add_def)
qed

text \<open>No two of the texts of these records have the same digest.\<close>

definition digest_differs :: "('sk, 'vk) crates \<Rightarrow> aep_record \<Rightarrow> aep_record \<Rightarrow> bool" where
  "digest_differs X r r' \<longleftrightarrow>
     sha256 X (canonical_json X (record_predicate r)) = sha256 X (canonical_json X (record_predicate r')) \<longrightarrow>
     canonical_json X (record_predicate r) = canonical_json X (record_predicate r')"

lemma tampered_content_rejected:
  assumes "dsse_signable X r" "record_flat r" "json_lexical (json_to_string X)"
    and "dsse_envelope r' = dsse_envelope (sealed X r key kid)" "record_ok r'" "record_flat r'"
    and "digest_differs X r' r" "strip_signing r' \<noteq> strip_signing r"
  shows "is_err (verify_record_dsse X r' (ed_public X key))"
proof -
  from assms(1) have "hex_laws X" "record_ok r" by (simp_all add: dsse_signable_def crate_laws_def)
  then have "record_digest X r' \<noteq> record_digest X r"
    using assms(2,3,5-8) record_digest_binds [of X r' r] by (auto simp: digest_differs_def)
  then show ?thesis
    by (simp add: verify_under_sealed_envelope [OF assms(1,4)] is_err_def)
qed

lemma unverified_envelope_rejected:
  assumes "\<And>body. \<not> envelope_covers X (dsse_envelope r) vk body"
  shows "is_err (verify_record_dsse X r vk)"
proof -
  have "verify_envelope X r vk \<noteq> Ok body" for body
    using assms by (simp add: verify_envelope_Ok_iff)
  then obtain e where "verify_envelope X r vk = Err e"
    using verify_envelope_no_panic [of X r vk] by (cases "verify_envelope X r vk") blast+
  then show ?thesis by (simp add: verify_record_dsse_def is_err_def)
qed

definition signed_text :: "('sk, 'vk) crates \<Rightarrow> aep_record \<Rightarrow> bytes" where
  "signed_text X r = pae_encode IN_TOTO_PAYLOAD_TYPE (canonical_json X (record_statement X r))"

text \<open>A payload put under the signature of another: if the signature is accepted for it, what it
says of the record decides.\<close>

lemma verify_repacked:
  assumes "crate_laws X" "json_from_slice X body = Inr stmt"
    and "dsse_envelope r' =
      Some (seal_statement X (canonical_json X (record_statement X r)) key kid\<lparr>payload := b64_encode X body\<rparr>)"
  shows "verify_record_dsse X r' vk =
    (case ed_verify X vk (pae_encode IN_TOTO_PAYLOAD_TYPE body) (ed_sign X key (signed_text X r)) of
       Inl e \<Rightarrow> Err (SignatureInvalid e)
     | Inr _ \<Rightarrow> and_then (check_statement_types stmt) (\<lambda>_. check_subject stmt (run_id r') (record_digest X r')))"
proof -
  have b64: "b64_laws X" and len: "length (ed_sign X key m) = 64" for m
    using assms(1) by (simp_all add: crate_laws_def ed_laws_def)
  then have decode: "b64_decode X (b64_encode X bs) = Inr bs" for bs by (simp add: b64_laws_def)
  show ?thesis
    using assms(2,3) by (simp add: verify_record_dsse_def verify_envelope_def seal_statement_def Let_def decode len
        sig_roundtrip [OF b64] ok_or_def fail_if_def map_err_def signed_text_def split: sum.split)
qed

lemma verify_other_key:
  assumes "dsse_signable X r"
  shows "is_err (verify_record_dsse X (sealed X r key kid) vk) \<longleftrightarrow>
    ed_verify X vk (signed_text X r) (ed_sign X key (signed_text X r)) \<noteq> Inr ()"
proof -
  let ?body = "canonical_json X (record_statement X r)"
  have "crate_laws X" using assms by (simp add: dsse_signable_def)
  moreover have "dsse_envelope (sealed X r key kid) =
      Some (seal_statement X ?body key kid\<lparr>payload := b64_encode X ?body\<rparr>)"
    by (simp add: seal_statement_def Let_def)
  moreover have "record_digest X (sealed X r key kid) = record_digest X r"
    by (rule record_digest_cong) simp
  moreover have "check_statement_types (record_statement X r) = Ok ()"
    by (simp add: types_Ok_iff statement_typed_def record_statement_def)
  ultimately show ?thesis
    using verify_repacked [of X ?body "record_statement X r" "sealed X r key kid" r key kid vk] statement_parses [OF assms]
    by (simp add: check_subject_statement is_err_def flip: signed_text_def split: sum.split)
qed

text \<open>The statement after one of the mutations of the payload, and what the test then says.\<close>

lemma rewritten_statement:
  assumes "dsse_signable X r" "json_at p (record_statement X r) = Some old" "old \<noteq> new"
    and "json_ok new" "\<forall>s \<in> set p. step_ok s" "length p \<le> json_depth_limit" "json_plain (json_depth_limit - length p) new"
  obtains v where "json_assign p new (record_statement X r) = Ok v"
    and "json_from_slice X (json_render (json_to_string X) v) = Inr v"
    and "json_render (json_to_string X) v \<noteq> canonical_json X (record_statement X r)"
proof -
  have laws: "json_parses X" using assms(1) by (simp_all add: dsse_signable_def crate_laws_def)
  obtain v where v: "json_assign p new (record_statement X r) = Ok v"
    using json_assign_reaches [of p "record_statement X r" new] assms(2) by auto
  have "json_ok v" "json_plain json_depth_limit v"
    using v statement_ok [OF assms(1)] assms(4-7) by (auto intro: json_assign_ok json_assign_plain)
  then have reads: "json_from_slice X (json_render (json_to_string X) v) = Inr v"
    using json_parses_value [OF laws, of v] by (simp add: json_ok_strings_ok json_ok_rebuild json_plain_def)
  moreover have "v \<noteq> record_statement X r" using json_assign_at [OF v] assms(2,3) by auto
  ultimately have "json_render (json_to_string X) v \<noteq> canonical_json X (record_statement X r)"
    using statement_parses [OF assms(1)] by auto
  with v reads show thesis by (rule that)
qed

lemma payload_tamper_eq:
  assumes "dsse_signable X r" "json_assign p new (record_statement X r) = Ok v"
    and "json_from_slice X (json_render (json_to_string X) v) = Inr v"
  shows "payload_tamper_fails X p new (sealed X r key kid) (ed_public X key) \<longleftrightarrow>
    ed_verify X (ed_public X key) (pae_encode IN_TOTO_PAYLOAD_TYPE (json_render (json_to_string X) v))
      (ed_sign X key (signed_text X r)) \<noteq> Inr () \<or>
    is_err (and_then (check_statement_types v) (\<lambda>_. check_subject v (run_id r) (record_digest X r)))"
proof -
  let ?body = "canonical_json X (record_statement X r)"
  let ?r = "sealed X r key kid\<lparr>dsse_envelope :=
    Some (seal_statement X ?body key kid\<lparr>payload := b64_encode X (json_render (json_to_string X) v)\<rparr>)\<rparr>"
  have laws: "crate_laws X" and b64: "b64_laws X" using assms(1) by (simp_all add: dsse_signable_def crate_laws_def)
  have "b64_decode X (payload (seal_statement X ?body key kid)) = Inr ?body"
    using b64 by (simp add: seal_statement_def Let_def b64_laws_def)
  moreover have "record_digest X ?r = record_digest X r" by (rule record_digest_cong) simp
  ultimately show ?thesis
    using verify_repacked [OF laws assms(3), of ?r r key kid "ed_public X key"]
    by (auto simp: payload_tamper_fails_def statement_parses [OF assms(1)] assms(2) is_err_def split: sum.split)
qed

text \<open>Verification never looks at the predicate of the payload: it derives the digest from the record.\<close>

lemma rewritten_predicate_checks:
  assumes "json_assign (Member ''predicate'' # p) new (record_statement X r) = Ok v"
  shows "and_then (check_statement_types v) (\<lambda>_. check_subject v (run_id r) (record_digest X r)) = Ok ()"
proof -
  obtain m where m: "record_statement X r = JObject m"
    by (simp add: record_statement_def wrap_in_toto_statement_def)
  with assms obtain w where v: "v = JObject (map_insert ''predicate'' w m)" by auto
  have kept: "json_index v k = json_index (record_statement X r) k" if "k \<noteq> ''predicate''" for k
    using that by (simp add: m v)
  have "check_statement_types v = check_statement_types (record_statement X r)"
    "check_subject v (run_id r) (record_digest X r) = check_subject (record_statement X r) (run_id r) (record_digest X r)"
    by (simp_all add: check_statement_types_def check_subject_def kept)
  moreover have "check_statement_types (record_statement X r) = Ok ()"
    by (simp add: types_Ok_iff statement_typed_def record_statement_def)
  ultimately show ?thesis by (simp add: check_subject_statement)
qed

lemma rewritten_digest_checks:
  assumes "json_at [Member ''subject'', Item 0, Member ''digest'', Member ''sha256''] v = Some (JString d')" "d' \<noteq> d"
  shows "is_err (and_then (check_statement_types v) (\<lambda>_. check_subject v rid d))"
proof -
  obtain m where m: "v = JObject m" using assms(1) by (cases v) auto
  then obtain a where a: "map_of m ''subject'' = Some a"
    "json_at [Item 0, Member ''digest'', Member ''sha256''] a = Some (JString d')"
    using assms(1) by (auto simp: bind_eq_Some_conv)
  then obtain s ss where s: "a = JArray (s # ss)" "json_at [Member ''digest'', Member ''sha256''] s = Some (JString d')"
    by (cases a rule: json.exhaust) (auto simp: neq_Nil_conv split: if_splits)
  then obtain m' where m': "s = JObject m'" by (cases s) auto
  with s(2) obtain g where g: "map_of m' ''digest'' = Some g" "json_at [Member ''sha256''] g = Some (JString d')"
    by (auto simp: bind_eq_Some_conv)
  then obtain m'' where g': "g = JObject m''" by (cases g) auto
  with g(2) have sha: "map_of m'' ''sha256'' = Some (JString d')" by (auto simp: bind_eq_Some_conv)
  have "is_err (check_subject v rid d)"
    using assms(2) by (auto simp: check_subject_def m a(1) s(1) m' g(1) g' sha map_index_def ok_or_def fail_if_def
        is_err_def split: option.split)
  then show ?thesis
    using types_no_panic [of v] by (cases "check_statement_types v") (simp_all add: is_err_def)
qed

lemma statement_places:
  assumes "record_flat r"
  shows "json_at [Member ''predicate'', Member ''run_id''] (record_statement X r) = Some (JString (run_id r))"
    and "json_at [Member ''subject'', Item 0, Member ''digest'', Member ''sha256''] (record_statement X r) =
      Some (JString (record_digest X r))"
  using predicate_run_id [OF assms]
  by (simp_all add: record_statement_def wrap_in_toto_statement_def map_of_map_collect)

text \<open>What the digests of the matrix must tell apart.\<close>

definition content_tampers :: "aep_record \<Rightarrow> aep_record list" where
  "content_tampers r =
     [r\<lparr>user_id := Some ''user-attacker''\<rparr>,
      r\<lparr>actions := (hd (actions r))\<lparr>tool_name := ''POST /tampered''\<rparr> # tl (actions r)\<rparr>,
      r\<lparr>created_at_ms := created_at_ms r + 1\<rparr>,
      r\<lparr>run_attribution_backing_floor := Some ''qualified_signature''\<rparr>,
      r\<lparr>run_attribution_backing_floor := Some ''operator_asserted'',
        run_attribution_backing_observed := Some [''operator_asserted'', ''qualified_signature'']\<rparr>]"

text \<open>The record holds none of the values the tests put in.\<close>

definition untampered :: "('sk, 'vk) crates \<Rightarrow> aep_record \<Rightarrow> bool" where
  "untampered X r \<longleftrightarrow>
     run_id r \<noteq> ''run-impersonated'' \<and> user_id r \<noteq> Some ''user-attacker'' \<and>
     actions r \<noteq> [] \<and> tool_name (hd (actions r)) \<noteq> ''POST /tampered'' \<and>
     run_attribution_backing_floor r \<noteq> Some ''qualified_signature'' \<and>
     run_attribution_backing_observed r \<noteq> Some [''operator_asserted'', ''qualified_signature''] \<and>
     record_digest X r \<noteq> replicate 64 CHR ''0''"

lemma tampered_record_ok:
  assumes "record_ok r" "record_flat r" "utf8_valid s" "\<forall>g \<in> set gs. utf8_valid g"
  shows "record_ok (r\<lparr>user_id := Some s\<rparr>)" "record_flat (r\<lparr>user_id := Some s\<rparr>)"
    and "record_ok (r\<lparr>created_at_ms := n\<rparr>)" "record_flat (r\<lparr>created_at_ms := n\<rparr>)"
    and "record_ok (r\<lparr>run_attribution_backing_floor := Some s\<rparr>)" "record_flat (r\<lparr>run_attribution_backing_floor := Some s\<rparr>)"
    and "record_ok (r\<lparr>run_attribution_backing_floor := Some s, run_attribution_backing_observed := Some gs\<rparr>)"
      "record_flat (r\<lparr>run_attribution_backing_floor := Some s, run_attribution_backing_observed := Some gs\<rparr>)"
  using assms by (simp_all add: record_ok_def record_strings_def record_extras_def record_flat_def ball_Un)

lemma tampered_action_ok:
  assumes "record_ok r" "record_flat r" "actions r = a # rest" "utf8_valid s"
  shows "record_ok (r\<lparr>actions := a\<lparr>tool_name := s\<rparr> # rest\<rparr>)" "record_flat (r\<lparr>actions := a\<lparr>tool_name := s\<rparr> # rest\<rparr>)"
proof -
  have "action_extras (a\<lparr>tool_name := s\<rparr>) = action_extras a" "action_flat (a\<lparr>tool_name := s\<rparr>) = action_flat a"
    "set (action_strings (a\<lparr>tool_name := s\<rparr>)) \<subseteq> insert s (set (action_strings a))"
    by (auto simp: action_extras_def action_flat_def action_strings_def)
  with assms show "record_ok (r\<lparr>actions := a\<lparr>tool_name := s\<rparr> # rest\<rparr>)" "record_flat (r\<lparr>actions := a\<lparr>tool_name := s\<rparr> # rest\<rparr>)"
    by (auto simp: record_ok_def record_strings_def record_extras_def record_flat_def)
qed

lemma content_tampers_ok:
  assumes "record_ok r" "record_flat r" "actions r \<noteq> []"
  shows "\<forall>r' \<in> set (content_tampers r). record_ok r' \<and> record_flat r'"
proof -
  obtain a rest where "actions r = a # rest" using assms(3) by (cases "actions r") auto
  with assms(1,2) show ?thesis
    by (simp add: content_tampers_def tampered_record_ok tampered_record_ok(1-6) [where gs = "[]"]
        tampered_record_ok(3,4) [where s = "[]" and gs = "[]"]
        tampered_action_ok utf8_valid_literal)
qed

lemma strip_signing_fields:
  assumes "strip_signing r' = strip_signing r"
  shows "user_id r' = user_id r" "actions r' = actions r" "created_at_ms r' = created_at_ms r"
    "run_attribution_backing_floor r' = run_attribution_backing_floor r"
    "run_attribution_backing_observed r' = run_attribution_backing_observed r"
proof -
  have "f (strip_signing r') = f (strip_signing r)" for f :: "aep_record \<Rightarrow> 'b" using assms by simp
  from this [of user_id] this [of actions] this [of created_at_ms] this [of run_attribution_backing_floor]
    this [of run_attribution_backing_observed]
  show "user_id r' = user_id r" "actions r' = actions r" "created_at_ms r' = created_at_ms r"
    "run_attribution_backing_floor r' = run_attribution_backing_floor r"
    "run_attribution_backing_observed r' = run_attribution_backing_observed r"
    by (simp_all add: strip_signing_def)
qed

lemma content_tampers_differ:
  assumes "untampered X r"
  shows "\<forall>r' \<in> set (content_tampers r). strip_signing r' \<noteq> strip_signing r"
proof
  fix r' assume r': "r' \<in> set (content_tampers r)"
  from assms obtain a rest where acts: "actions r = a # rest" "tool_name a \<noteq> ''POST /tampered''"
    by (cases "actions r") (simp_all add: untampered_def)
  have "a\<lparr>tool_name := s\<rparr> \<noteq> a" if "tool_name a \<noteq> s" for s
    using that by (metis action_evidence.select_convs(2) action_evidence.surjective action_evidence.update_convs(2))
  with acts(2) have "a\<lparr>tool_name := ''POST /tampered''\<rparr> \<noteq> a" by blast
  note differ = this
  show "strip_signing r' \<noteq> strip_signing r"
  proof
    assume "strip_signing r' = strip_signing r"
    from strip_signing_fields [OF this] r' assms acts differ show False
      unfolding content_tampers_def untampered_def list.set insert_iff empty_iff
      by (elim disjE) simp_all
  qed
qed

text \<open>The groups of the matrix, each for the record that was signed.\<close>

lemma sealed_kept:
  assumes "record_ok r" "record_flat r" "untampered X (sealed X r key kid)"
  shows "record_ok (sealed X r key kid)" "record_flat (sealed X r key kid)" "actions (sealed X r key kid) \<noteq> []"
  using assms
  by (simp_all add: sealed_def strip_signing_def record_ok_def record_strings_def record_extras_def
      record_flat_def untampered_def)

lemma content_tampers_rejected:
  assumes "dsse_signable X r" "record_flat r" "json_lexical (json_to_string X)"
    and "untampered X (sealed X r key kid)" "r' \<in> set (content_tampers (sealed X r key kid))" "digest_differs X r' r"
  shows "is_err (verify_record_dsse X r' (ed_public X key))"
proof (rule tampered_content_rejected [OF assms(1-3)])
  have "record_ok r" using assms(1) by (simp add: dsse_signable_def)
  with content_tampers_ok [OF sealed_kept [OF this assms(2,4)]] assms(5)
  show "record_ok r'" "record_flat r'" by blast+
  show "dsse_envelope r' = dsse_envelope (sealed X r key kid)"
    using assms(5) by (auto simp: content_tampers_def)
  show "digest_differs X r' r" by (rule assms(6))
  have "strip_signing r' \<noteq> strip_signing (sealed X r key kid)"
    using content_tampers_differ [OF assms(4)] assms(5) by blast
  then show "strip_signing r' \<noteq> strip_signing r" by simp
qed

lemma moved_run_rejected:
  assumes "dsse_signable X r" "run_id r \<noteq> s"
  shows "is_err (verify_record_dsse X (sealed X r key kid\<lparr>run_id := s\<rparr>) (ed_public X key))"
  using assms(2) verify_under_sealed_envelope [OF assms(1), of "sealed X r key kid\<lparr>run_id := s\<rparr>" key kid]
  by (simp add: is_err_def)

lemma predicate_tamper_iff:
  assumes "dsse_signable X r" "record_flat r" "run_id r \<noteq> s" "utf8_valid s"
  shows "\<exists>v. json_assign [Member ''predicate'', Member ''run_id''] (JString s) (record_statement X r) = Ok v \<and>
    pae_encode IN_TOTO_PAYLOAD_TYPE (json_render (json_to_string X) v) \<noteq> signed_text X r \<and>
    (payload_tamper_fails X [Member ''predicate'', Member ''run_id''] (JString s) (sealed X r key kid) (ed_public X key) \<longleftrightarrow>
     ed_verify X (ed_public X key) (pae_encode IN_TOTO_PAYLOAD_TYPE (json_render (json_to_string X) v))
       (ed_sign X key (signed_text X r)) \<noteq> Inr ())"
proof -
  obtain v where v: "json_assign [Member ''predicate'', Member ''run_id''] (JString s) (record_statement X r) = Ok v"
    "json_from_slice X (json_render (json_to_string X) v) = Inr v"
    "json_render (json_to_string X) v \<noteq> canonical_json X (record_statement X r)"
    by (rule rewritten_statement [OF assms(1) statement_places(1) [OF assms(2)], of "JString s"])
      (use assms(3,4) in \<open>simp_all add: json_depth_limit_def utf8_valid_literal\<close>)
  then show ?thesis
    using payload_tamper_eq [OF assms(1) v(1,2), of key kid] rewritten_predicate_checks [OF v(1)]
    by (intro exI [of _ v]) (simp add: signed_text_def pae_inject is_err_def)
qed

lemma subject_tamper_fails:
  assumes "dsse_signable X r" "record_flat r" "record_digest X r \<noteq> d" "utf8_valid d"
  shows "payload_tamper_fails X [Member ''subject'', Item 0, Member ''digest'', Member ''sha256''] (JString d)
    (sealed X r key kid) (ed_public X key)"
proof -
  obtain v where v: "json_assign [Member ''subject'', Item 0, Member ''digest'', Member ''sha256''] (JString d)
      (record_statement X r) = Ok v"
    "json_from_slice X (json_render (json_to_string X) v) = Inr v"
    by (rule rewritten_statement [OF assms(1) statement_places(2) [OF assms(2)], of "JString d"])
      (use assms(3,4) in \<open>simp_all add: json_depth_limit_def utf8_valid_literal\<close>)
  then show ?thesis
    using rewritten_digest_checks [OF json_assign_at [OF v(1)] assms(3) [symmetric]]
    by (simp add: payload_tamper_eq [OF assms(1) v])
qed

lemma unsigned_rejected:
  "is_err (verify_record_dsse X (r\<lparr>dsse_envelope := Some (env\<lparr>signatures := []\<rparr>)\<rparr>) vk)"
  by (rule unverified_envelope_rejected) (simp add: envelope_covers_def)

lemma zeros_valid: "utf8_valid (replicate n CHR ''0'')"
  by (rule utf8_valid_ascii) (simp add: ascii_def)

lemmas fixture_tests = js_emitted_dsse_record_verifies_with_the_same_seed_def tampered_js_record_fails_binding_def
  tampered_run_id_fails_def tampered_actions_fail_def tampered_created_at_fails_def
  tampered_attribution_floor_fails_def tampered_observed_grades_fail_def
  tampered_payload_fails_pae_signature_def tampered_subject_digest_fails_pae_signature_def
  wrong_public_key_fails_def empty_signature_list_fails_def over_fixture_def signed_fixture_def

text \<open>C19: the tamper matrix holds for every record signed by the construction the two languages
share, not only for the one in the fixture file, provided it is within the limits of signing (UTF-8
strings, no floating point number and at most 122 nested containers in the catch-all maps), its
catch-all maps declare no member of the struct, it has an action, it holds none of the values the tests put in, and the digests of the
five changed contents do not collide with the original's. Read back from its text it verifies, and a
changed run id, user, action, time stamp, backing floor or list of grades, a payload whose subject
digest is rewritten and an empty list of signatures are all reported as errors, whatever the signature
scheme accepts. The two remaining tests rest on the signature alone: a payload whose predicate is
rewritten, which is never the signed text, is rejected exactly if the signature does not verify for
it, and another key is rejected exactly if the signature does not verify under it.\<close>

theorem tamper_matrix_rejected:
  assumes "dsse_signable X r" "record_flat r" "utf8_valid kid"
    and "sign_record_dsse X r (from_seed js_test_seed) kid = (js, Ok ())"
    and "rd (fixture_path dir ''wasmagent-js-dsse.json'') = Some (aep_record_to_string X js)"
    and "untampered X js" "json_lexical (json_to_string X)"
    and "\<forall>r' \<in> set (content_tampers js). digest_differs X r' r"
  shows "list_all (\<lambda>test. test X rd dir from_seed)
      [js_emitted_dsse_record_verifies_with_the_same_seed, tampered_js_record_fails_binding,
       tampered_run_id_fails, tampered_actions_fail, tampered_created_at_fails, tampered_attribution_floor_fails,
       tampered_observed_grades_fail, tampered_subject_digest_fails_pae_signature, empty_signature_list_fails] \<and>
    (\<exists>v. json_assign [Member ''predicate'', Member ''run_id''] (JString ''run-impersonated'') (record_statement X r) = Ok v \<and>
       pae_encode IN_TOTO_PAYLOAD_TYPE (json_render (json_to_string X) v) \<noteq> signed_text X r \<and>
       (tampered_payload_fails_pae_signature X rd dir from_seed \<longleftrightarrow>
        ed_verify X (ed_public X (from_seed js_test_seed))
          (pae_encode IN_TOTO_PAYLOAD_TYPE (json_render (json_to_string X) v))
          (ed_sign X (from_seed js_test_seed) (signed_text X r)) \<noteq> Inr ())) \<and>
    (wrong_public_key_fails X rd dir from_seed \<longleftrightarrow>
     ed_verify X (ed_public X (from_seed (replicate 32 (CHR 0x42)))) (signed_text X r)
       (ed_sign X (from_seed js_test_seed) (signed_text X r)) \<noteq> Inr ())"
proof -
  let ?key = "from_seed js_test_seed"
  have js: "js = sealed X r ?key kid" using sign_OkD [OF assms(4)] by simp
  obtain a rest where acts: "actions js = a # rest"
    using assms(6) by (cases "actions js") (simp_all add: untampered_def)
  have load: "load_fixture X rd dir ''wasmagent-js-dsse.json'' = Ok js"
    using assms(5) sealed_text_back [OF assms(1-3)] by (simp add: load_fixture_def js)
  have verified: "verify_record_dsse X js (ed_public X ?key) = Ok ()" by (rule dsse.sign_verifies [OF assms(1,4)])
  have content: "is_err (verify_record_dsse X r' (ed_public X ?key))" if "r' \<in> set (content_tampers js)" for r'
    using content_tampers_rejected [OF assms(1,2,7)] assms(6,8) that unfolding js by blast
  have clean: "run_id r \<noteq> ''run-impersonated''" "record_digest X r \<noteq> replicate 64 CHR ''0''"
    using assms(6) record_digest_cong [of js r X] by (auto simp: untampered_def js)
  have impersonated: "is_err (verify_record_dsse X (js\<lparr>run_id := ''run-impersonated''\<rparr>) (ed_public X ?key))"
    unfolding js by (rule moved_run_rejected [OF assms(1) clean(1)])
  have env: "dsse_envelope js = Some (seal_statement X (canonical_json X (record_statement X r)) ?key kid)"
    by (simp add: js)
  have subject: "payload_tamper_fails X [Member ''subject'', Item 0, Member ''digest'', Member ''sha256'']
      (JString (replicate 64 CHR ''0'')) js (ed_public X ?key)"
    unfolding js by (rule subject_tamper_fails [OF assms(1,2) clean(2) zeros_valid])
  have tests: "list_all (\<lambda>test. test X rd dir from_seed)
      [js_emitted_dsse_record_verifies_with_the_same_seed, tampered_js_record_fails_binding,
       tampered_run_id_fails, tampered_actions_fail, tampered_created_at_fails, tampered_attribution_floor_fails,
       tampered_observed_grades_fail, tampered_subject_digest_fails_pae_signature, empty_signature_list_fails]"
    unfolding list.pred_inject fixture_tests load Let_def and_then.simps outcome.case prod.case acts list.case env
      option.case aep_record.select_convs aep_record.update_convs
    using content verified impersonated unsigned_rejected subject
    by (simp add: content_tampers_def acts del: replicate.simps)
  have payload: "tampered_payload_fails_pae_signature X rd dir from_seed \<longleftrightarrow>
      payload_tamper_fails X [Member ''predicate'', Member ''run_id''] (JString ''run-impersonated'')
        (sealed X r ?key kid) (ed_public X ?key)"
    unfolding fixture_tests load by (simp add: js)
  have wrong: "wrong_public_key_fails X rd dir from_seed \<longleftrightarrow>
      is_err (verify_record_dsse X (sealed X r ?key kid) (ed_public X (from_seed (replicate 32 (CHR 0x42)))))"
    unfolding fixture_tests load by (simp add: js Let_def del: replicate.simps)
  show ?thesis
    unfolding payload wrong verify_other_key [OF assms(1)]
    using tests predicate_tamper_iff [OF assms(1,2) clean(1), of ?key kid] by (simp add: utf8_valid_literal)
qed

end
