(* ===== verification/Corpus.thy ===== *)
theory Corpus
  imports Chain Samples
begin

text \<open>
  The adapter of \<open>crates/aep-core/tests/protocol_corpus.rs\<close>: it runs the verifier and the chain check
  over a corpus of fixture files and enforces the verdicts that the corpus' manifest declares. A test
  that fails is a panic; the result is how many verdicts were enforced, or nothing where the test is skipped.
\<close>

section \<open>Reading\<close>

text \<open>\<open>expect\<close> of an \<open>Option\<close> and of a \<open>Result\<close>.\<close>

definition expect :: "'a option \<Rightarrow> (unit, 'a) outcome" where
  "expect x = (case x of None \<Rightarrow> Panic | Some y \<Rightarrow> Ok y)"

definition expect_ok :: "'x + 'a \<Rightarrow> (unit, 'a) outcome" where
  "expect_ok x = (case x of Inl _ \<Rightarrow> Panic | Inr y \<Rightarrow> Ok y)"

lemma expect_Ok_iff [simp]: "expect x = Ok y \<longleftrightarrow> x = Some y" "expect_ok r = Ok y \<longleftrightarrow> r = Inr y"
  by (simp_all add: expect_def expect_ok_def split: option.split sum.split)

text \<open>\<open>Value::get\<close> of a member, and of one that is a string.\<close>

fun json_get :: "json \<Rightarrow> string \<Rightarrow> json option" where
  "json_get (JObject m) k = map_of m k"
| "json_get _ k = None"

definition get_str :: "json \<Rightarrow> string \<Rightarrow> string option" where
  "get_str v k = Option.bind (json_get v k) as_str"

text \<open>
  \<open>str::lines\<close>: the text up to each line feed, without a carriage return before it; what follows the
  last line feed is a line unless it is empty.
\<close>

fun strip_cr :: "string \<Rightarrow> string" where
  "strip_cr s = (if s \<noteq> [] \<and> last s = CHR 0x0D then butlast s else s)"

fun lines_from :: "string \<Rightarrow> string \<Rightarrow> string list" where
  "lines_from acc [] = (if acc = [] then [] else [acc])"
| "lines_from acc (c # s) =
     (if c = CHR 0x0A then strip_cr acc # lines_from [] s else lines_from (acc @ [c]) s)"

definition str_lines :: "string \<Rightarrow> string list" where
  "str_lines s = lines_from [] s"

definition ends_with :: "string \<Rightarrow> string \<Rightarrow> bool" where
  "ends_with s p \<longleftrightarrow> length p \<le> length s \<and> drop (length s - length p) s = p"

text \<open>
  \<open>u8::from_str_radix\<close> of two bytes in base 16: two digits of either case, or a plus sign and one digit.
  Slicing within a character panics like the digits of a non-ASCII character do.
\<close>

definition radix16 :: "char \<Rightarrow> nat option" where
  "radix16 c =
     (let n = of_char c in
      if 48 \<le> n \<and> n \<le> 57 then Some (n - 48)
      else if 97 \<le> n \<and> n \<le> 102 then Some (n - 87)
      else if 65 \<le> n \<and> n \<le> 70 then Some (n - 55)
      else None)"

definition hex_byte :: "char \<Rightarrow> char \<Rightarrow> char option" where
  "hex_byte c d =
     (if c = CHR ''+'' then map_option char_of (radix16 d)
      else Option.bind (radix16 c) (\<lambda>h. map_option (\<lambda>l. char_of (16 * h + l)) (radix16 d)))"

fun hex_to_bytes :: "string \<Rightarrow> (unit, bytes) outcome" where
  "hex_to_bytes (c # d # hex) =
     and_then (expect (hex_byte c d)) (\<lambda>b. and_then (hex_to_bytes hex) (\<lambda>bs. Ok (b # bs)))"
| "hex_to_bytes _ = Ok []"

text \<open>\<open>from_bytes\<close> is \<open>VerifyingKey::from_bytes\<close>, which takes 32 bytes.\<close>

definition verifying_key_from_hex :: "(bytes \<Rightarrow> 'vk option) \<Rightarrow> string \<Rightarrow> (unit, 'vk) outcome" where
  "verifying_key_from_hex from_bytes hex =
     and_then (hex_to_bytes hex) (\<lambda>bs. if length bs = 32 then expect (from_bytes bs) else Panic)"

text \<open>\<open>ex\<close> is \<open>Path::exists\<close>, \<open>rd\<close> is \<open>std::fs::read_to_string\<close>, \<open>var\<close> the environment variable.\<close>

definition corpus_dir :: "string option \<Rightarrow> (string \<Rightarrow> bool) \<Rightarrow> string option" where
  "corpus_dir var ex =
     (case var of None \<Rightarrow> None | Some dir \<Rightarrow> if ex (path_join dir ''manifest.json'') then Some dir else None)"

fun parse_records :: "('sk, 'vk) crates \<Rightarrow> string list \<Rightarrow> (unit, aep_record list) outcome" where
  "parse_records X [] = Ok []"
| "parse_records X (l # ls) =
     and_then (expect_ok (aep_record_from_slice X l)) (\<lambda>r. and_then (parse_records X ls) (\<lambda>rs. Ok (r # rs)))"

definition record_lines :: "string \<Rightarrow> string list" where
  "record_lines txt = filter (\<lambda>l. trim l \<noteq> []) (str_lines txt)"

section \<open>The checks of one entry\<close>

fun enforce :: "('sk, 'vk) crates \<Rightarrow> 'vk \<Rightarrow> bool \<Rightarrow> aep_record list \<Rightarrow> (unit, unit) outcome" where
  "enforce X key expected_ok [] = Ok ()"
| "enforce X key expected_ok (r # rs) =
     (case verify_record_dsse X r key of
        Err _ \<Rightarrow> if expected_ok then Panic else enforce X key expected_ok rs
      | Ok _ \<Rightarrow> if expected_ok then enforce X key expected_ok rs else Panic
      | Panic \<Rightarrow> Panic)"

definition check_authenticity ::
  "('sk, 'vk) crates \<Rightarrow> (bytes \<Rightarrow> 'vk option) \<Rightarrow> (string \<Rightarrow> string option) \<Rightarrow> string \<Rightarrow> string \<Rightarrow> json \<Rightarrow> string \<Rightarrow>
     nat \<Rightarrow> (unit, nat) outcome" where
  "check_authenticity X from_bytes rd corpus default_key_hex entry path executed =
     (let authenticity = get_str entry ''authenticity'' in
      if authenticity = Some ''dsse-valid'' \<or> authenticity = Some ''invalid'' then
        and_then (expect (rd (path_join corpus path))) (\<lambda>json.
        and_then (parse_records X (if ends_with path ''.jsonl'' then record_lines json else [json])) (\<lambda>records.
        and_then (case get_str entry ''verify_key'' of
                    None \<Rightarrow> Ok default_key_hex
                  | Some rel \<Rightarrow> expect (rd (path_join corpus rel))) (\<lambda>key_hex.
        and_then (verifying_key_from_hex from_bytes (trim key_hex)) (\<lambda>key.
        and_then (enforce X key (authenticity = Some ''dsse-valid'') records) (\<lambda>_.
        Ok (executed + 1))))))
      else Ok executed)"

definition check_chain ::
  "('sk, 'vk) crates \<Rightarrow> (string \<Rightarrow> string option) \<Rightarrow> string \<Rightarrow> json \<Rightarrow> string \<Rightarrow> nat \<Rightarrow> (unit, nat) outcome" where
  "check_chain X rd corpus entry path executed =
     (case get_str entry ''chain'' of
        None \<Rightarrow> Ok executed
      | Some expected \<Rightarrow>
          if expected = ''not-checked'' then Ok executed
          else and_then (expect (rd (path_join corpus path))) (\<lambda>json.
               and_then (parse_records X (record_lines json)) (\<lambda>records.
               if chain_status X records = expected then Ok (executed + 1) else Panic)))"

fun check_entries ::
  "('sk, 'vk) crates \<Rightarrow> (bytes \<Rightarrow> 'vk option) \<Rightarrow> (string \<Rightarrow> string option) \<Rightarrow> string \<Rightarrow> string \<Rightarrow> json list \<Rightarrow> nat \<Rightarrow>
     (unit, nat) outcome" where
  "check_entries X from_bytes rd corpus default_key_hex [] executed = Ok executed"
| "check_entries X from_bytes rd corpus default_key_hex (entry # rest) executed =
     and_then (expect (get_str entry ''path'')) (\<lambda>path.
     and_then (check_authenticity X from_bytes rd corpus default_key_hex entry path executed) (\<lambda>executed.
     and_then (check_chain X rd corpus entry path executed) (\<lambda>executed.
     check_entries X from_bytes rd corpus default_key_hex rest executed)))"

section \<open>The test\<close>

definition default_key :: "(string \<Rightarrow> string option) \<Rightarrow> string \<Rightarrow> json \<Rightarrow> (unit, string) outcome" where
  "default_key rd corpus manifest =
     and_then (case Option.bind (json_get manifest ''verifying_keys'') (\<lambda>v. get_str v ''js'') of
                 Some rel \<Rightarrow> expect (rd (path_join corpus rel))
               | None \<Rightarrow> expect (rd (path_join corpus ''dsse/js-verify-key.hex''))) (\<lambda>key_hex.
     Ok (trim key_hex))"

definition SUPPORTED_PROFILE :: string where
  "SUPPORTED_PROFILE = ''aep-dsse-ed25519-decoded-body-v1''"

definition protocol_corpus_authenticity_and_chain ::
  "('sk, 'vk) crates \<Rightarrow> (bytes \<Rightarrow> 'vk option) \<Rightarrow> string option \<Rightarrow> (string \<Rightarrow> bool) \<Rightarrow> (string \<Rightarrow> string option) \<Rightarrow>
     (unit, nat option) outcome" where
  "protocol_corpus_authenticity_and_chain X from_bytes var ex rd =
     (case corpus_dir var ex of
        None \<Rightarrow> Ok None
      | Some corpus \<Rightarrow>
          and_then (expect (rd (path_join corpus ''manifest.json''))) (\<lambda>txt.
          and_then (expect_ok (json_from_slice X txt)) (\<lambda>manifest.
          and_then (if get_str manifest ''signing_profile_id'' = Some SUPPORTED_PROFILE then Ok () else Panic) (\<lambda>_.
          and_then (expect (Option.bind (json_get manifest ''conformance_target'') as_array)) (\<lambda>entries.
          and_then (default_key rd corpus manifest) (\<lambda>default_key_hex.
          and_then (check_entries X from_bytes rd corpus default_key_hex entries 0) (\<lambda>executed.
          if 15 \<le> executed then Ok (Some executed) else Panic)))))))"

section \<open>What a check that passes has found\<close>

lemma enforce_Ok_iff:
  "enforce X key expected_ok rs = Ok u \<longleftrightarrow>
     (\<forall>r \<in> set rs. verify_record_dsse X r key \<noteq> Panic \<and> (verify_record_dsse X r key = Ok () \<longleftrightarrow> expected_ok))"
  by (induction rs) (auto split: outcome.split)

text \<open>The records of a fixture, the key of an entry, and what its two expectations say.\<close>

definition fixture_records ::
  "('sk, 'vk) crates \<Rightarrow> (string \<Rightarrow> string option) \<Rightarrow> string \<Rightarrow> string \<Rightarrow> bool \<Rightarrow> aep_record list \<Rightarrow> bool" where
  "fixture_records X rd corpus path by_line rs \<longleftrightarrow>
     (\<exists>txt. rd (path_join corpus path) = Some txt \<and>
        map (aep_record_from_slice X) (if by_line then record_lines txt else [txt]) = map Inr rs)"

definition authenticity_upheld ::
  "('sk, 'vk) crates \<Rightarrow> (bytes \<Rightarrow> 'vk option) \<Rightarrow> (string \<Rightarrow> string option) \<Rightarrow> string \<Rightarrow> string \<Rightarrow> json \<Rightarrow> string \<Rightarrow> bool" where
  "authenticity_upheld X from_bytes rd corpus default_key_hex entry path \<longleftrightarrow>
     (\<exists>records key_hex key.
        fixture_records X rd corpus path (ends_with path ''.jsonl'') records \<and>
        (case get_str entry ''verify_key'' of
           None \<Rightarrow> key_hex = default_key_hex
         | Some rel \<Rightarrow> rd (path_join corpus rel) = Some key_hex) \<and>
        verifying_key_from_hex from_bytes (trim key_hex) = Ok key \<and>
        (\<forall>r \<in> set records. verify_record_dsse X r key \<noteq> Panic \<and>
           (verify_record_dsse X r key = Ok () \<longleftrightarrow> get_str entry ''authenticity'' = Some ''dsse-valid'')))"

definition chain_upheld ::
  "('sk, 'vk) crates \<Rightarrow> (string \<Rightarrow> string option) \<Rightarrow> string \<Rightarrow> json \<Rightarrow> string \<Rightarrow> bool" where
  "chain_upheld X rd corpus entry path \<longleftrightarrow>
     (\<exists>records. fixture_records X rd corpus path True records \<and>
        get_str entry ''chain'' = Some (chain_status X records))"

definition declares_authenticity :: "json \<Rightarrow> bool" where
  "declares_authenticity entry \<longleftrightarrow> get_str entry ''authenticity'' \<in> {Some ''dsse-valid'', Some ''invalid''}"

definition declares_chain :: "json \<Rightarrow> bool" where
  "declares_chain entry \<longleftrightarrow> get_str entry ''chain'' \<notin> {None, Some ''not-checked''}"

definition entry_upheld ::
  "('sk, 'vk) crates \<Rightarrow> (bytes \<Rightarrow> 'vk option) \<Rightarrow> (string \<Rightarrow> string option) \<Rightarrow> string \<Rightarrow> string \<Rightarrow> json \<Rightarrow> bool" where
  "entry_upheld X from_bytes rd corpus default_key_hex entry \<longleftrightarrow>
     (\<exists>path. get_str entry ''path'' = Some path \<and>
        (declares_authenticity entry \<longrightarrow> authenticity_upheld X from_bytes rd corpus default_key_hex entry path) \<and>
        (declares_chain entry \<longrightarrow> chain_upheld X rd corpus entry path))"

lemma parse_records_Ok_iff: "parse_records X ls = Ok rs \<longleftrightarrow> map (aep_record_from_slice X) ls = map Inr rs"
  by (induction ls arbitrary: rs) (auto simp: Cons_eq_map_conv)

lemma check_authenticity_Ok_iff:
  "check_authenticity X from_bytes rd corpus dkey entry path n = Ok n' \<longleftrightarrow>
     (declares_authenticity entry \<longrightarrow> authenticity_upheld X from_bytes rd corpus dkey entry path) \<and>
     n' = n + of_bool (declares_authenticity entry)"
proof (cases "declares_authenticity entry")
  case False
  then show ?thesis by (auto simp: check_authenticity_def declares_authenticity_def)
next
  case True
  then have d: "(get_str entry ''authenticity'' = Some ''dsse-valid'' \<or> get_str entry ''authenticity'' = Some ''invalid'') = True"
    by (simp add: declares_authenticity_def)
  show ?thesis
    unfolding check_authenticity_def Let_def d if_True authenticity_upheld_def fixture_records_def
    using True
    by (cases "get_str entry ''verify_key''")
      (simp_all add: parse_records_Ok_iff enforce_Ok_iff del: parse_records.simps enforce.simps split del: if_split, blast+)
qed

lemma check_chain_Ok_iff:
  "check_chain X rd corpus entry path n = Ok n' \<longleftrightarrow>
     (declares_chain entry \<longrightarrow> chain_upheld X rd corpus entry path) \<and> n' = n + of_bool (declares_chain entry)"
  unfolding check_chain_def declares_chain_def chain_upheld_def fixture_records_def
  by (cases "get_str entry ''chain''") (auto simp: parse_records_Ok_iff split: if_splits)

lemma check_entries_Ok_iff:
  "check_entries X from_bytes rd corpus dkey es n = Ok n' \<longleftrightarrow>
     list_all (entry_upheld X from_bytes rd corpus dkey) es \<and>
     n' = n + length (filter declares_authenticity es) + length (filter declares_chain es)"
  by (induction es arbitrary: n) (auto simp: check_authenticity_Ok_iff check_chain_Ok_iff entry_upheld_def)

text \<open>C20: a run over a corpus that passes has enforced every verdict its manifest declares: the
manifest has the supported signing profile, every entry with an authenticity has only records the
verifier accepts where it says \<open>dsse-valid\<close> and only records it rejects with an error where it says
\<open>invalid\<close>, under the entry's own key or the default one, every chain has the status that was
expected, and the number returned, at least fifteen, is the number of those checks.\<close>

theorem corpus_run_enforces_manifest:
  "protocol_corpus_authenticity_and_chain X from_bytes var ex rd = Ok (Some n) \<longleftrightarrow>
     (\<exists>corpus txt manifest entries dkey.
        corpus_dir var ex = Some corpus \<and> rd (path_join corpus ''manifest.json'') = Some txt \<and>
        json_from_slice X txt = Inr manifest \<and>
        get_str manifest ''signing_profile_id'' = Some SUPPORTED_PROFILE \<and>
        json_get manifest ''conformance_target'' = Some (JArray entries) \<and>
        default_key rd corpus manifest = Ok dkey \<and>
        list_all (entry_upheld X from_bytes rd corpus dkey) entries \<and>
        n = length (filter declares_authenticity entries) + length (filter declares_chain entries) \<and> 15 \<le> n)"
  unfolding protocol_corpus_authenticity_and_chain_def
  by (cases "corpus_dir var ex") (auto simp: check_entries_Ok_iff Option.bind_eq_Some_conv split: if_splits)

end
