(* ===== verification/Corpus_Witnesses.thy ===== *)
theory Corpus_Witnesses
  imports Wire_Witnesses Corpus Cross_Language
begin

text \<open>
  The tamper matrix for a signed record, over an instance of the crates that tells one signature of
  one key from all others, and a corpus whose verdicts are all enforced.
\<close>

section \<open>The tamper matrix\<close>

definition strict_sign :: "bytes \<Rightarrow> bytes \<Rightarrow> bytes \<Rightarrow> bytes" where
  "strict_sign m0 k m = replicate 64 (if k = js_test_seed \<and> m = m0 then CHR ''A'' else CHR ''B'')"

definition strict_crates :: "bytes \<Rightarrow> (bytes, bytes) crates" where
  "strict_crates m0 = ref_crates\<lparr>ed_sign := strict_sign m0,
     ed_verify := (\<lambda>k m s. if s = strict_sign m0 k m then Inr () else Inl ''signature error'')\<rparr>"

lemma strict_fields:
  "canonical_json (strict_crates m0) = canonical_json ref_crates" "sha256_hex (strict_crates m0) = sha256_hex ref_crates"
  "json_to_string (strict_crates m0) = json_to_string ref_crates" "sha256 (strict_crates m0) = (\<lambda>bs. bs)"
  "ed_public (strict_crates m0) = (\<lambda>k. k)"
  by (simp_all add: strict_crates_def canonical_json_def sha256_hex_def fun_eq_iff) (simp_all add: ref_crates_def)

lemma strict_laws: "crate_laws (strict_crates m0)"
proof -
  have "ed_laws (strict_crates m0)"
    by (simp add: ed_laws_def strict_crates_def) (simp add: strict_sign_def ref_crates_def)
  moreover have "b64_laws (strict_crates m0)" "hex_laws (strict_crates m0)" "json_parses (strict_crates m0)"
    using ref_crate_laws
    by (simp_all add: crate_laws_def b64_laws_def hex_laws_def json_parses_def strict_crates_def)
  ultimately show ?thesis by (simp add: crate_laws_def)
qed

definition matrix_crates :: "(bytes, bytes) crates" where
  "matrix_crates = strict_crates (signed_text ref_crates annotated_record)"

lemma matrix_signed_text: "signed_text matrix_crates annotated_record = signed_text ref_crates annotated_record"
  by (simp add: matrix_crates_def signed_text_def record_statement_def record_digest_def strict_fields)

lemma matrix_verify_iff:
  "ed_verify matrix_crates k m (ed_sign matrix_crates js_test_seed (signed_text matrix_crates annotated_record)) = Inr () \<longleftrightarrow>
     k = js_test_seed \<and> m = signed_text matrix_crates annotated_record"
  unfolding matrix_signed_text unfolding matrix_crates_def strict_crates_def
  by (simp add: strict_sign_def numeral_eq_Suc)

lemma digest_of_object_nonzero: "record_digest ref_crates r \<noteq> replicate 64 CHR ''0''"
proof -
  have "record_digest ref_crates r = ref_hex_encode (canonical_json ref_crates (record_predicate r))"
    by (simp add: record_digest_def sha256_hex_def) (simp add: ref_crates_def)
  moreover obtain s where "canonical_json ref_crates (record_predicate r) = CHR ''{'' # s"
    by (simp add: canonical_json_def record_predicate_def aep_record_to_value_def)
  ultimately have "hd (record_digest ref_crates r) = CHR ''7''"
    by (simp add: hex_digits_def)
  then show ?thesis by (auto simp: numeral_eq_Suc)
qed

definition matrix_record :: aep_record where
  "matrix_record = sealed matrix_crates annotated_record js_test_seed ''key-1''"

theorem tamper_matrix_rejected_witness:
  "tampered_actions_fail matrix_crates (\<lambda>_. Some (aep_record_to_string matrix_crates matrix_record)) ''/crate'' id \<and>
   tampered_payload_fails_pae_signature matrix_crates (\<lambda>_. Some (aep_record_to_string matrix_crates matrix_record)) ''/crate'' id \<and>
   wrong_public_key_fails matrix_crates (\<lambda>_. Some (aep_record_to_string matrix_crates matrix_record)) ''/crate'' id"
proof -
  have signs: "sign_record_dsse matrix_crates annotated_record (id js_test_seed) ''key-1'' = (matrix_record, Ok ())"
    using sign_OkD [OF sample_signs] by (simp add: sign_cases matrix_record_def)
  have signable: "dsse_signable matrix_crates annotated_record"
    using samples_signable(2) [OF strict_laws] by (simp add: matrix_crates_def)
  have "record_digest matrix_crates matrix_record \<noteq> replicate 64 CHR ''0''"
    using digest_of_object_nonzero [of matrix_record] by (simp add: record_digest_def matrix_crates_def strict_fields)
  then have clean: "untampered matrix_crates matrix_record"
    by (simp add: untampered_def del: replicate.simps)
      (simp add: matrix_record_def sealed_def strip_signing_def annotated_record_def default_aep_record_def
        default_action_evidence_def)
  have lexical: "json_lexical (json_to_string matrix_crates)"
    using ref_lexical by (simp add: matrix_crates_def strict_fields)
  have seeds: "replicate 32 (CHR 0x42) \<noteq> js_test_seed"
    by (simp add: js_test_seed_def numeral_eq_Suc)
  have public: "ed_public matrix_crates k = k" for k
    by (simp add: matrix_crates_def strict_fields)
  have collisions: "digest_differs matrix_crates a b" for a b
    by (simp add: digest_differs_def matrix_crates_def strict_fields)
  have kid: "utf8_valid ''key-1''" by (simp add: utf8_valid_literal)
  note matrix = tamper_matrix_rejected [where from_seed = id and rd = "\<lambda>_. Some (aep_record_to_string matrix_crates matrix_record)"
      and dir = "''/crate''", OF signable samples_flat(2) kid signs refl clean lexical]
  show ?thesis
    using matrix collisions seeds by (auto simp: public matrix_verify_iff simp del: replicate.simps)
qed

section \<open>A corpus\<close>

definition corpus_entry :: json where
  "corpus_entry = JObject [(''chain'', JString ''not-present''), (''path'', JString ''none.jsonl'')]"

definition valid_entry :: json where
  "valid_entry = JObject [(''authenticity'', JString ''dsse-valid''), (''path'', JString ''signed.json'')]"

definition corpus_manifest :: json where
  "corpus_manifest = JObject
     [(''conformance_target'', JArray (valid_entry # replicate 14 corpus_entry)),
      (''signing_profile_id'', JString SUPPORTED_PROFILE)]"

definition corpus_seed :: bytes where
  "corpus_seed = replicate 32 (CHR 0xAA)"

definition corpus_signed :: aep_record where
  "corpus_signed = sealed ref_crates annotated_record corpus_seed ''key-1''"

definition corpus_files :: "string \<Rightarrow> string option" where
  "corpus_files = map_of
     [(''/corpus/manifest.json'', json_render (json_to_string ref_crates) corpus_manifest),
      (''/corpus/dsse/js-verify-key.hex'', replicate 64 CHR ''a''),
      (''/corpus/signed.json'', aep_record_to_string ref_crates corpus_signed),
      (''/corpus/none.jsonl'', [])]"

lemma trim_plain: "ascii s \<Longrightarrow> \<forall>c \<in> set s. \<not> is_whitespace (of_char c) \<Longrightarrow> trim s = s"
proof -
  assume s: "ascii s" "\<forall>c \<in> set s. \<not> is_whitespace (of_char c)"
  then have "\<forall>c \<in> set (chars s). \<not> is_whitespace c" by (simp add: chars_ascii)
  moreover have "dropWhile P xs = xs" if "\<forall>x \<in> set xs. \<not> P x" for P and xs :: "nat list"
    using that by (cases xs) simp_all
  note whole = this
  ultimately have "dropWhile is_whitespace (chars s) = chars s" "dropWhile is_whitespace (rev (chars s)) = rev (chars s)"
    by (simp, intro whole) simp
  then show ?thesis using utf8_encode_chars [of s] utf8_valid_ascii [OF s(1)] by (simp add: trim_def)
qed

lemma hex_of_a: "hex_to_bytes (replicate (n + n) CHR ''a'') = Ok (replicate n (CHR 0xAA))"
  by (induction n) (simp_all add: hex_byte_def radix16_def expect_def char_of_def bit_0)

lemma corpus_manifest_reads:
  "json_from_slice ref_crates (json_render (json_to_string ref_crates) corpus_manifest) = Inr corpus_manifest"
proof -
  have "json_ok corpus_manifest" "json_integral corpus_manifest"
    by (simp_all add: corpus_manifest_def corpus_entry_def valid_entry_def map_ok_def utf8_valid_literal
        SUPPORTED_PROFILE_def)
  moreover have "json_depth corpus_manifest \<le> Suc (Suc (Suc 0))"
    by (simp add: corpus_manifest_def corpus_entry_def valid_entry_def json_depth_object_le json_depth_array_le
        del: json_depth.simps(1,2) replicate.simps)
  ultimately have "json_ok corpus_manifest" "json_integral corpus_manifest" "json_depth corpus_manifest \<le> 3"
    by simp_all
  then show ?thesis
    using json_parses_value [OF ref_json_parses, of corpus_manifest]
    by (simp add: json_ok_strings_ok json_ok_rebuild json_depth_limit_def)
qed

lemma corpus_file:
  "corpus_files (path_join ''/corpus'' ''manifest.json'') = Some (json_render (json_to_string ref_crates) corpus_manifest)"
  "corpus_files (path_join ''/corpus'' ''dsse/js-verify-key.hex'') = Some (replicate 64 CHR ''a'')"
  "corpus_files (path_join ''/corpus'' ''signed.json'') = Some (aep_record_to_string ref_crates corpus_signed)"
  "corpus_files (path_join ''/corpus'' ''none.jsonl'') = Some []"
  by (simp_all add: corpus_files_def path_join_def starts_with_def)

lemma corpus_key: "verifying_key_from_hex Some (trim (replicate 64 CHR ''a'')) = Ok corpus_seed"
proof -
  have "trim (replicate 64 CHR ''a'') = replicate 64 CHR ''a''"
    by (rule trim_plain) (simp_all add: ascii_def is_whitespace_def del: replicate.simps)
  then show ?thesis
    using hex_of_a [of 32] by (simp add: verifying_key_from_hex_def corpus_seed_def del: replicate.simps)
qed

lemma corpus_signed_reads: "aep_record_from_slice ref_crates (aep_record_to_string ref_crates corpus_signed) = Inr corpus_signed"
  unfolding corpus_signed_def
  by (rule sealed_text_back [OF samples_signable(2) [OF ref_crate_laws] samples_flat(2)]) (simp add: utf8_valid_literal)

lemma corpus_signed_verifies: "verify_record_dsse ref_crates corpus_signed corpus_seed = Ok ()"
proof -
  have "sign_record_dsse ref_crates annotated_record corpus_seed ''key-1'' = (corpus_signed, Ok ())"
    using sign_OkD [OF sample_signs] by (simp add: sign_cases corpus_signed_def)
  from dsse.sign_verifies [OF samples_signable(2) [OF ref_crate_laws] this] show ?thesis
    by (simp add: ref_crates_def)
qed

lemma corpus_valid_upheld: "entry_upheld ref_crates Some corpus_files ''/corpus'' (trim (replicate 64 CHR ''a'')) valid_entry"
proof -
  have "trim (trim (replicate 64 CHR ''a'')) = trim (replicate 64 CHR ''a'')"
    using trim_plain [of "replicate 64 CHR ''a''"] by (simp add: ascii_def is_whitespace_def del: replicate.simps)
  then have "authenticity_upheld ref_crates Some corpus_files ''/corpus'' (trim (replicate 64 CHR ''a'')) valid_entry ''signed.json''"
    using corpus_key corpus_signed_verifies corpus_signed_reads
    unfolding authenticity_upheld_def fixture_records_def
    by (intro exI [of _ "[corpus_signed]"] exI [of _ "trim (replicate 64 CHR ''a'')"] exI [of _ corpus_seed])
      (simp add: corpus_file valid_entry_def get_str_def ends_with_def del: replicate.simps)
  then show ?thesis
    by (simp add: entry_upheld_def valid_entry_def get_str_def declares_chain_def del: replicate.simps)
qed

lemma corpus_chain_upheld: "entry_upheld ref_crates Some corpus_files ''/corpus'' key corpus_entry"
  by (simp add: entry_upheld_def corpus_entry_def get_str_def declares_authenticity_def declares_chain_def
      chain_upheld_def fixture_records_def corpus_file record_lines_def str_lines_def chain_status_def)

theorem corpus_run_enforces_manifest_witness:
  "protocol_corpus_authenticity_and_chain ref_crates Some (Some ''/corpus'') (\<lambda>_. True) corpus_files = Ok (Some 15)"
proof -
  have "declares_authenticity valid_entry" "\<not> declares_chain valid_entry"
    "\<not> declares_authenticity corpus_entry" "declares_chain corpus_entry"
    by (simp_all add: valid_entry_def corpus_entry_def declares_authenticity_def declares_chain_def get_str_def)
  moreover have "default_key corpus_files ''/corpus'' corpus_manifest = Ok (trim (replicate 64 CHR ''a''))"
    by (simp add: default_key_def corpus_manifest_def corpus_file del: replicate.simps)
  moreover have "get_str corpus_manifest ''signing_profile_id'' = Some SUPPORTED_PROFILE"
    "json_get corpus_manifest ''conformance_target'' = Some (JArray (valid_entry # replicate 14 corpus_entry))"
    by (simp_all add: corpus_manifest_def get_str_def)
  ultimately show ?thesis
    unfolding corpus_run_enforces_manifest
    by (intro exI [of _ "''/corpus''"] exI [of _ "json_render (json_to_string ref_crates) corpus_manifest"]
        exI [of _ corpus_manifest] exI [of _ "valid_entry # replicate 14 corpus_entry"]
        exI [of _ "trim (replicate 64 CHR ''a'')"])
      (simp add: corpus_dir_def corpus_file corpus_manifest_reads corpus_valid_upheld corpus_chain_upheld
        list_all_iff del: replicate.simps)
qed

end
