(* ===== verification/Benchmark.thy ===== *)
theory Benchmark
  imports Recording Complex_Main
begin

text \<open>
  \<open>benchmarks/latency_bench.rs\<close>. The benchmark means to exercise every exit path of
  \<open>compile_recording_policy\<close>; the contexts it builds do. \<open>main\<close> asserts a bound on the median latency,
  with the clock as a parameter, before it hands over to Criterion.
\<close>

definition base_ctx :: risk_context where
  "base_ctx = \<lparr>was_vetted = False, has_consent_anomaly = False, taint_chain_length = 0, risk_class = Read\<rparr>"

text \<open>The contexts of the Criterion functions, by the name each is registered under.\<close>

definition bench_compile_recording_policy :: "(string \<times> risk_context) list" where
  "bench_compile_recording_policy =
     [(''path_vetted'', base_ctx\<lparr>was_vetted := True\<rparr>),
      (''path_consent_anomaly'', base_ctx\<lparr>has_consent_anomaly := True\<rparr>),
      (''path_tainted_non_read'', base_ctx\<lparr>taint_chain_length := 3, risk_class := MutateLocal\<rparr>),
      (''path_unknown_class'', base_ctx\<lparr>risk_class := Unknown\<rparr>),
      (''path_external_mutation'', base_ctx\<lparr>risk_class := MutateExternal\<rparr>),
      (''path_network_egress'', base_ctx\<lparr>risk_class := NetworkEgress\<rparr>),
      (''path_mutate_local'', base_ctx\<lparr>risk_class := MutateLocal\<rparr>),
      (''path_read_default'', base_ctx)]"

definition all_contexts :: "risk_context list" where
  "all_contexts =
     [\<lparr>was_vetted = True, has_consent_anomaly = False, taint_chain_length = 0, risk_class = Read\<rparr>,
      \<lparr>was_vetted = False, has_consent_anomaly = True, taint_chain_length = 0, risk_class = Read\<rparr>,
      \<lparr>was_vetted = False, has_consent_anomaly = False, taint_chain_length = 3, risk_class = MutateLocal\<rparr>,
      \<lparr>was_vetted = False, has_consent_anomaly = False, taint_chain_length = 0, risk_class = Unknown\<rparr>,
      \<lparr>was_vetted = False, has_consent_anomaly = False, taint_chain_length = 0, risk_class = MutateExternal\<rparr>,
      \<lparr>was_vetted = False, has_consent_anomaly = False, taint_chain_length = 0, risk_class = NetworkEgress\<rparr>,
      \<lparr>was_vetted = False, has_consent_anomaly = False, taint_chain_length = 0, risk_class = MutateLocal\<rparr>,
      \<lparr>was_vetted = False, has_consent_anomaly = False, taint_chain_length = 0, risk_class = Read\<rparr>]"

text \<open>Both lists hold the same contexts, in the same order.\<close>

lemma bench_contexts: "map snd bench_compile_recording_policy = all_contexts"
  by (simp add: bench_compile_recording_policy_def all_contexts_def base_ctx_def)

text \<open>Every verdict the compiler can give, with its reason, is that of one of them.\<close>

lemma contexts_exercise_every_exit:
  "set (map compile_recording_policy all_contexts) = range compile_recording_policy"
proof
  show "range compile_recording_policy \<subseteq> set (map compile_recording_policy all_contexts)"
  proof
    fix p assume "p \<in> range compile_recording_policy"
    then obtain ctx where "p = compile_recording_policy ctx" by blast
    then show "p \<in> set (map compile_recording_policy all_contexts)"
      by (cases "risk_class ctx") (auto simp: compile_recording_policy_def all_contexts_def)
  qed
qed auto

text \<open>The modes the comments of the benchmark name for its paths.\<close>

lemma bench_modes:
  "map (\<lambda>c. mode (compile_recording_policy c)) all_contexts = [Full, Full, Full, Full, Full, Full, Delta, Validation]"
  by (simp add: compile_recording_policy_def all_contexts_def)

section \<open>The latency gate\<close>

definition TRIALS :: nat where
  "TRIALS = 11"

definition ITERATIONS :: nat where
  "ITERATIONS = 100000"

definition THRESHOLD_NS :: rat where
  "THRESHOLD_NS = 1000"

text \<open>
  A sample is an elapsed time divided by the number of iterations. The code divides in \<open>f64\<close>; all
  it does with the quotients is to order them and to compare the median with the threshold, and
  correctly rounded division is monotone and exact enough for that: a quotient of integers below
  \<open>2 ^ 53\<close> that is less than 1000 by at least \<open>10 ^ -5\<close> does not round up to it.
\<close>

definition bench_sample :: "nat \<Rightarrow> rat" where
  "bench_sample elapsed_ns = of_nat elapsed_ns / of_nat ITERATIONS"

definition median_ns :: "rat list \<Rightarrow> rat" where
  "median_ns samples = (let sorted = sort samples in sorted ! (length sorted div 2))"

text \<open>
  The clock answers, for the context at a position of the list and a trial, how many nanoseconds the
  iterations took. A failed assertion panics; Criterion's own run is left out.
\<close>

fun latency_checks :: "(nat \<Rightarrow> nat \<Rightarrow> nat) \<Rightarrow> (nat \<times> risk_context) list \<Rightarrow> (unit, unit) outcome" where
  "latency_checks clock [] = Ok ()"
| "latency_checks clock ((i, ctx) # ctxs) =
     (let samples = map (\<lambda>trial. bench_sample (clock i trial)) [0..<TRIALS] in
      if median_ns samples < THRESHOLD_NS then latency_checks clock ctxs else Panic)"

definition latency_bench_main :: "(nat \<Rightarrow> nat \<Rightarrow> nat) \<Rightarrow> (unit, unit) outcome" where
  "latency_bench_main clock = latency_checks clock (enumerate 0 all_contexts)"

text \<open>In a sorted list the elements below a bound come first, so how many there are decides each position.\<close>

lemma sorted_filter_less: "sorted xs \<Longrightarrow> filter (\<lambda>x. x < b) xs = takeWhile (\<lambda>x. x < b) (xs :: 'a :: linorder list)"
proof (induction xs)
  case (Cons x xs)
  show ?case
  proof (cases "x < b")
    case False
    with Cons.prems have "\<forall>y \<in> set xs. \<not> y < b" by auto
    with False show ?thesis by (simp add: filter_empty_conv)
  qed (use Cons in simp)
qed simp

lemma sorted_nth_less_iff:
  assumes "sorted (xs :: 'a :: linorder list)" "k < length xs"
  shows "xs ! k < b \<longleftrightarrow> k < length (filter (\<lambda>x. x < b) xs)"
proof -
  let ?m = "length (takeWhile (\<lambda>x. x < b) xs)"
  have "xs ! k < b \<longleftrightarrow> k < ?m"
  proof
    assume k: "xs ! k < b"
    show "k < ?m"
    proof (rule ccontr)
      assume "\<not> k < ?m"
      with assms have "xs ! ?m \<le> xs ! k" "\<not> xs ! ?m < b"
        using nth_length_takeWhile [of "\<lambda>x. x < b" xs] by (auto intro: sorted_nth_mono)
      with k show False by simp
    qed
  next
    assume "k < ?m"
    then show "xs ! k < b" by (metis nth_mem set_takeWhileD takeWhile_nth)
  qed
  then show ?thesis by (simp add: sorted_filter_less [OF assms(1)])
qed

lemma median_less_iff:
  assumes "xs \<noteq> []"
  shows "median_ns xs < b \<longleftrightarrow> length xs div 2 < length (filter (\<lambda>x. x < b) xs)"
proof -
  have "length (filter (\<lambda>x. x < b) (sort xs)) = length (filter (\<lambda>x. x < b) xs)"
    by (simp add: filter_sort)
  with assms show ?thesis
    by (simp add: median_ns_def Let_def sorted_nth_less_iff)
qed

text \<open>
  A context passes if six of its eleven trials stay below a tenth of a second: any five may be
  outliers.
\<close>

lemma latency_checks_Ok_iff:
  "latency_checks clock ctxs = Ok () \<longleftrightarrow>
     (\<forall>i \<in> fst ` set ctxs. 6 \<le> length (filter (\<lambda>trial. clock i trial < 10 ^ 8) [0..<11]))"
proof (induction ctxs)
  case (Cons c ctxs)
  obtain i ctx where c: "c = (i, ctx)" by (cases c)
  let ?samples = "map (\<lambda>trial. bench_sample (clock i trial)) [0..<TRIALS]"
  have less: "bench_sample n < THRESHOLD_NS \<longleftrightarrow> n < 10 ^ 8" for n
  proof -
    have "bench_sample n < THRESHOLD_NS \<longleftrightarrow> of_nat n < (of_nat (10 ^ 8) :: rat)"
      by (simp add: bench_sample_def THRESHOLD_NS_def ITERATIONS_def divide_less_eq)
    then show ?thesis by (simp only: of_nat_less_iff)
  qed
  have "length (filter (\<lambda>x. x < THRESHOLD_NS) ?samples) =
      length (filter (\<lambda>trial. clock i trial < 10 ^ 8) [0..<11])"
    unfolding filter_map length_map comp_def less TRIALS_def ..
  moreover have "median_ns ?samples < THRESHOLD_NS \<longleftrightarrow>
      length ?samples div 2 < length (filter (\<lambda>x. x < THRESHOLD_NS) ?samples)"
    by (rule median_less_iff) (simp add: TRIALS_def)
  ultimately have "median_ns ?samples < THRESHOLD_NS \<longleftrightarrow>
      6 \<le> length (filter (\<lambda>trial. clock i trial < 10 ^ 8) [0..<11])"
    by (simp only: length_map length_upt TRIALS_def) auto
  then show ?case by (simp add: c Let_def Cons.IH del: upt_rec_numeral)
qed simp

lemma latency_gate_tolerates_outliers:
  "latency_bench_main clock = Ok () \<longleftrightarrow>
     (\<forall>i < 8. 6 \<le> length (filter (\<lambda>trial. clock i trial < 10 ^ 8) [0..<11]))"
proof -
  have "map fst (enumerate 0 all_contexts) = [0..<8]" by (simp add: all_contexts_def upt_rec)
  then have "fst ` set (enumerate 0 all_contexts) = {0..<8}" by (metis list.set_map set_upt)
  then show ?thesis by (simp only: latency_bench_main_def latency_checks_Ok_iff) auto
qed

end
