(* ===== verification/Spec2Isabelle.thy ===== *)
theory Spec2Isabelle
  imports Prelude Rust_Strings Json_Value Recording Evidence Wire_Form Rollup Mcp_Headers Recorder
    Prov Crates Canonical_Json Deserialize Wire_Round_Trip Policy_Wire Prov_Wire Dsse Config Http_Filter Simulation Proxy_Spec
    Emitter Transport Chain Samples Reference_Crates Witnesses Test_Core Test_Gateway Test_Wire Test_Dsse
    Wire_Witnesses Cross_Language Corpus Corpus_Witnesses Benchmark
begin

text \<open>
  Verification of \<open>wasmagent-proxy\<close>: the crate \<open>aep-core\<close> (evidence records, recording policy,
  header classification, provenance, DSSE signing) and the crate \<open>proxy-wasm-evidence\<close> (the
  Proxy-Wasm filter that captures evidence and the emitter that signs it).

  The program. The host (Envoy) configures the root context (\<open>filter.rs\<close>, \<open>config.rs\<close>) and
  creates one HTTP filter per stream. On request headers the filter remembers method, path and
  the MCP headers. On response headers it infers a side-effect class (\<open>recorder.rs\<close>), compiles it
  to a recording mode (\<open>recording.rs\<close>), classifies the MCP headers for leaked secrets
  (\<open>mcp_headers.rs\<close>), builds an \<open>ActionEvidence\<close> (\<open>evidence.rs\<close>), reports it in response headers
  and counters and pushes it into a bounded buffer. \<open>emitter.rs\<close> assembles captured evidence into an
  \<open>AepRecord\<close> and signs it with \<open>sign_record_dsse\<close> (\<open>dsse.rs\<close>); \<open>verify_record_dsse\<close> is what a
  consumer runs. \<open>prov.rs\<close> answers ancestry queries over a provenance graph. In this version no
  caller connects the filter's buffer to the emitter; the end-to-end properties below compose the
  two as the documentation of \<open>emitter.rs\<close> says they are meant to be, and carry the signed record as
  JSON text to a consumer that reads and verifies it.

  Theories, in the order of the imports.
    \<^item> \<open>Prelude\<close>: bytes, the type \<open>outcome\<close> (\<open>Ok\<close>, \<open>Err\<close>, and \<open>Panic\<close> for a Rust panic) with the \<open>?\<close>
      operator, iterator adaptors, decimal printing, the locale \<open>ranked_choice\<close>.
    \<^item> \<open>Rust_Strings\<close>: a \<open>String\<close> is its UTF-8 bytes; decoding, UTF-16, ASCII case, splitting, trimming,
      comparator sorts (locales \<open>comparator\<close> and \<open>key_order\<close>). Unicode's character tables are the
      parameter \<open>unicode_tables\<close>, consulted beyond ASCII only.
    \<^item> \<open>Json_Value\<close>: \<open>serde_json::Value\<close>; a map is the list of its entries in key order.
    \<^item> \<open>Recording\<close>, \<open>Evidence\<close>, \<open>Wire_Form\<close>, \<open>Rollup\<close>: \<open>recording.rs\<close> and \<open>evidence.rs\<close>. \<open>Evidence\<close> has the
      records and their derived serialization, \<open>Wire_Form\<close> shows that the wire form is a well-formed
      value and determines the record, \<open>Rollup\<close> has the two run-level roll-ups.
    \<^item> \<open>Mcp_Headers\<close>, \<open>Recorder\<close>, \<open>Prov\<close>: the files of the same names. \<open>Recorder\<close> states the buffer's
      contract as the locale \<open>bounded_fifo\<close>, interpreted on the code's buffer, and the two joins as
      interpretations of \<open>ranked_choice\<close>.
    \<^item> \<open>Crates\<close>: the third-party functions (base64, hex, SHA-256, serde_json's text functions, Ed25519)
      as a record that every definition using them takes as an argument, and their documented laws.
    \<^item> \<open>Canonical_Json\<close>, \<open>Dsse\<close>: \<open>dsse.rs\<close> and \<open>signing.rs\<close>; the locale \<open>attestation\<close> is the contract of
      signing, interpreted on \<open>sign_record_dsse\<close> and \<open>verify_record_dsse\<close>.
    \<^item> \<open>Deserialize\<close>, \<open>Wire_Round_Trip\<close>: reading a record from its text, as the serde attributes on the
      structs of \<open>evidence.rs\<close> specify it (required and optional members, unknown variants, repeated
      members, the flattened catch-all map), and what reading and writing keep. The locale \<open>wire_type\<close> is
      the contract of a type that is written and read, interpreted on records, configurations,
      provenance graphs, risk contexts and policies.
    \<^item> \<open>Policy_Wire\<close>, \<open>Prov_Wire\<close>: the derived writers and readers of \<open>recording.rs\<close> and \<open>prov.rs\<close>; the order in
      which a \<open>HashMap\<close> is written is a parameter.
    \<^item> \<open>Config\<close>, \<open>Http_Filter\<close>: \<open>config.rs\<close> with its reader, \<open>filter.rs\<close>. \<open>proxy_step\<close> is the life
      cycle of the module under the host's callbacks, \<open>proxy_reachable\<close> its reachable states. The host is
      a record of answers; the calls a callback makes are returned in order. The life cycle starts from what
      the entry point of \<open>lib.rs\<close> registers (\<open>module_main\<close>). Creating a context reserves its whole buffer:
      the event carries the room the allocator has left, and without enough of it the callback panics.
    \<^item> \<open>Simulation\<close>, \<open>Proxy_Spec\<close>: runs of a step relation, with the locales \<open>simulation\<close> (a run matches a
      deterministic specification, outputs included) and \<open>responsive\<close> (allowed inputs are answered, in one
      way); the ledger, an abstract specification of the module that knows only configurations,
      requests and unbounded histories, and the interpretations of both locales on \<open>proxy_step\<close>.
    \<^item> \<open>Emitter\<close>, \<open>Transport\<close>: \<open>emitter.rs\<close>. The trait \<open>EvidenceSink\<close> is the locale \<open>evidence_sink\<close>,
      interpreted on the in-memory sink; \<open>Transport\<close> takes signed records over the wire.
    \<^item> \<open>Chain\<close>, \<open>Corpus\<close>, \<open>Samples\<close>: the chain check of \<open>tests/protocol_corpus.rs\<close> (the Rust mirror of the JavaScript
      verifier's), the adapter around it that enforces the verdicts of a corpus' manifest, and
      \<open>examples/emit_aep_samples.rs\<close>, its \<open>main\<close> as a list of file effects.
    \<^item> \<open>Cross_Language\<close>, \<open>Benchmark\<close>: the tests of \<open>tests/cross_language.rs\<close>, whose tamper matrix is shown for
      signed records in general; the contexts of \<open>benchmarks/latency_bench.rs\<close> and the median gate of its \<open>main\<close>,
      with the clock as a parameter.
    \<^item> \<open>Reference_Crates\<close>, \<open>Witnesses\<close>, \<open>Wire_Witnesses\<close>, \<open>Corpus_Witnesses\<close>: a concrete instance of the crate functions
      that satisfies all the laws, and the properties at concrete inputs.
    \<^item> \<open>Test_Core\<close>, \<open>Test_Gateway\<close>, \<open>Test_Wire\<close>, \<open>Test_Dsse\<close>: the unit tests of the two crates, one
      predicate per test function under the name of the function, and that they hold of the model. The
      tests of \<open>config.rs\<close> and three of \<open>dsse.rs\<close> need more of a crate than its laws say (that invalid
      hex is refused, that an indented configuration is read, how control characters are escaped, that
      two given texts have different digests); these hypotheses stand at their lemmas, and
      \<open>unit_tests_hold\<close> collects the others.

  What the properties show. End to end: whatever a context captured in any reachable state can be
  assembled into a record that still verifies after it was written as text and read again, and every
  exchange a live context handles ends in such a record. Refinement: after every run the buffers, the
  configuration and the drop counters are those of the ledger, every call into the host is the one
  the ledger prescribes, and every history the host may produce is answered in exactly one way, as long as
  each context is created with room for its buffer; which configurations leave a module that cannot
  create contexts is characterised.
  Signing: records verify after signing; a moved
  or altered record is rejected with the error that names the reason; one envelope attests one
  JSON content up to SHA-256 collisions; the exact conditions for acceptance, for a failed floor check
  and for a panic. In the cross-language matrix every tampering but two is rejected whatever the signature
  scheme accepts; a rewritten predicate and another key are rejected exactly if the signature does not
  verify there, and nothing is assumed of Ed25519 but that what was signed verifies. A corpus run that
  passes has enforced each verdict of its manifest. Canonical JSON: injective, parsed back, members in UTF-16 order. Reading: a
  record whose catch-all maps declare no member of a struct and hold no floating point numbers is read back
  member by member; what is read is well formed; undeclared members survive, each exactly once; the order
  of members does not matter; repeated or missing members are rejected; a configuration text is read
  with the defaults filled in and takes effect; a provenance graph is read back in whatever order it was written. Capture: entries
  are never below the operator's default mode nor below what the HTTP method demands, the buffer
  accounts for everything it drops. Chains: the five verdicts, and an intact chain is determined by its
  last record. Policy, header classifier, provenance walk and roll-ups are characterised exactly.

  Conventions and bounds. An error string of the source is a constructor whose arguments are the
  interpolated parts. \<open>usize\<close> is a natural number: no length in the code comes near the limit of an
  address space, except the buffer's capacity, which is configured, read with the 32 bits of \<open>wasm32\<close> and
  checked against the room there is; \<open>u64\<close> and \<open>u32\<close> fields are words and wrap. \<open>serde_json\<close> parses 127 nested containers;
  a statement nests its predicate once and a record its catch-all values four times, which leaves
  122 for the catch-all values (\<open>extras_nesting\<close>). Floating point numbers in catch-all maps are
  modelled by their bits but left out of the round trip, because \<open>serde_json\<close> without the feature
  \<open>float_roundtrip\<close> does not promise to read back the same bits. The recursive reference
  parser takes the length of the text as fuel, which bounds the depth of its recursion.

  Reading a record or a configuration is determined by the struct declarations, their serde attributes
  and the serde documentation of these; the parser of the JSON text below it is a parameter
  (\<open>json_read\<close>) that returns the members in the order of the text, repeated ones included, and what is
  relied on is that it reads what the printer wrote.

  Not modelled: the error messages of the JSON reader (an error is one value), the
  dispatcher of the Proxy-Wasm SDK beyond the life cycle above and the panics it raises when the host
  refuses a header call, exhausted memory anywhere but in the reservation of a buffer, the pretty
  printer and the file system behind the sample emitter, the fixtures and the corpus (parameters), the text
  of log lines, and Criterion's own measurements.
\<close>

end
